theory Spec2Isabelle
  imports Main "HOL-Library.Word"
begin

section \<open>Data model of \<^verbatim>\<open>src/lib/trace-ir/field-class.c\<close>\<close>

text \<open>
  Field classes and integer range sets are heap objects that the C code shares through
  pointers. The model keeps two typed heaps, one list per object kind; a pointer is an
  index into its list and an index outside the list stands for \<^verbatim>\<open>NULL\<close> (or any
  pointer that is not a live object). Objects are never released by the functions
  modelled here, so reference counts (\<^verbatim>\<open>bt_object_get_ref\<close>) and logging are left out.
  The GLib allocators (\<^verbatim>\<open>g_new0\<close>, \<^verbatim>\<open>g_string_new\<close>, \<^verbatim>\<open>g_array_new\<close>) abort
  instead of returning \<^verbatim>\<open>NULL\<close>, so allocation always succeeds in the model. The trace
  class argument of the creation functions is only compared with \<^verbatim>\<open>NULL\<close>; the model
  takes it as given.
\<close>

type_synonym addr = nat

datatype bt_field_class_type =
    UNSIGNED_INTEGER
  | SIGNED_INTEGER
  | UNSIGNED_ENUMERATION
  | SIGNED_ENUMERATION
  | REAL
  | STRING
  | STRUCTURE
  | STATIC_ARRAY
  | DYNAMIC_ARRAY
  | VARIANT_WITHOUT_SELECTOR
  | VARIANT_WITH_UNSIGNED_SELECTOR
  | VARIANT_WITH_SIGNED_SELECTOR

datatype bt_field_class_integer_preferred_display_base =
    BASE_BINARY | BASE_OCTAL | BASE_DECIMAL | BASE_HEXADECIMAL

text \<open>
  \<^verbatim>\<open>struct bt_integer_range\<close>: both bounds are unions of a \<^verbatim>\<open>uint64_t\<close> (\<^verbatim>\<open>.u\<close>) and
  an \<^verbatim>\<open>int64_t\<close> (\<^verbatim>\<open>.i\<close>); a 64-bit word read with \<open>\<le>\<close> (unsigned) or through
  \<open>sint\<close> (signed).
\<close>

record bt_integer_range =
  lower :: "64 word"
  upper :: "64 word"

record bt_integer_range_set =
  ranges :: "bt_integer_range list"
  rs_frozen :: bool

record bt_field_class_enumeration_mapping =
  label :: string
  range_set :: addr

text \<open>
  \<^verbatim>\<open>struct bt_named_field_class\<close>, and \<^verbatim>\<open>struct bt_field_class_variant_with_selector_option\<close>
  which extends it with a range set: \<open>opt_range_set\<close> is \<open>None\<close> for a structure member
  and for an option of a variant without selector.
\<close>

record bt_named_field_class =
  name :: string
  fc :: addr
  nfc_frozen :: bool
  opt_range_set :: "addr option"

text \<open>
  The C structures of the field classes share the header \<^verbatim>\<open>struct bt_field_class\<close> and are
  cast to each other; one record holds the fields of all layouts (the field paths, which
  this file only stores, are left out). \<open>int_range\<close> is
  \<^verbatim>\<open>bt_field_class_integer.range\<close>, \<open>array_length\<close> is
  \<^verbatim>\<open>bt_field_class_static_array.length\<close>, \<open>name_to_index\<close> is the \<^verbatim>\<open>GHashTable\<close> of a
  container, as an association list read with \<open>map_of\<close>.
\<close>

record bt_field_class =
  fc_type :: bt_field_class_type
  frozen :: bool
  part_of_trace_class :: bool
  int_range :: "64 word"
  base :: bt_field_class_integer_preferred_display_base
  mappings :: "bt_field_class_enumeration_mapping list"
  label_buf :: "string list"
  is_single_precision :: bool
  named_fcs :: "bt_named_field_class list"
  name_to_index :: "(string \<times> nat) list"
  selector_fc :: "addr option"
  element_fc :: "addr option"
  array_length :: "64 word"
  length_fc :: "addr option"

record heap =
  fcs :: "bt_field_class list"
  range_sets :: "bt_integer_range_set list"

text \<open>
  A failed precondition (\<^verbatim>\<open>BT_ASSERT_PRE\<close>, \<^verbatim>\<open>BT_ASSERT\<close>) stops the call. The model
  returns which check failed together with the heap as it is at that point.
\<close>

datatype bt_error =
    NullPointer
  | WrongType
  | IndexOutOfBounds
  | InvalidState
  | InvalidArgument
  | DuplicateName
  | DuplicateLabel
  | OverlappingRanges
  | EmptyRangeSet
  | OutOfFuel

type_synonym 'a result = "(bt_error \<times> heap) + 'a"

definition fc_at :: "heap \<Rightarrow> addr \<Rightarrow> bt_field_class option" where
  "fc_at h a = (if a < length (fcs h) then Some (fcs h ! a) else None)"

definition rs_at :: "heap \<Rightarrow> addr \<Rightarrow> bt_integer_range_set option" where
  "rs_at h a = (if a < length (range_sets h) then Some (range_sets h ! a) else None)"

definition set_fc :: "heap \<Rightarrow> addr \<Rightarrow> bt_field_class \<Rightarrow> heap" where
  "set_fc h a f = h\<lparr>fcs := (fcs h)[a := f]\<rparr>"

definition set_rs :: "heap \<Rightarrow> addr \<Rightarrow> bt_integer_range_set \<Rightarrow> heap" where
  "set_rs h a r = h\<lparr>range_sets := (range_sets h)[a := r]\<rparr>"

text \<open>\<^verbatim>\<open>g_new0\<close>: a zeroed object; every creation function sets the type right after.\<close>

definition zeroed_field_class :: bt_field_class where
  "zeroed_field_class =
     \<lparr>fc_type = UNSIGNED_INTEGER, frozen = False, part_of_trace_class = False,
      int_range = 0, base = BASE_BINARY, mappings = [], label_buf = [],
      is_single_precision = False, named_fcs = [], name_to_index = [], selector_fc = None, element_fc = None,
      array_length = 0, length_fc = None\<rparr>"

definition alloc_fc :: "heap \<Rightarrow> bt_field_class \<Rightarrow> heap \<times> addr" where
  "alloc_fc h f = (h\<lparr>fcs := fcs h @ [f]\<rparr>, length (fcs h))"

definition empty_heap :: heap where
  "empty_heap = \<lparr>fcs = [], range_sets = []\<rparr>"

subsection \<open>Type tests of the precondition macros\<close>

definition fc_is_int :: "bt_field_class_type \<Rightarrow> bool" where
  "fc_is_int t = (t = UNSIGNED_INTEGER \<or> t = SIGNED_INTEGER \<or>
     t = UNSIGNED_ENUMERATION \<or> t = SIGNED_ENUMERATION)"

definition fc_is_unsigned_int :: "bt_field_class_type \<Rightarrow> bool" where
  "fc_is_unsigned_int t = (t = UNSIGNED_INTEGER \<or> t = UNSIGNED_ENUMERATION)"

definition fc_is_container :: "bt_field_class_type \<Rightarrow> bool" where
  "fc_is_container t = (t = STRUCTURE \<or> t = VARIANT_WITHOUT_SELECTOR \<or>
     t = VARIANT_WITH_UNSIGNED_SELECTOR \<or> t = VARIANT_WITH_SIGNED_SELECTOR)"

definition fc_is_array :: "bt_field_class_type \<Rightarrow> bool" where
  "fc_is_array t = (t = STATIC_ARRAY \<or> t = DYNAMIC_ARRAY)"

section \<open>Integer range sets\<close>

text \<open>
  Modelled from the spec: \<^verbatim>\<open>lib/integer-range-set.c\<close> (creation, \<^verbatim>\<open>add_range\<close>,
  \<^verbatim>\<open>has_overlaps\<close>, \<^verbatim>\<open>freeze\<close>) is not among the sources. Section 4.1 of the
  specification: \<^verbatim>\<open>add_range(lower, upper)\<close> fails with \<^verbatim>\<open>InvalidArgument\<close> if
  \<^verbatim>\<open>lower > upper\<close> or if the set is already frozen; \<^verbatim>\<open>has_overlaps()\<close> is true iff any
  two ranges in the set have a non-empty intersection, ranges being compared pairwise
  with inclusive bounds; \<^verbatim>\<open>freeze()\<close> is irreversible.
\<close>

definition range_le :: "bool \<Rightarrow> 64 word \<Rightarrow> 64 word \<Rightarrow> bool" where
  "range_le is_signed a b = (if is_signed then sint a \<le> sint b else a \<le> b)"

definition empty_range_set :: bt_integer_range_set where
  "empty_range_set = \<lparr>ranges = [], rs_frozen = False\<rparr>"

definition bt_integer_range_set_create :: "heap \<Rightarrow> heap \<times> addr" where
  "bt_integer_range_set_create h =
     (h\<lparr>range_sets := range_sets h @ [empty_range_set]\<rparr>, length (range_sets h))"

definition add_range_to :: "bool \<Rightarrow> bt_integer_range_set \<Rightarrow> 64 word \<Rightarrow> 64 word \<Rightarrow>
    bt_error + bt_integer_range_set" where
  "add_range_to is_signed rs lo hi =
     (if rs_frozen rs then Inl InvalidArgument
      else if \<not> range_le is_signed lo hi then Inl InvalidArgument
      else Inr (rs\<lparr>ranges := ranges rs @ [\<lparr>lower = lo, upper = hi\<rparr>]\<rparr>))"

definition bt_integer_range_set_add_range ::
    "bool \<Rightarrow> heap \<Rightarrow> addr \<Rightarrow> 64 word \<Rightarrow> 64 word \<Rightarrow> heap result" where
  "bt_integer_range_set_add_range is_signed h a lo hi =
     (case rs_at h a of
        None \<Rightarrow> Inl (NullPointer, h)
      | Some rs \<Rightarrow>
          (case add_range_to is_signed rs lo hi of
             Inl e \<Rightarrow> Inl (e, h)
           | Inr rs' \<Rightarrow> Inr (set_rs h a rs')))"

definition ranges_intersect :: "bool \<Rightarrow> bt_integer_range \<Rightarrow> bt_integer_range \<Rightarrow> bool" where
  "ranges_intersect is_signed r1 r2 =
     (range_le is_signed (lower r1) (upper r2) \<and> range_le is_signed (lower r2) (upper r1))"

fun has_overlaps_in :: "bool \<Rightarrow> bt_integer_range list \<Rightarrow> bool" where
  "has_overlaps_in is_signed [] = False"
| "has_overlaps_in is_signed (r # rs) =
     (if list_ex (ranges_intersect is_signed r) rs then True
      else has_overlaps_in is_signed rs)"

definition bt_integer_range_set_has_overlaps :: "bool \<Rightarrow> bt_integer_range_set \<Rightarrow> bool" where
  "bt_integer_range_set_has_overlaps is_signed rs = has_overlaps_in is_signed (ranges rs)"

definition bt_integer_range_set_freeze :: "heap \<Rightarrow> addr \<Rightarrow> heap result" where
  "bt_integer_range_set_freeze h a =
     (case rs_at h a of
        None \<Rightarrow> Inl (NullPointer, h)
      | Some rs \<Rightarrow> Inr (set_rs h a (rs\<lparr>rs_frozen := True\<rparr>)))"

section \<open>Integer field classes\<close>

definition init_field_class :: "bt_field_class \<Rightarrow> bt_field_class_type \<Rightarrow> bt_field_class" where
  "init_field_class f t = f\<lparr>fc_type := t\<rparr>"

definition init_integer_field_class ::
    "bt_field_class \<Rightarrow> bt_field_class_type \<Rightarrow> bt_field_class" where
  "init_integer_field_class f t = (init_field_class f t)\<lparr>int_range := 64, base := BASE_DECIMAL\<rparr>"

definition create_integer_field_class :: "heap \<Rightarrow> bt_field_class_type \<Rightarrow> heap \<times> addr" where
  "create_integer_field_class h t = alloc_fc h (init_integer_field_class zeroed_field_class t)"

definition bt_field_class_unsigned_integer_create :: "heap \<Rightarrow> heap \<times> addr" where
  "bt_field_class_unsigned_integer_create h = create_integer_field_class h UNSIGNED_INTEGER"

definition bt_field_class_signed_integer_create :: "heap \<Rightarrow> heap \<times> addr" where
  "bt_field_class_signed_integer_create h = create_integer_field_class h SIGNED_INTEGER"

definition bt_field_class_integer_get_field_value_range :: "heap \<Rightarrow> addr \<Rightarrow> (64 word) result" where
  "bt_field_class_integer_get_field_value_range h a =
     (case fc_at h a of
        None \<Rightarrow> Inl (NullPointer, h)
      | Some f \<Rightarrow> if \<not> fc_is_int (fc_type f) then Inl (WrongType, h) else Inr (int_range f))"

text \<open>The body of \<^verbatim>\<open>size_is_valid_for_enumeration_field_class\<close> is \<^verbatim>\<open>return true\<close>.\<close>

definition size_is_valid_for_enumeration_field_class :: "bt_field_class \<Rightarrow> 64 word \<Rightarrow> bool" where
  "size_is_valid_for_enumeration_field_class f sz = True"

text \<open>
  Modelled from the spec: the macros \<^verbatim>\<open>BT_ASSERT_PRE_DEV_FC_HOT\<close>,
  \<^verbatim>\<open>bt_field_class_freeze\<close> and \<^verbatim>\<open>bt_named_field_class_freeze\<close> are declared in
  \<^verbatim>\<open>lib/trace-ir/field-class.h\<close>, which is not among the sources. The specification says
  that a mutating operation on a frozen field class fails with \<^verbatim>\<open>InvalidState\<close> and that
  composing a field class into a parent freezes it: the hot check fails on
  \<open>frozen\<close>, and the freeze macros run \<^verbatim>\<open>_bt_field_class_freeze\<close> and
  \<^verbatim>\<open>_bt_named_field_class_freeze\<close>.
\<close>

definition bt_field_class_integer_set_field_value_range ::
    "heap \<Rightarrow> addr \<Rightarrow> 64 word \<Rightarrow> heap result" where
  "bt_field_class_integer_set_field_value_range h a sz =
     (case fc_at h a of
        None \<Rightarrow> Inl (NullPointer, h)
      | Some f \<Rightarrow>
          if \<not> fc_is_int (fc_type f) then Inl (WrongType, h)
          else if frozen f then Inl (InvalidState, h)
          else if \<not> sz \<le> 64 then Inl (InvalidArgument, h)
          else if \<not> (fc_type f = UNSIGNED_INTEGER \<or> fc_type f = SIGNED_INTEGER \<or>
                      size_is_valid_for_enumeration_field_class f sz)
            then Inl (InvalidArgument, h)
          else Inr (set_fc h a (f\<lparr>int_range := sz\<rparr>)))"

definition bt_field_class_integer_set_preferred_display_base ::
    "heap \<Rightarrow> addr \<Rightarrow> bt_field_class_integer_preferred_display_base \<Rightarrow> heap result" where
  "bt_field_class_integer_set_preferred_display_base h a b =
     (case fc_at h a of
        None \<Rightarrow> Inl (NullPointer, h)
      | Some f \<Rightarrow>
          if \<not> fc_is_int (fc_type f) then Inl (WrongType, h)
          else if frozen f then Inl (InvalidState, h)
          else Inr (set_fc h a (f\<lparr>base := b\<rparr>)))"

section \<open>Enumeration field classes\<close>

definition create_enumeration_field_class :: "heap \<Rightarrow> bt_field_class_type \<Rightarrow> heap \<times> addr" where
  "create_enumeration_field_class h t =
     alloc_fc h ((init_integer_field_class zeroed_field_class t)\<lparr>mappings := [], label_buf := []\<rparr>)"

definition bt_field_class_unsigned_enumeration_create :: "heap \<Rightarrow> heap \<times> addr" where
  "bt_field_class_unsigned_enumeration_create h =
     create_enumeration_field_class h UNSIGNED_ENUMERATION"

definition bt_field_class_signed_enumeration_create :: "heap \<Rightarrow> heap \<times> addr" where
  "bt_field_class_signed_enumeration_create h =
     create_enumeration_field_class h SIGNED_ENUMERATION"

text \<open>
  The inner loop of \<^verbatim>\<open>..._get_mapping_labels_for_value\<close>: it leaves at the first range
  that holds the value.
\<close>

fun ranges_contain :: "bool \<Rightarrow> bt_integer_range list \<Rightarrow> 64 word \<Rightarrow> bool" where
  "ranges_contain is_signed [] v = False"
| "ranges_contain is_signed (r # rs) v =
     (if range_le is_signed (lower r) v \<and> range_le is_signed v (upper r) then True
      else ranges_contain is_signed rs v)"

text \<open>
  The outer loop: the labels are added to \<^verbatim>\<open>label_buf\<close> in the order of the mappings.
  \<open>None\<close> when a mapping's range set pointer is not a live range set.
\<close>

fun collect_labels ::
    "bool \<Rightarrow> heap \<Rightarrow> bt_field_class_enumeration_mapping list \<Rightarrow> 64 word \<Rightarrow> string list \<Rightarrow>
     string list option" where
  "collect_labels is_signed h [] v buf = Some buf"
| "collect_labels is_signed h (m # ms) v buf =
     (case rs_at h (range_set m) of
        None \<Rightarrow> None
      | Some rs \<Rightarrow>
          collect_labels is_signed h ms v
            (if ranges_contain is_signed (ranges rs) v then buf @ [label m] else buf))"

text \<open>
  The result is the updated heap (the scratch buffer \<^verbatim>\<open>label_buf\<close> of the enumeration is
  overwritten), the label array, which is the buffer itself, and the count.
\<close>

definition get_mapping_labels_for_value ::
    "bool \<Rightarrow> heap \<Rightarrow> addr \<Rightarrow> 64 word \<Rightarrow> (heap \<times> string list \<times> 64 word) result" where
  "get_mapping_labels_for_value is_signed h a v =
     (case fc_at h a of
        None \<Rightarrow> Inl (NullPointer, h)
      | Some f \<Rightarrow>
          if fc_type f \<noteq> (if is_signed then SIGNED_ENUMERATION else UNSIGNED_ENUMERATION)
          then Inl (WrongType, h)
          else
            (case collect_labels is_signed h (mappings f) v [] of
               None \<Rightarrow> Inl (NullPointer, set_fc h a (f\<lparr>label_buf := []\<rparr>))
             | Some buf \<Rightarrow>
                 Inr (set_fc h a (f\<lparr>label_buf := buf\<rparr>), buf, of_nat (length buf))))"

definition bt_field_class_unsigned_enumeration_get_mapping_labels_for_value ::
    "heap \<Rightarrow> addr \<Rightarrow> 64 word \<Rightarrow> (heap \<times> string list \<times> 64 word) result" where
  "bt_field_class_unsigned_enumeration_get_mapping_labels_for_value =
     get_mapping_labels_for_value False"

definition bt_field_class_signed_enumeration_get_mapping_labels_for_value ::
    "heap \<Rightarrow> addr \<Rightarrow> 64 word \<Rightarrow> (heap \<times> string list \<times> 64 word) result" where
  "bt_field_class_signed_enumeration_get_mapping_labels_for_value =
     get_mapping_labels_for_value True"

fun mappings_have_label :: "bt_field_class_enumeration_mapping list \<Rightarrow> string \<Rightarrow> bool" where
  "mappings_have_label [] l = False"
| "mappings_have_label (m # ms) l = (if label m = l then True else mappings_have_label ms l)"

definition enumeration_field_class_has_mapping_with_label ::
    "bt_field_class \<Rightarrow> string \<Rightarrow> bool" where
  "enumeration_field_class_has_mapping_with_label f l = mappings_have_label (mappings f) l"

definition add_mapping_to_enumeration_field_class ::
    "heap \<Rightarrow> addr \<Rightarrow> string \<Rightarrow> addr \<Rightarrow> heap result" where
  "add_mapping_to_enumeration_field_class h a l rs =
     (case fc_at h a of
        None \<Rightarrow> Inl (NullPointer, h)
      | Some f \<Rightarrow>
          if rs_at h rs = None then Inl (NullPointer, h)
          else if enumeration_field_class_has_mapping_with_label f l
            then Inl (DuplicateLabel, h)
          else Inr (set_fc h a (f\<lparr>mappings := mappings f @ [\<lparr>label = l, range_set = rs\<rparr>]\<rparr>)))"

definition bt_field_class_unsigned_enumeration_add_mapping ::
    "heap \<Rightarrow> addr \<Rightarrow> string \<Rightarrow> addr \<Rightarrow> heap result" where
  "bt_field_class_unsigned_enumeration_add_mapping h a l rs =
     (case fc_at h a of
        None \<Rightarrow> Inl (NullPointer, h)
      | Some f \<Rightarrow>
          if fc_type f \<noteq> UNSIGNED_ENUMERATION then Inl (WrongType, h)
          else add_mapping_to_enumeration_field_class h a l rs)"

definition bt_field_class_signed_enumeration_add_mapping ::
    "heap \<Rightarrow> addr \<Rightarrow> string \<Rightarrow> addr \<Rightarrow> heap result" where
  "bt_field_class_signed_enumeration_add_mapping h a l rs =
     (case fc_at h a of
        None \<Rightarrow> Inl (NullPointer, h)
      | Some f \<Rightarrow>
          if fc_type f \<noteq> SIGNED_ENUMERATION then Inl (WrongType, h)
          else add_mapping_to_enumeration_field_class h a l rs)"

section \<open>Real and string field classes\<close>

definition bt_field_class_real_create :: "heap \<Rightarrow> heap \<times> addr" where
  "bt_field_class_real_create h = alloc_fc h (init_field_class zeroed_field_class REAL)"

definition bt_field_class_real_set_is_single_precision ::
    "heap \<Rightarrow> addr \<Rightarrow> bool \<Rightarrow> heap result" where
  "bt_field_class_real_set_is_single_precision h a b =
     (case fc_at h a of
        None \<Rightarrow> Inl (NullPointer, h)
      | Some f \<Rightarrow>
          if fc_type f \<noteq> REAL then Inl (WrongType, h)
          else if frozen f then Inl (InvalidState, h)
          else Inr (set_fc h a (f\<lparr>is_single_precision := b\<rparr>)))"

definition bt_field_class_string_create :: "heap \<Rightarrow> heap \<times> addr" where
  "bt_field_class_string_create h = alloc_fc h (init_field_class zeroed_field_class STRING)"

section \<open>Freezing\<close>

text \<open>
  \<^verbatim>\<open>_bt_field_class_freeze\<close> and the loop over \<^verbatim>\<open>named_fcs\<close> in it, whose body is
  \<^verbatim>\<open>_bt_named_field_class_freeze\<close> on the entry at index \<open>i\<close>. The recursion follows
  pointers in the heap, so it takes fuel: each call and each loop iteration uses one
  unit, and \<open>OutOfFuel\<close> is the result of a run that did not finish within it.
\<close>

fun bt_field_class_freeze :: "nat \<Rightarrow> heap \<Rightarrow> addr \<Rightarrow> heap result"
  and freeze_named_fcs :: "nat \<Rightarrow> heap \<Rightarrow> addr \<Rightarrow> nat \<Rightarrow> heap result" where
  "bt_field_class_freeze 0 h a = Inl (OutOfFuel, h)"
| "bt_field_class_freeze (Suc n) h a =
     (case fc_at h a of
        None \<Rightarrow> Inl (NullPointer, h)
      | Some f \<Rightarrow>
          if fc_is_container (fc_type f)
          then freeze_named_fcs n (set_fc h a (f\<lparr>frozen := True\<rparr>)) a 0
          else Inr (set_fc h a (f\<lparr>frozen := True\<rparr>)))"
| "freeze_named_fcs 0 h a i = Inl (OutOfFuel, h)"
| "freeze_named_fcs (Suc n) h a i =
     (case fc_at h a of
        None \<Rightarrow> Inl (NullPointer, h)
      | Some f \<Rightarrow>
          if i < length (named_fcs f)
          then
            (case bt_field_class_freeze n
                    (set_fc h a
                       (f\<lparr>named_fcs := (named_fcs f)[i := (named_fcs f ! i)\<lparr>nfc_frozen := True\<rparr>]\<rparr>))
                    (fc (named_fcs f ! i)) of
               Inl e \<Rightarrow> Inl e
             | Inr h' \<Rightarrow> freeze_named_fcs n h' a (i + 1))
          else Inr h)"

text \<open>
  \<^verbatim>\<open>_bt_named_field_class_freeze\<close> on a named field class that is not in a container
  yet (the local object of \<^verbatim>\<open>init_named_field_class\<close>).
\<close>

definition bt_named_field_class_freeze ::
    "nat \<Rightarrow> heap \<Rightarrow> bt_named_field_class \<Rightarrow> (heap \<times> bt_named_field_class) result" where
  "bt_named_field_class_freeze n h nf =
     (case bt_field_class_freeze n h (fc nf) of
        Inl e \<Rightarrow> Inl e
      | Inr h' \<Rightarrow> Inr (h', nf\<lparr>nfc_frozen := True\<rparr>))"

section \<open>Named field class containers: structures and variants\<close>

definition init_named_field_classes_container ::
    "bt_field_class \<Rightarrow> bt_field_class_type \<Rightarrow> bt_field_class" where
  "init_named_field_classes_container f t =
     (init_field_class f t)\<lparr>named_fcs := [], name_to_index := []\<rparr>"

definition bt_field_class_structure_create :: "heap \<Rightarrow> heap \<times> addr" where
  "bt_field_class_structure_create h =
     alloc_fc h (init_named_field_classes_container zeroed_field_class STRUCTURE)"

definition init_named_field_class ::
    "nat \<Rightarrow> heap \<Rightarrow> string \<Rightarrow> addr \<Rightarrow> (heap \<times> bt_named_field_class) result" where
  "init_named_field_class n h nm a =
     (case fc_at h a of
        None \<Rightarrow> Inl (NullPointer, h)
      | Some f \<Rightarrow>
          bt_named_field_class_freeze n h
            \<lparr>name = nm, fc = a, nfc_frozen = False, opt_range_set = None\<rparr>)"

definition create_named_field_class ::
    "nat \<Rightarrow> heap \<Rightarrow> string \<Rightarrow> addr \<Rightarrow> (heap \<times> bt_named_field_class) result" where
  "create_named_field_class n h nm a = init_named_field_class n h nm a"

definition create_variant_with_selector_option ::
    "nat \<Rightarrow> heap \<Rightarrow> string \<Rightarrow> addr \<Rightarrow> addr \<Rightarrow> (heap \<times> bt_named_field_class) result" where
  "create_variant_with_selector_option n h nm a rs =
     (if rs_at h rs = None then Inl (NullPointer, h)
      else
        (case init_named_field_class n h nm a of
           Inl e \<Rightarrow> Inl e
         | Inr (h1, nf) \<Rightarrow>
             (case bt_integer_range_set_freeze h1 rs of
                Inl e \<Rightarrow> Inl e
              | Inr h2 \<Rightarrow> Inr (h2, nf\<lparr>opt_range_set := Some rs\<rparr>))))"

definition append_named_field_class_to_container_field_class ::
    "heap \<Rightarrow> addr \<Rightarrow> bt_named_field_class \<Rightarrow> heap result" where
  "append_named_field_class_to_container_field_class h c nf =
     (case fc_at h c of
        None \<Rightarrow> Inl (NullPointer, h)
      | Some f \<Rightarrow>
          if frozen f then Inl (InvalidState, h)
          else if map_of (name_to_index f) (name nf) \<noteq> None then Inl (DuplicateName, h)
          else Inr (set_fc h c
                 (f\<lparr>named_fcs := named_fcs f @ [nf],
                    name_to_index :=
                      (name nf, length (named_fcs f @ [nf]) - 1) # name_to_index f\<rparr>)))"

definition bt_field_class_structure_append_member ::
    "nat \<Rightarrow> heap \<Rightarrow> addr \<Rightarrow> string \<Rightarrow> addr \<Rightarrow> heap result" where
  "bt_field_class_structure_append_member n h c nm m =
     (case fc_at h c of
        None \<Rightarrow> Inl (NullPointer, h)
      | Some f \<Rightarrow>
          if fc_type f \<noteq> STRUCTURE then Inl (WrongType, h)
          else
            (case create_named_field_class n h nm m of
               Inl e \<Rightarrow> Inl e
             | Inr (h1, nf) \<Rightarrow> append_named_field_class_to_container_field_class h1 c nf))"

definition borrow_named_field_class_from_container_field_class_at_index ::
    "heap \<Rightarrow> addr \<Rightarrow> nat \<Rightarrow> bt_named_field_class result" where
  "borrow_named_field_class_from_container_field_class_at_index h c i =
     (case fc_at h c of
        None \<Rightarrow> Inl (NullPointer, h)
      | Some f \<Rightarrow>
          if \<not> i < length (named_fcs f) then Inl (IndexOutOfBounds, h)
          else Inr (named_fcs f ! i))"

text \<open>\<open>Inr None\<close> is the \<^verbatim>\<open>NULL\<close> returned for a name that is not in the hash table.\<close>

definition borrow_named_field_class_from_container_field_class_by_name ::
    "heap \<Rightarrow> addr \<Rightarrow> string \<Rightarrow> (bt_named_field_class option) result" where
  "borrow_named_field_class_from_container_field_class_by_name h c nm =
     (case fc_at h c of
        None \<Rightarrow> Inl (NullPointer, h)
      | Some f \<Rightarrow>
          (case map_of (name_to_index f) nm of
             None \<Rightarrow> Inr None
           | Some i \<Rightarrow>
               if i < length (named_fcs f) then Inr (Some (named_fcs f ! i))
               else Inl (IndexOutOfBounds, h)))"

definition bt_field_class_variant_create ::
    "nat \<Rightarrow> heap \<Rightarrow> addr option \<Rightarrow> (heap \<times> addr) result" where
  "bt_field_class_variant_create n h sel =
     (case sel of
        Some s \<Rightarrow>
          (case fc_at h s of
             None \<Rightarrow> Inl (NullPointer, h)
           | Some sf \<Rightarrow>
               if \<not> fc_is_int (fc_type sf) then Inl (WrongType, h)
               else
                 (case alloc_fc h
                    ((init_named_field_classes_container zeroed_field_class
                        (if fc_type sf = UNSIGNED_INTEGER \<or> fc_type sf = UNSIGNED_ENUMERATION
                         then VARIANT_WITH_UNSIGNED_SELECTOR
                         else VARIANT_WITH_SIGNED_SELECTOR))\<lparr>selector_fc := Some s\<rparr>) of
                    (h1, v) \<Rightarrow>
                      (case bt_field_class_freeze n h1 s of
                         Inl e \<Rightarrow> Inl e
                       | Inr h2 \<Rightarrow> Inr (h2, v))))
      | None \<Rightarrow>
          Inr (alloc_fc h
                 (init_named_field_classes_container zeroed_field_class
                    VARIANT_WITHOUT_SELECTOR)))"

definition bt_field_class_variant_without_selector_append_option ::
    "nat \<Rightarrow> heap \<Rightarrow> addr \<Rightarrow> string \<Rightarrow> addr \<Rightarrow> heap result" where
  "bt_field_class_variant_without_selector_append_option n h c nm opt =
     (case fc_at h c of
        None \<Rightarrow> Inl (NullPointer, h)
      | Some f \<Rightarrow>
          if fc_at h opt = None then Inl (NullPointer, h)
          else if fc_type f \<noteq> VARIANT_WITHOUT_SELECTOR then Inl (WrongType, h)
          else
            (case create_named_field_class n h nm opt of
               Inl e \<Rightarrow> Inl e
             | Inr (h1, nf) \<Rightarrow> append_named_field_class_to_container_field_class h1 c nf))"

text \<open>
  \<^verbatim>\<open>ranges_overlap\<close>: the two loops that copy every range of the existing options and
  then every range of the new set into a fresh range set, stopping at the first
  \<^verbatim>\<open>add_range\<close> that fails. The fresh set is released before the function returns, so
  it is a local value here.
\<close>

fun add_ranges ::
    "bool \<Rightarrow> bt_integer_range_set \<Rightarrow> bt_integer_range list \<Rightarrow> bt_error + bt_integer_range_set" where
  "add_ranges is_signed full [] = Inr full"
| "add_ranges is_signed full (r # rs) =
     (case add_range_to is_signed full (lower r) (upper r) of
        Inl e \<Rightarrow> Inl e
      | Inr full' \<Rightarrow> add_ranges is_signed full' rs)"

fun add_option_ranges ::
    "heap \<Rightarrow> bool \<Rightarrow> bt_integer_range_set \<Rightarrow> bt_named_field_class list \<Rightarrow>
     bt_error + bt_integer_range_set" where
  "add_option_ranges h is_signed full [] = Inr full"
| "add_option_ranges h is_signed full (opt # opts) =
     (case opt_range_set opt of
        None \<Rightarrow> Inl NullPointer
      | Some a \<Rightarrow>
          (case rs_at h a of
             None \<Rightarrow> Inl NullPointer
           | Some rs \<Rightarrow>
               (case add_ranges is_signed full (ranges rs) of
                  Inl e \<Rightarrow> Inl e
                | Inr full' \<Rightarrow> add_option_ranges h is_signed full' opts)))"

definition ranges_overlap ::
    "heap \<Rightarrow> bt_named_field_class list \<Rightarrow> bt_integer_range_set \<Rightarrow> bool \<Rightarrow> bt_error + bool" where
  "ranges_overlap h var_fc_opts rs is_signed =
     (case add_option_ranges h is_signed empty_range_set var_fc_opts of
        Inl e \<Rightarrow> Inl e
      | Inr full1 \<Rightarrow>
          (case add_ranges is_signed full1 (ranges rs) of
             Inl e \<Rightarrow> Inl e
           | Inr full2 \<Rightarrow> Inr (bt_integer_range_set_has_overlaps is_signed full2)))"

definition append_option_to_variant_with_selector_field_class ::
    "nat \<Rightarrow> heap \<Rightarrow> addr \<Rightarrow> string \<Rightarrow> addr \<Rightarrow> addr \<Rightarrow> bt_field_class_type \<Rightarrow> heap result" where
  "append_option_to_variant_with_selector_field_class n h c nm opt rs expected_type =
     (case fc_at h c of
        None \<Rightarrow> Inl (NullPointer, h)
      | Some f \<Rightarrow>
          if fc_at h opt = None then Inl (NullPointer, h)
          else
            (case rs_at h rs of
               None \<Rightarrow> Inl (NullPointer, h)
             | Some r \<Rightarrow>
                 if fc_type f \<noteq> expected_type then Inl (WrongType, h)
                 else if \<not> length (ranges r) > 0 then Inl (EmptyRangeSet, h)
                 else
                   (case ranges_overlap h (named_fcs f) r
                           (expected_type = VARIANT_WITH_SIGNED_SELECTOR) of
                      Inl e \<Rightarrow> Inl (e, h)
                    | Inr has_overlap \<Rightarrow>
                        if has_overlap then Inl (OverlappingRanges, h)
                        else
                          (case create_variant_with_selector_option n h nm opt rs of
                             Inl e \<Rightarrow> Inl e
                           | Inr (h1, nf) \<Rightarrow>
                               append_named_field_class_to_container_field_class h1 c nf))))"

definition bt_field_class_variant_with_unsigned_selector_append_option ::
    "nat \<Rightarrow> heap \<Rightarrow> addr \<Rightarrow> string \<Rightarrow> addr \<Rightarrow> addr \<Rightarrow> heap result" where
  "bt_field_class_variant_with_unsigned_selector_append_option n h c nm opt rs =
     append_option_to_variant_with_selector_field_class n h c nm opt rs
       VARIANT_WITH_UNSIGNED_SELECTOR"

definition bt_field_class_variant_with_signed_selector_append_option ::
    "nat \<Rightarrow> heap \<Rightarrow> addr \<Rightarrow> string \<Rightarrow> addr \<Rightarrow> addr \<Rightarrow> heap result" where
  "bt_field_class_variant_with_signed_selector_append_option n h c nm opt rs =
     append_option_to_variant_with_selector_field_class n h c nm opt rs
       VARIANT_WITH_SIGNED_SELECTOR"

section \<open>Array field classes\<close>

text \<open>
  \<^verbatim>\<open>init_array_field_class\<close> on the freshly allocated array object \<open>f\<close>: the object is
  put at the end of the heap with its element set, then the element is frozen.
\<close>

definition init_array_field_class ::
    "nat \<Rightarrow> heap \<Rightarrow> bt_field_class \<Rightarrow> bt_field_class_type \<Rightarrow> addr \<Rightarrow> (heap \<times> addr) result" where
  "init_array_field_class n h f t elem =
     (case fc_at h elem of
        None \<Rightarrow> Inl (NullPointer, h)
      | Some ef \<Rightarrow>
          (case alloc_fc h ((init_field_class f t)\<lparr>element_fc := Some elem\<rparr>) of
             (h1, arr) \<Rightarrow>
               (case bt_field_class_freeze n h1 elem of
                  Inl e \<Rightarrow> Inl e
                | Inr h2 \<Rightarrow> Inr (h2, arr))))"

definition bt_field_class_static_array_create ::
    "nat \<Rightarrow> heap \<Rightarrow> addr \<Rightarrow> 64 word \<Rightarrow> (heap \<times> addr) result" where
  "bt_field_class_static_array_create n h elem len =
     (case init_array_field_class n h zeroed_field_class STATIC_ARRAY elem of
        Inl e \<Rightarrow> Inl e
      | Inr (h1, arr) \<Rightarrow>
          (case fc_at h1 arr of
             None \<Rightarrow> Inl (NullPointer, h1)
           | Some af \<Rightarrow> Inr (set_fc h1 arr (af\<lparr>array_length := len\<rparr>), arr)))"

definition bt_field_class_dynamic_array_create ::
    "nat \<Rightarrow> heap \<Rightarrow> addr \<Rightarrow> addr option \<Rightarrow> (heap \<times> addr) result" where
  "bt_field_class_dynamic_array_create n h elem len_fc =
     (case init_array_field_class n h zeroed_field_class DYNAMIC_ARRAY elem of
        Inl e \<Rightarrow> Inl e
      | Inr (h1, arr) \<Rightarrow>
          (case len_fc of
             None \<Rightarrow> Inr (h1, arr)
           | Some l \<Rightarrow>
               (case fc_at h1 l of
                  None \<Rightarrow> Inl (NullPointer, h1)
                | Some lf \<Rightarrow>
                    if \<not> fc_is_unsigned_int (fc_type lf) then Inl (WrongType, h1)
                    else
                      (case fc_at h1 arr of
                         None \<Rightarrow> Inl (NullPointer, h1)
                       | Some af \<Rightarrow>
                           (case bt_field_class_freeze n
                                   (set_fc h1 arr (af\<lparr>length_fc := Some l\<rparr>)) l of
                              Inl e \<Rightarrow> Inl e
                            | Inr h2 \<Rightarrow> Inr (h2, arr))))))"

section \<open>Attaching to a trace class\<close>

text \<open>
  \<^verbatim>\<open>bt_field_class_make_part_of_trace_class\<close> and its loop over \<^verbatim>\<open>named_fcs\<close>, with
  fuel as for freezing.
\<close>

fun bt_field_class_make_part_of_trace_class :: "nat \<Rightarrow> heap \<Rightarrow> addr \<Rightarrow> heap result"
  and make_part_named_fcs :: "nat \<Rightarrow> heap \<Rightarrow> addr \<Rightarrow> nat \<Rightarrow> heap result" where
  "bt_field_class_make_part_of_trace_class 0 h a = Inl (OutOfFuel, h)"
| "bt_field_class_make_part_of_trace_class (Suc n) h a =
     (case fc_at h a of
        None \<Rightarrow> Inl (NullPointer, h)
      | Some f \<Rightarrow>
          if part_of_trace_class f then Inl (InvalidState, h)
          else if fc_is_container (fc_type f)
            then make_part_named_fcs n (set_fc h a (f\<lparr>part_of_trace_class := True\<rparr>)) a 0
          else if fc_is_array (fc_type f)
            then
              (case element_fc f of
                 None \<Rightarrow> Inl (NullPointer, set_fc h a (f\<lparr>part_of_trace_class := True\<rparr>))
               | Some e \<Rightarrow>
                   bt_field_class_make_part_of_trace_class n
                     (set_fc h a (f\<lparr>part_of_trace_class := True\<rparr>)) e)
          else Inr (set_fc h a (f\<lparr>part_of_trace_class := True\<rparr>)))"
| "make_part_named_fcs 0 h a i = Inl (OutOfFuel, h)"
| "make_part_named_fcs (Suc n) h a i =
     (case fc_at h a of
        None \<Rightarrow> Inl (NullPointer, h)
      | Some f \<Rightarrow>
          if i < length (named_fcs f)
          then
            (case bt_field_class_make_part_of_trace_class n h (fc (named_fcs f ! i)) of
               Inl e \<Rightarrow> Inl e
             | Inr h' \<Rightarrow> make_part_named_fcs n h' a (i + 1))
          else Inr h)"

section \<open>Notions used in the statements\<close>

text \<open>The ranges behind the range set pointer of an enumeration mapping.\<close>

definition mapping_ranges ::
    "heap \<Rightarrow> bt_field_class_enumeration_mapping \<Rightarrow> bt_integer_range list" where
  "mapping_ranges h m = (case rs_at h (range_set m) of None \<Rightarrow> [] | Some rs \<Rightarrow> ranges rs)"

definition container_names_indexed :: "bt_field_class \<Rightarrow> bool" where
  "container_names_indexed f =
     (list_all (\<lambda>i. map_of (name_to_index f) (name (named_fcs f ! i)) = Some i)
        [0..<length (named_fcs f)] \<and>
      list_all (\<lambda>(nm, i). i < length (named_fcs f) \<and> name (named_fcs f ! i) = nm)
        (name_to_index f))"

definition option_ranges :: "heap \<Rightarrow> bt_named_field_class list \<Rightarrow> bt_integer_range list" where
  "option_ranges h opts =
     concat (map (\<lambda>opt. case opt_range_set opt of
                           None \<Rightarrow> []
                         | Some a \<Rightarrow> (case rs_at h a of None \<Rightarrow> [] | Some rs \<Rightarrow> ranges rs)) opts)"

definition range_holds :: "bool \<Rightarrow> bt_integer_range \<Rightarrow> 64 word \<Rightarrow> bool" where
  "range_holds is_signed r v =
     (if is_signed then sint (lower r) \<le> sint v \<and> sint v \<le> sint (upper r)
      else lower r \<le> v \<and> v \<le> upper r)"

fun option_list :: "'a option \<Rightarrow> 'a list" where
  "option_list None = []"
| "option_list (Some x) = [x]"

definition child_fcs :: "bt_field_class \<Rightarrow> addr list" where
  "child_fcs f =
     (if fc_is_container (fc_type f) then map fc (named_fcs f)
      else if fc_is_array (fc_type f) then option_list (element_fc f)
      else [])"

definition child_edges :: "heap \<Rightarrow> (addr \<times> addr) set" where
  "child_edges h = {(p, c). p < length (fcs h) \<and> c \<in> set (child_fcs (fcs h ! p))}"

definition children_frozen :: "heap \<Rightarrow> bool" where
  "children_frozen h =
     list_all (\<lambda>f. list_all (\<lambda>c. c < length (fcs h) \<and> frozen (fcs h ! c)) (child_fcs f)) (fcs h)"

definition marks_only :: "heap \<Rightarrow> heap \<Rightarrow> bool" where
  "marks_only h h' =
     (length (fcs h') = length (fcs h) \<and> range_sets h' = range_sets h \<and>
      (\<forall>b<length (fcs h).
         fcs h' ! b = (fcs h ! b)\<lparr>part_of_trace_class := part_of_trace_class (fcs h' ! b)\<rparr> \<and>
         (part_of_trace_class (fcs h ! b) \<longrightarrow> part_of_trace_class (fcs h' ! b))))"

definition fc_freezes_only :: "bt_field_class \<Rightarrow> bt_field_class \<Rightarrow> bool" where
  "fc_freezes_only f f' =
     (f' = f\<lparr>frozen := frozen f', named_fcs := named_fcs f'\<rparr> \<and>
      (frozen f \<longrightarrow> frozen f') \<and>
      length (named_fcs f') = length (named_fcs f) \<and>
      (\<forall>i<length (named_fcs f).
         named_fcs f' ! i = (named_fcs f ! i)\<lparr>nfc_frozen := nfc_frozen (named_fcs f' ! i)\<rparr> \<and>
         (nfc_frozen (named_fcs f ! i) \<longrightarrow> nfc_frozen (named_fcs f' ! i))))"

definition freezes_only :: "heap \<Rightarrow> heap \<Rightarrow> bool" where
  "freezes_only h h' =
     (length (fcs h') = length (fcs h) \<and> range_sets h' = range_sets h \<and>
      (\<forall>b<length (fcs h). fc_freezes_only (fcs h ! b) (fcs h' ! b)))"

subsection \<open>Well-formed heaps and the steps of the interface\<close>

text \<open>
  What every field class built through the functions above satisfies: a field value range
  of at most 64, a name table that indexes the named field classes, and mappings whose
  range sets exist.
\<close>

definition fc_wf :: "nat \<Rightarrow> bt_field_class \<Rightarrow> bool" where
  "fc_wf R f =
     (int_range f \<le> 64 \<and> container_names_indexed f \<and>
      list_all (\<lambda>m. range_set m < R) (mappings f))"

text \<open>
  A heap is well formed when every child is frozen, no field class reaches itself through
  its children, and every field class is well formed.
\<close>

definition heap_wf :: "heap \<Rightarrow> bool" where
  "heap_wf h =
     (children_frozen h \<and> acyclic (child_edges h) \<and>
      list_all (fc_wf (length (range_sets h))) (fcs h))"

text \<open>
  One step of the interface: any function of the model that returns without an error,
  with any arguments and any fuel.
\<close>

inductive api_step :: "heap \<Rightarrow> heap \<Rightarrow> bool" where
  unsigned_integer_create:
    "bt_field_class_unsigned_integer_create h = (h', a) \<Longrightarrow> api_step h h'"
| signed_integer_create:
    "bt_field_class_signed_integer_create h = (h', a) \<Longrightarrow> api_step h h'"
| integer_set_field_value_range:
    "bt_field_class_integer_set_field_value_range h a sz = Inr h' \<Longrightarrow> api_step h h'"
| integer_set_preferred_display_base:
    "bt_field_class_integer_set_preferred_display_base h a b = Inr h' \<Longrightarrow> api_step h h'"
| unsigned_enumeration_create:
    "bt_field_class_unsigned_enumeration_create h = (h', a) \<Longrightarrow> api_step h h'"
| signed_enumeration_create:
    "bt_field_class_signed_enumeration_create h = (h', a) \<Longrightarrow> api_step h h'"
| unsigned_enumeration_add_mapping:
    "bt_field_class_unsigned_enumeration_add_mapping h a l rs = Inr h' \<Longrightarrow> api_step h h'"
| signed_enumeration_add_mapping:
    "bt_field_class_signed_enumeration_add_mapping h a l rs = Inr h' \<Longrightarrow> api_step h h'"
| unsigned_enumeration_get_mapping_labels_for_value:
    "bt_field_class_unsigned_enumeration_get_mapping_labels_for_value h a v = Inr (h', ls, k)
     \<Longrightarrow> api_step h h'"
| signed_enumeration_get_mapping_labels_for_value:
    "bt_field_class_signed_enumeration_get_mapping_labels_for_value h a v = Inr (h', ls, k)
     \<Longrightarrow> api_step h h'"
| real_create:
    "bt_field_class_real_create h = (h', a) \<Longrightarrow> api_step h h'"
| real_set_is_single_precision:
    "bt_field_class_real_set_is_single_precision h a b = Inr h' \<Longrightarrow> api_step h h'"
| string_create:
    "bt_field_class_string_create h = (h', a) \<Longrightarrow> api_step h h'"
| structure_create:
    "bt_field_class_structure_create h = (h', a) \<Longrightarrow> api_step h h'"
| structure_append_member:
    "bt_field_class_structure_append_member n h c nm m = Inr h' \<Longrightarrow> api_step h h'"
| variant_create:
    "bt_field_class_variant_create n h sel = Inr (h', a) \<Longrightarrow> api_step h h'"
| variant_without_selector_append_option:
    "bt_field_class_variant_without_selector_append_option n h c nm m = Inr h'
     \<Longrightarrow> api_step h h'"
| variant_with_unsigned_selector_append_option:
    "bt_field_class_variant_with_unsigned_selector_append_option n h c nm m rs = Inr h'
     \<Longrightarrow> api_step h h'"
| variant_with_signed_selector_append_option:
    "bt_field_class_variant_with_signed_selector_append_option n h c nm m rs = Inr h'
     \<Longrightarrow> api_step h h'"
| static_array_create:
    "bt_field_class_static_array_create n h e len = Inr (h', a) \<Longrightarrow> api_step h h'"
| dynamic_array_create:
    "bt_field_class_dynamic_array_create n h e len_fc = Inr (h', a) \<Longrightarrow> api_step h h'"
| field_class_freeze:
    "bt_field_class_freeze n h a = Inr h' \<Longrightarrow> api_step h h'"
| make_part_of_trace_class:
    "bt_field_class_make_part_of_trace_class n h a = Inr h' \<Longrightarrow> api_step h h'"
| integer_range_set_create:
    "bt_integer_range_set_create h = (h', a) \<Longrightarrow> api_step h h'"
| integer_range_set_add_range:
    "bt_integer_range_set_add_range is_signed h a lo hi = Inr h' \<Longrightarrow> api_step h h'"
| integer_range_set_freeze:
    "bt_integer_range_set_freeze h a = Inr h' \<Longrightarrow> api_step h h'"

text \<open>
  \<^term>\<open>freeze_fuel_for h a n\<close>: in every heap that differs from \<^term>\<open>h\<close> by frozen flags
  only, freezing \<^term>\<open>a\<close> returns with any fuel of at least \<^term>\<open>n\<close>; likewise for the loop
  from index \<^term>\<open>i\<close>, and for attaching to a trace class, where the heap may differ by
  \<^verbatim>\<open>part_of_trace_class\<close> flags and the run may stop on an error other than missing fuel.
\<close>

definition freeze_fuel_for :: "heap \<Rightarrow> addr \<Rightarrow> nat \<Rightarrow> bool" where
  "freeze_fuel_for h a n =
     (\<forall>g. freezes_only h g \<longrightarrow> (\<forall>m\<ge>n. \<exists>g'. bt_field_class_freeze m g a = Inr g'))"

definition freeze_named_fuel_for :: "heap \<Rightarrow> addr \<Rightarrow> nat \<Rightarrow> nat \<Rightarrow> bool" where
  "freeze_named_fuel_for h a i n =
     (\<forall>g. freezes_only h g \<longrightarrow> (\<forall>m\<ge>n. \<exists>g'. freeze_named_fcs m g a i = Inr g'))"



section \<open>Example heaps\<close>

text \<open>
  An unsigned enumeration (field class 0) that became the selector of a variant (field
  class 1), and a range set with the range \<open>[0, 1]\<close>.
\<close>

definition frozen_enum_example :: heap where
  "frozen_enum_example =
     \<lparr>fcs = [(init_integer_field_class zeroed_field_class UNSIGNED_ENUMERATION)\<lparr>frozen := True\<rparr>,
             (init_named_field_classes_container zeroed_field_class
                VARIANT_WITH_UNSIGNED_SELECTOR)\<lparr>selector_fc := Some 0\<rparr>],
      range_sets = [\<lparr>ranges = [\<lparr>lower = 0, upper = 1\<rparr>], rs_frozen = False\<rparr>]\<rparr>"

text \<open>A fresh unsigned integer field class.\<close>

definition int_example :: heap where
  "int_example = \<lparr>fcs = [init_integer_field_class zeroed_field_class UNSIGNED_INTEGER],
     range_sets = []\<rparr>"

text \<open>
  An unsigned enumeration with the mappings \<open>a\<close> on \<open>[0, 10]\<close> and \<open>b\<close> on
  \<open>[5, 15]\<close>, and the same with the type tag of a signed enumeration.
\<close>

definition enum_example_of :: "bt_field_class_type \<Rightarrow> heap" where
  "enum_example_of t =
     \<lparr>fcs = [(init_integer_field_class zeroed_field_class t)
               \<lparr>mappings := [\<lparr>label = ''a'', range_set = 0\<rparr>, \<lparr>label = ''b'', range_set = 1\<rparr>]\<rparr>],
      range_sets = [\<lparr>ranges = [\<lparr>lower = 0, upper = 10\<rparr>], rs_frozen = False\<rparr>,
                    \<lparr>ranges = [\<lparr>lower = 5, upper = 15\<rparr>], rs_frozen = False\<rparr>]\<rparr>"

definition enum_example :: heap where
  "enum_example = enum_example_of UNSIGNED_ENUMERATION"

definition struct_example :: heap where
  "struct_example =
     \<lparr>fcs = [(init_named_field_classes_container zeroed_field_class STRUCTURE)
               \<lparr>named_fcs := [\<lparr>name = ''a'', fc = 1, nfc_frozen = True, opt_range_set = None\<rparr>],
                name_to_index := [(''a'', 0)]\<rparr>,
             (init_integer_field_class zeroed_field_class UNSIGNED_INTEGER)\<lparr>frozen := True\<rparr>],
      range_sets = []\<rparr>"

definition frozen_struct_example :: heap where
  "frozen_struct_example =
     \<lparr>fcs = [(init_named_field_classes_container zeroed_field_class STRUCTURE)
               \<lparr>frozen := True,
                named_fcs := [\<lparr>name = ''a'', fc = 1, nfc_frozen = True, opt_range_set = None\<rparr>],
                name_to_index := [(''a'', 0)]\<rparr>,
             (init_integer_field_class zeroed_field_class UNSIGNED_INTEGER)\<lparr>frozen := True\<rparr>,
             (init_named_field_classes_container zeroed_field_class STRUCTURE)
               \<lparr>named_fcs := [\<lparr>name = ''s'', fc = 0, nfc_frozen = True, opt_range_set = None\<rparr>],
                name_to_index := [(''s'', 0)]\<rparr>],
      range_sets = []\<rparr>"

definition variant_example :: heap where
  "variant_example =
     \<lparr>fcs = [(init_integer_field_class zeroed_field_class UNSIGNED_INTEGER)\<lparr>frozen := True\<rparr>,
             (init_named_field_classes_container zeroed_field_class VARIANT_WITH_UNSIGNED_SELECTOR)
               \<lparr>named_fcs := [\<lparr>name = ''A'', fc = 2, nfc_frozen = True, opt_range_set = Some 0\<rparr>],
                name_to_index := [(''A'', 0)], selector_fc := Some 0\<rparr>,
             (init_integer_field_class zeroed_field_class UNSIGNED_INTEGER)\<lparr>frozen := True\<rparr>],
      range_sets = [\<lparr>ranges = [\<lparr>lower = 0, upper = 10\<rparr>], rs_frozen = True\<rparr>,
                    \<lparr>ranges = [\<lparr>lower = 10, upper = 20\<rparr>], rs_frozen = False\<rparr>,
                    \<lparr>ranges = [\<lparr>lower = 11, upper = 20\<rparr>], rs_frozen = False\<rparr>]\<rparr>"

definition selector_option_example :: heap where
  "selector_option_example =
     \<lparr>fcs = [(init_integer_field_class zeroed_field_class UNSIGNED_INTEGER)\<lparr>frozen := True\<rparr>,
             (init_named_field_classes_container zeroed_field_class VARIANT_WITH_UNSIGNED_SELECTOR)
               \<lparr>named_fcs := [\<lparr>name = ''x'', fc = 0, nfc_frozen = True, opt_range_set = Some 0\<rparr>],
                name_to_index := [(''x'', 0)], selector_fc := Some 0\<rparr>],
      range_sets = [\<lparr>ranges = [\<lparr>lower = 0, upper = 0\<rparr>], rs_frozen = True\<rparr>]\<rparr>"

definition tagged_struct_example :: heap where
  "tagged_struct_example =
     \<lparr>fcs = [(init_integer_field_class zeroed_field_class UNSIGNED_INTEGER)\<lparr>frozen := True\<rparr>,
             (init_named_field_classes_container zeroed_field_class VARIANT_WITH_UNSIGNED_SELECTOR)
               \<lparr>frozen := True, selector_fc := Some 0\<rparr>,
             (init_named_field_classes_container zeroed_field_class STRUCTURE)
               \<lparr>named_fcs := [\<lparr>name = ''tag'', fc = 0, nfc_frozen = True, opt_range_set = None\<rparr>,
                              \<lparr>name = ''v'', fc = 1, nfc_frozen = True, opt_range_set = None\<rparr>],
                name_to_index := [(''v'', 1), (''tag'', 0)]\<rparr>],
      range_sets = []\<rparr>"

definition dynamic_array_example :: heap where
  "dynamic_array_example =
     \<lparr>fcs = [(init_integer_field_class zeroed_field_class UNSIGNED_INTEGER)\<lparr>frozen := True\<rparr>,
             (init_integer_field_class zeroed_field_class SIGNED_INTEGER)\<lparr>frozen := True\<rparr>,
             (init_field_class zeroed_field_class DYNAMIC_ARRAY)
               \<lparr>element_fc := Some 1, length_fc := Some 0\<rparr>],
      range_sets = []\<rparr>"

definition two_int_example :: heap where
  "two_int_example =
     \<lparr>fcs = [init_integer_field_class zeroed_field_class UNSIGNED_INTEGER,
             init_integer_field_class zeroed_field_class SIGNED_INTEGER],
      range_sets = []\<rparr>"


section \<open>Evaluation of the examples\<close>

lemmas heap_defs = fc_at_def rs_at_def set_fc_def set_rs_def alloc_fc_def empty_heap_def
  zeroed_field_class_def init_field_class_def init_integer_field_class_def
  init_named_field_classes_container_def fc_is_int_def fc_is_unsigned_int_def
  fc_is_container_def fc_is_array_def empty_range_set_def range_le_def

lemma frozen_enum_example_built:
  "(case bt_field_class_unsigned_enumeration_create empty_heap of
      (h1, e) \<Rightarrow>
        (case bt_integer_range_set_create h1 of
           (h2, r) \<Rightarrow>
             (case bt_integer_range_set_add_range False h2 r 0 1 of
                Inl x \<Rightarrow> Inl x
              | Inr h3 \<Rightarrow> bt_field_class_variant_create 1 h3 (Some e))))
   = Inr (frozen_enum_example, 1)"
  by (simp add: frozen_enum_example_def bt_field_class_unsigned_enumeration_create_def
      create_enumeration_field_class_def bt_integer_range_set_create_def
      bt_integer_range_set_add_range_def add_range_to_def bt_field_class_variant_create_def
      heap_defs)

lemma int_example_built: "bt_field_class_unsigned_integer_create empty_heap = (int_example, 0)"
  by (simp add: int_example_def bt_field_class_unsigned_integer_create_def
      create_integer_field_class_def heap_defs)

lemma enum_example_built:
  "(case bt_integer_range_set_create empty_heap of
      (h1, ra) \<Rightarrow>
        (case bt_integer_range_set_add_range False h1 ra 0 10 of
           Inl x \<Rightarrow> Inl x
         | Inr h2 \<Rightarrow>
             (case bt_integer_range_set_create h2 of
                (h3, rb) \<Rightarrow>
                  (case bt_integer_range_set_add_range False h3 rb 5 15 of
                     Inl x \<Rightarrow> Inl x
                   | Inr h4 \<Rightarrow>
                       (case bt_field_class_unsigned_enumeration_create h4 of
                          (h5, e) \<Rightarrow>
                            (case bt_field_class_unsigned_enumeration_add_mapping h5 e ''a'' ra of
                               Inl x \<Rightarrow> Inl x
                             | Inr h6 \<Rightarrow>
                                 bt_field_class_unsigned_enumeration_add_mapping h6 e ''b'' rb))))))
   = Inr enum_example"
  by (simp add: enum_example_def enum_example_of_def
      bt_field_class_unsigned_enumeration_create_def
      create_enumeration_field_class_def bt_integer_range_set_create_def
      bt_integer_range_set_add_range_def add_range_to_def
      bt_field_class_unsigned_enumeration_add_mapping_def
      add_mapping_to_enumeration_field_class_def
      enumeration_field_class_has_mapping_with_label_def heap_defs)

section \<open>Mutation of a frozen field class\<close>

lemma set_field_value_range_frozen:
  "fc_at h a = Some f \<Longrightarrow> frozen f \<Longrightarrow>
   \<exists>e. bt_field_class_integer_set_field_value_range h a sz = Inl (e, h)"
  by (simp add: bt_field_class_integer_set_field_value_range_def)

lemma set_preferred_display_base_frozen:
  "fc_at h a = Some f \<Longrightarrow> frozen f \<Longrightarrow>
   \<exists>e. bt_field_class_integer_set_preferred_display_base h a b = Inl (e, h)"
  by (simp add: bt_field_class_integer_set_preferred_display_base_def)

lemma append_frozen:
  "fc_at h c = Some f \<Longrightarrow> frozen f \<Longrightarrow>
   append_named_field_class_to_container_field_class h c nf = Inl (InvalidState, h)"
  by (simp add: append_named_field_class_to_container_field_class_def)

text \<open>
  C1 (the part the code does not meet): adding a mapping to a frozen enumeration should
  fail. \<^verbatim>\<open>add_mapping_to_enumeration_field_class\<close> and its two callers have no hot
  check, so on the enumeration of \<open>frozen_enum_example\<close>, frozen since it became a
  selector, the mapping is added. The three lemmas above show that the other setters and
  the append do fail on a frozen field class.
\<close>

theorem add_mapping_on_frozen_enumeration:
  "frozen (fcs frozen_enum_example ! 0) \<and>
   bt_field_class_unsigned_enumeration_add_mapping frozen_enum_example 0 ''a'' 0 =
     Inr (set_fc frozen_enum_example 0
       ((fcs frozen_enum_example ! 0)\<lparr>mappings := [\<lparr>label = ''a'', range_set = 0\<rparr>]\<rparr>))"
  by (simp add: frozen_enum_example_def bt_field_class_unsigned_enumeration_add_mapping_def
      add_mapping_to_enumeration_field_class_def
      enumeration_field_class_has_mapping_with_label_def heap_defs)

section \<open>Field value range of integer field classes\<close>

text \<open>
  C8 as stated fails at \<open>bits = 0\<close>: the only bound checked is \<open>size \<le> 64\<close>, so
  the call succeeds and the range of the field class becomes 0.
\<close>

theorem set_field_value_range_zero_accepted:
  "bt_field_class_integer_set_field_value_range int_example 0 0 =
     Inr (set_fc int_example 0 ((fcs int_example ! 0)\<lparr>int_range := 0\<rparr>)) \<and>
   bt_field_class_integer_get_field_value_range
     (set_fc int_example 0 ((fcs int_example ! 0)\<lparr>int_range := 0\<rparr>)) 0 = Inr 0"
  by (simp add: int_example_def bt_field_class_integer_set_field_value_range_def
      bt_field_class_integer_get_field_value_range_def
      size_is_valid_for_enumeration_field_class_def heap_defs)

text \<open>
  C8, amended: the field value range is at most 64. Integer and enumeration field
  classes are created with the range 64; \<^verbatim>\<open>set_field_value_range\<close> fails and leaves
  the heap as it is for every size above 64; a call that succeeds stores a size of at
  most 64, so it keeps every range in the heap at most 64.
\<close>

theorem field_value_range_at_most_64:
  "int_range (fcs (fst (create_integer_field_class h t)) ! snd (create_integer_field_class h t)) = 64 \<and>
   int_range (fcs (fst (create_enumeration_field_class h t)) ! snd (create_enumeration_field_class h t)) = 64 \<and>
   (64 < sz \<longrightarrow> (\<exists>e. bt_field_class_integer_set_field_value_range h a sz = Inl (e, h))) \<and>
   (bt_field_class_integer_set_field_value_range h a sz = Inr h' \<longrightarrow>
      sz \<le> 64 \<and> fc_at h' a = Some ((fcs h ! a)\<lparr>int_range := sz\<rparr>) \<and>
      ((\<forall>f\<in>set (fcs h). int_range f \<le> 64) \<longrightarrow> (\<forall>f\<in>set (fcs h'). int_range f \<le> 64)))"
proof -
  have a: "int_range (fcs (fst (create_integer_field_class h t)) ! snd (create_integer_field_class h t)) = 64"
    by (simp add: create_integer_field_class_def heap_defs)
  have b: "int_range (fcs (fst (create_enumeration_field_class h t)) ! snd (create_enumeration_field_class h t)) = 64"
    by (simp add: create_enumeration_field_class_def heap_defs)
  have c: "64 < sz \<longrightarrow> (\<exists>e. bt_field_class_integer_set_field_value_range h a sz = Inl (e, h))"
    by (auto simp: bt_field_class_integer_set_field_value_range_def split: option.splits)
  have d: "bt_field_class_integer_set_field_value_range h a sz = Inr h' \<longrightarrow>
      sz \<le> 64 \<and> fc_at h' a = Some ((fcs h ! a)\<lparr>int_range := sz\<rparr>) \<and>
      ((\<forall>f\<in>set (fcs h). int_range f \<le> 64) \<longrightarrow> (\<forall>f\<in>set (fcs h'). int_range f \<le> 64))"
  proof
    assume ok: "bt_field_class_integer_set_field_value_range h a sz = Inr h'"
    then obtain f where f: "fc_at h a = Some f" and sz: "sz \<le> 64"
      and h': "h' = set_fc h a (f\<lparr>int_range := sz\<rparr>)"
      by (auto simp: bt_field_class_integer_set_field_value_range_def
          split: option.splits if_splits)
    from f have al: "a < length (fcs h)" and fa: "f = fcs h ! a"
      by (auto simp: fc_at_def split: if_splits)
    have "\<forall>g\<in>set (fcs h'). int_range g \<le> 64" if inv: "\<forall>g\<in>set (fcs h). int_range g \<le> 64"
    proof
      fix g assume "g \<in> set (fcs h')"
      then have "g \<in> insert (f\<lparr>int_range := sz\<rparr>) (set (fcs h))"
        using set_update_subset_insert[of "fcs h" a] by (auto simp: h' set_fc_def)
      with inv sz show "int_range g \<le> 64" by auto
    qed
    with sz al fa show "sz \<le> 64 \<and> fc_at h' a = Some ((fcs h ! a)\<lparr>int_range := sz\<rparr>) \<and>
      ((\<forall>f\<in>set (fcs h). int_range f \<le> 64) \<longrightarrow> (\<forall>f\<in>set (fcs h'). int_range f \<le> 64))"
      by (simp add: h' fc_at_def set_fc_def)
  qed
  from a b c d show ?thesis by blast
qed

theorem field_value_range_at_most_64_witness:
  "bt_field_class_integer_set_field_value_range int_example 0 65 =
     Inl (InvalidArgument, int_example) \<and>
   bt_field_class_integer_set_field_value_range int_example 0 8 =
     Inr (set_fc int_example 0 ((fcs int_example ! 0)\<lparr>int_range := 8\<rparr>)) \<and>
   list_all (\<lambda>f. int_range f \<le> 64)
     (fcs (set_fc int_example 0 ((fcs int_example ! 0)\<lparr>int_range := 8\<rparr>)))"
  using field_value_range_at_most_64 [of int_example UNSIGNED_INTEGER 65 0]
    field_value_range_at_most_64 [of int_example UNSIGNED_INTEGER 8 0
      "set_fc int_example 0 ((fcs int_example ! 0)\<lparr>int_range := 8\<rparr>)"]
  by (simp add: int_example_def bt_field_class_integer_set_field_value_range_def
      size_is_valid_for_enumeration_field_class_def heap_defs)

section \<open>Enumeration mappings\<close>

lemma ranges_contain_iff:
  "ranges_contain is_signed rs v =
     (\<exists>r\<in>set rs. range_le is_signed (lower r) v \<and> range_le is_signed v (upper r))"
  by (induction rs) auto

lemma collect_labels_filter:
  "\<forall>m\<in>set ms. rs_at h (range_set m) \<noteq> None \<Longrightarrow>
   collect_labels is_signed h ms v buf =
     Some (buf @ map label (filter (\<lambda>m. \<exists>r\<in>set (mapping_ranges h m).
        range_le is_signed (lower r) v \<and> range_le is_signed v (upper r)) ms))"
proof (induction ms arbitrary: buf)
  case Nil
  then show ?case by simp
next
  case (Cons m ms)
  then obtain rs where rs: "rs_at h (range_set m) = Some rs" by auto
  from Cons.prems have tl: "\<forall>m\<in>set ms. rs_at h (range_set m) \<noteq> None" by simp
  from rs have mr: "mapping_ranges h m = ranges rs" by (simp add: mapping_ranges_def)
  from Cons.IH[OF tl] rs mr show ?case
    by (auto simp: ranges_contain_iff)
qed

text \<open>
  C6: on an enumeration whose mappings point to live range sets,
  \<^verbatim>\<open>get_mapping_labels_for_value\<close> succeeds and returns the labels of exactly the
  mappings one of whose ranges holds the value (bounds included), in the order of the
  mappings, with their number as count; the list is empty when no mapping matches. The
  unsigned function compares unsigned, the signed one signed. The call also leaves the
  returned labels in the enumeration's \<^verbatim>\<open>label_buf\<close>.
\<close>

theorem get_mapping_labels_for_value_spec:
  assumes "fc_at h a = Some f"
    and "\<forall>m\<in>set (mappings f). rs_at h (range_set m) \<noteq> None"
  shows "(fc_type f = UNSIGNED_ENUMERATION \<longrightarrow>
           bt_field_class_unsigned_enumeration_get_mapping_labels_for_value h a v =
             Inr (set_fc h a (f\<lparr>label_buf :=
                    map label (filter (\<lambda>m. \<exists>r\<in>set (mapping_ranges h m).
                      lower r \<le> v \<and> v \<le> upper r) (mappings f))\<rparr>),
                  map label (filter (\<lambda>m. \<exists>r\<in>set (mapping_ranges h m).
                      lower r \<le> v \<and> v \<le> upper r) (mappings f)),
                  of_nat (length (filter (\<lambda>m. \<exists>r\<in>set (mapping_ranges h m).
                      lower r \<le> v \<and> v \<le> upper r) (mappings f))))) \<and>
         (fc_type f = SIGNED_ENUMERATION \<longrightarrow>
           bt_field_class_signed_enumeration_get_mapping_labels_for_value h a v =
             Inr (set_fc h a (f\<lparr>label_buf :=
                    map label (filter (\<lambda>m. \<exists>r\<in>set (mapping_ranges h m).
                      sint (lower r) \<le> sint v \<and> sint v \<le> sint (upper r)) (mappings f))\<rparr>),
                  map label (filter (\<lambda>m. \<exists>r\<in>set (mapping_ranges h m).
                      sint (lower r) \<le> sint v \<and> sint v \<le> sint (upper r)) (mappings f)),
                  of_nat (length (filter (\<lambda>m. \<exists>r\<in>set (mapping_ranges h m).
                      sint (lower r) \<le> sint v \<and> sint v \<le> sint (upper r)) (mappings f)))))"
  using assms collect_labels_filter[OF assms(2), of False v "[]"]
    collect_labels_filter[OF assms(2), of True v "[]"]
  by (simp add: bt_field_class_unsigned_enumeration_get_mapping_labels_for_value_def
      bt_field_class_signed_enumeration_get_mapping_labels_for_value_def
      get_mapping_labels_for_value_def range_le_def)

theorem get_mapping_labels_for_value_spec_witness:
  "bt_field_class_unsigned_enumeration_get_mapping_labels_for_value enum_example 0 7 =
     Inr (set_fc enum_example 0 ((fcs enum_example ! 0)\<lparr>label_buf := [''a'', ''b'']\<rparr>),
          [''a'', ''b''], 2) \<and>
   bt_field_class_unsigned_enumeration_get_mapping_labels_for_value enum_example 0 20 =
     Inr (set_fc enum_example 0 ((fcs enum_example ! 0)\<lparr>label_buf := []\<rparr>), [], 0) \<and>
   bt_field_class_signed_enumeration_get_mapping_labels_for_value
       (enum_example_of SIGNED_ENUMERATION) 0 12 =
     Inr (set_fc (enum_example_of SIGNED_ENUMERATION) 0
            ((fcs (enum_example_of SIGNED_ENUMERATION) ! 0)\<lparr>label_buf := [''b'']\<rparr>),
          [''b''], 1) \<and>
   bt_field_class_signed_enumeration_get_mapping_labels_for_value
       (enum_example_of SIGNED_ENUMERATION) 0 (- 1) =
     Inr (set_fc (enum_example_of SIGNED_ENUMERATION) 0
            ((fcs (enum_example_of SIGNED_ENUMERATION) ! 0)\<lparr>label_buf := []\<rparr>), [], 0)"
  using get_mapping_labels_for_value_spec [of enum_example 0 "fcs enum_example ! 0" 7]
    get_mapping_labels_for_value_spec [of enum_example 0 "fcs enum_example ! 0" 20]
    get_mapping_labels_for_value_spec [of "enum_example_of SIGNED_ENUMERATION" 0
      "fcs (enum_example_of SIGNED_ENUMERATION) ! 0" 12]
    get_mapping_labels_for_value_spec [of "enum_example_of SIGNED_ENUMERATION" 0
      "fcs (enum_example_of SIGNED_ENUMERATION) ! 0" "- 1"]
  by (simp add: enum_example_def enum_example_of_def mapping_ranges_def heap_defs)

lemma mappings_have_label_iff: "mappings_have_label ms l = (l \<in> label ` set ms)"
  by (induction ms) auto

text \<open>
  C7: for an enumeration and a live range set, \<^verbatim>\<open>add_mapping\<close> fails with the duplicate
  label error exactly when a mapping of the enumeration already has the label; with a
  new label it appends the mapping, whatever the ranges of the range set and of the
  existing mappings are (the range set is not read at all). The two public functions
  are the same on an enumeration of their signedness.
\<close>

theorem add_mapping_spec:
  assumes "fc_at h a = Some f" and "rs_at h rs = Some r"
  shows "(add_mapping_to_enumeration_field_class h a l rs = Inl (DuplicateLabel, h)
            \<longleftrightarrow> l \<in> label ` set (mappings f)) \<and>
         (l \<notin> label ` set (mappings f) \<longrightarrow>
            add_mapping_to_enumeration_field_class h a l rs =
              Inr (set_fc h a (f\<lparr>mappings := mappings f @ [\<lparr>label = l, range_set = rs\<rparr>]\<rparr>))) \<and>
         (fc_type f = UNSIGNED_ENUMERATION \<longrightarrow>
            bt_field_class_unsigned_enumeration_add_mapping h a l rs =
              add_mapping_to_enumeration_field_class h a l rs) \<and>
         (fc_type f = SIGNED_ENUMERATION \<longrightarrow>
            bt_field_class_signed_enumeration_add_mapping h a l rs =
              add_mapping_to_enumeration_field_class h a l rs)"
  using assms
  by (simp add: add_mapping_to_enumeration_field_class_def
      bt_field_class_unsigned_enumeration_add_mapping_def
      bt_field_class_signed_enumeration_add_mapping_def
      enumeration_field_class_has_mapping_with_label_def mappings_have_label_iff)

theorem add_mapping_spec_witness:
  "bt_field_class_unsigned_enumeration_add_mapping enum_example 0 ''a'' 1 =
     Inl (DuplicateLabel, enum_example) \<and>
   bt_field_class_unsigned_enumeration_add_mapping enum_example 0 ''c'' 0 =
     Inr (set_fc enum_example 0
       ((fcs enum_example ! 0)\<lparr>mappings := mappings (fcs enum_example ! 0) @
          [\<lparr>label = ''c'', range_set = 0\<rparr>]\<rparr>))"
  using add_mapping_spec [of enum_example 0 "fcs enum_example ! 0" 1 "range_sets enum_example ! 1" "''a''"]
    add_mapping_spec [of enum_example 0 "fcs enum_example ! 0" 0 "range_sets enum_example ! 0" "''c''"]
  by (simp add: enum_example_def enum_example_of_def heap_defs)

section \<open>Options of a variant field class with a selector\<close>

lemma freeze_errors:
  "bt_field_class_freeze n h a = Inl (e, h') \<Longrightarrow> e = OutOfFuel \<or> e = NullPointer"
  "freeze_named_fcs n h a i = Inl (e, h') \<Longrightarrow> e = OutOfFuel \<or> e = NullPointer"
  by (induction n h a and n h a i arbitrary: h' and h' rule: bt_field_class_freeze_freeze_named_fcs.induct)
     (auto split: option.splits if_splits sum.splits)

lemma has_overlaps_in_iff:
  "has_overlaps_in sg xs \<longleftrightarrow>
     (\<exists>i j. i < j \<and> j < length xs \<and> ranges_intersect sg (xs ! i) (xs ! j))"
proof (induction xs)
  case Nil
  then show ?case by simp
next
  case (Cons r rs)
  have a: "list_ex (ranges_intersect sg r) rs \<longleftrightarrow>
      (\<exists>j. 0 < j \<and> j < length (r # rs) \<and> ranges_intersect sg ((r # rs) ! 0) ((r # rs) ! j))"
    (is "?L = ?R")
  proof
    assume ?L
    then obtain k where "k < length rs" "ranges_intersect sg r (rs ! k)"
      by (auto simp: list_ex_iff in_set_conv_nth)
    then have "0 < Suc k \<and> Suc k < length (r # rs) \<and>
        ranges_intersect sg ((r # rs) ! 0) ((r # rs) ! Suc k)" by simp
    then show ?R by blast
  next
    assume ?R
    then obtain j where j: "0 < j" "j < length (r # rs)"
      "ranges_intersect sg ((r # rs) ! 0) ((r # rs) ! j)" by blast
    then obtain k where "j = Suc k" by (cases j) auto
    with j show ?L by (auto simp: list_ex_iff)
  qed
  have b: "(\<exists>i j. i < j \<and> j < length rs \<and> ranges_intersect sg (rs ! i) (rs ! j)) \<longleftrightarrow>
      (\<exists>i j. 0 < i \<and> i < j \<and> j < length (r # rs) \<and>
         ranges_intersect sg ((r # rs) ! i) ((r # rs) ! j))"
    (is "?L = ?R")
  proof
    assume ?L
    then obtain i j where "i < j" "j < length rs" "ranges_intersect sg (rs ! i) (rs ! j)" by blast
    then have "0 < Suc i \<and> Suc i < Suc j \<and> Suc j < length (r # rs) \<and>
        ranges_intersect sg ((r # rs) ! Suc i) ((r # rs) ! Suc j)" by simp
    then show ?R by blast
  next
    assume ?R
    then obtain i j where ij: "0 < i" "i < j" "j < length (r # rs)"
      "ranges_intersect sg ((r # rs) ! i) ((r # rs) ! j)" by blast
    then obtain i' j' where "i = Suc i'" "j = Suc j'" by (cases i; cases j) auto
    with ij have "i' < j' \<and> j' < length rs \<and> ranges_intersect sg (rs ! i') (rs ! j')" by simp
    then show ?L by blast
  qed
  have c: "(\<exists>i j. i < j \<and> j < length (r # rs) \<and>
         ranges_intersect sg ((r # rs) ! i) ((r # rs) ! j)) \<longleftrightarrow>
      (\<exists>j. 0 < j \<and> j < length (r # rs) \<and> ranges_intersect sg ((r # rs) ! 0) ((r # rs) ! j)) \<or>
      (\<exists>i j. 0 < i \<and> i < j \<and> j < length (r # rs) \<and>
         ranges_intersect sg ((r # rs) ! i) ((r # rs) ! j))"
    by (metis not_gr_zero)
  have d: "has_overlaps_in sg (r # rs) \<longleftrightarrow>
      list_ex (ranges_intersect sg r) rs \<or> has_overlaps_in sg rs" by simp
  show ?case by (simp only: d Cons.IH a b c)
qed

lemma range_le_refl: "range_le sg a a"
  by (simp add: range_le_def)

lemma range_le_trans: "range_le sg a b \<Longrightarrow> range_le sg b c \<Longrightarrow> range_le sg a c"
  by (auto simp: range_le_def split: if_splits)

lemma range_le_linear: "range_le sg a b \<or> range_le sg b a"
  by (auto simp: range_le_def)

lemma range_holds_le:
  "range_holds sg r v \<longleftrightarrow> range_le sg (lower r) v \<and> range_le sg v (upper r)"
  by (simp add: range_holds_def range_le_def)

lemma ranges_intersect_common_value:
  assumes "range_le sg (lower r1) (upper r1)" and "range_le sg (lower r2) (upper r2)"
  shows "ranges_intersect sg r1 r2 \<longleftrightarrow> (\<exists>v. range_holds sg r1 v \<and> range_holds sg r2 v)"
proof
  assume i: "ranges_intersect sg r1 r2"
  show "\<exists>v. range_holds sg r1 v \<and> range_holds sg r2 v"
  proof (cases "range_le sg (lower r1) (lower r2)")
    case True
    with i assms have "range_holds sg r1 (lower r2) \<and> range_holds sg r2 (lower r2)"
      by (simp add: range_holds_le ranges_intersect_def range_le_refl)
    then show ?thesis by blast
  next
    case False
    then have "range_le sg (lower r2) (lower r1)" using range_le_linear by blast
    with i assms have "range_holds sg r1 (lower r1) \<and> range_holds sg r2 (lower r1)"
      by (simp add: range_holds_le ranges_intersect_def range_le_refl)
    then show ?thesis by blast
  qed
next
  assume "\<exists>v. range_holds sg r1 v \<and> range_holds sg r2 v"
  then obtain v where "range_holds sg r1 v" "range_holds sg r2 v" by blast
  then show "ranges_intersect sg r1 r2"
    unfolding ranges_intersect_def range_holds_le by (blast intro: range_le_trans)
qed

lemma add_ranges_valid:
  "\<not> rs_frozen full \<Longrightarrow> \<forall>x\<in>set xs. range_le sg (lower x) (upper x) \<Longrightarrow>
   add_ranges sg full xs = Inr (full\<lparr>ranges := ranges full @ xs\<rparr>)"
  by (induction xs arbitrary: full) (simp_all add: add_range_to_def)

lemma add_option_ranges_valid:
  "\<not> rs_frozen full \<Longrightarrow>
   \<forall>opt\<in>set opts. \<exists>a s. opt_range_set opt = Some a \<and> rs_at h a = Some s \<and>
      (\<forall>x\<in>set (ranges s). range_le sg (lower x) (upper x)) \<Longrightarrow>
   add_option_ranges h sg full opts = Inr (full\<lparr>ranges := ranges full @ option_ranges h opts\<rparr>)"
proof (induction opts arbitrary: full)
  case Nil
  then show ?case by (simp add: option_ranges_def)
next
  case (Cons opt opts)
  from Cons.prems(2) obtain a s where a: "opt_range_set opt = Some a" "rs_at h a = Some s"
    "\<forall>x\<in>set (ranges s). range_le sg (lower x) (upper x)" by auto
  from Cons.prems(2) have tl: "\<forall>opt\<in>set opts. \<exists>a s. opt_range_set opt = Some a \<and>
      rs_at h a = Some s \<and> (\<forall>x\<in>set (ranges s). range_le sg (lower x) (upper x))" by simp
  have nf: "\<not> rs_frozen (full\<lparr>ranges := ranges full @ ranges s\<rparr>)"
    using Cons.prems(1) by simp
  show ?case
    using a add_ranges_valid[OF Cons.prems(1) a(3)] Cons.IH[OF nf tl]
    by (simp add: option_ranges_def)
qed

lemma ranges_overlap_valid:
  assumes "\<forall>opt\<in>set opts. \<exists>a s. opt_range_set opt = Some a \<and> rs_at h a = Some s \<and>
      (\<forall>x\<in>set (ranges s). range_le sg (lower x) (upper x))"
    and "\<forall>x\<in>set (ranges r). range_le sg (lower x) (upper x)"
  shows "ranges_overlap h opts r sg = Inr (has_overlaps_in sg (option_ranges h opts @ ranges r))"
proof -
  have e: "ranges empty_range_set = []" "\<not> rs_frozen empty_range_set"
    by (simp_all add: empty_range_set_def)
  have 1: "add_option_ranges h sg empty_range_set opts =
      Inr (empty_range_set\<lparr>ranges := option_ranges h opts\<rparr>)"
    using add_option_ranges_valid[OF e(2) assms(1)] by (simp add: e)
  have 2: "add_ranges sg (empty_range_set\<lparr>ranges := option_ranges h opts\<rparr>) (ranges r) =
      Inr (empty_range_set\<lparr>ranges := option_ranges h opts @ ranges r\<rparr>)"
    using add_ranges_valid[OF _ assms(2), of "empty_range_set\<lparr>ranges := option_ranges h opts\<rparr>"]
    by (simp add: e)
  show ?thesis
    by (simp add: ranges_overlap_def 1 2 bt_integer_range_set_has_overlaps_def)
qed

lemma create_variant_with_selector_option_errors:
  "create_variant_with_selector_option n h nm a rs = Inl (e, h') \<Longrightarrow>
   e = OutOfFuel \<or> e = NullPointer"
  by (auto simp: create_variant_with_selector_option_def init_named_field_class_def
      bt_named_field_class_freeze_def bt_integer_range_set_freeze_def
      split: if_splits option.splits sum.splits prod.splits dest: freeze_errors)

lemma append_errors:
  "append_named_field_class_to_container_field_class h c nf = Inl (e, h') \<Longrightarrow>
   e = NullPointer \<or> e = InvalidState \<or> e = DuplicateName"
  by (auto simp: append_named_field_class_to_container_field_class_def
      split: if_splits option.splits)

lemma option_ranges_valid:
  assumes "\<forall>opt\<in>set opts. \<exists>a s. opt_range_set opt = Some a \<and> rs_at h a = Some s \<and>
      (\<forall>x\<in>set (ranges s). range_le sg (lower x) (upper x))"
  shows "\<forall>x\<in>set (option_ranges h opts). range_le sg (lower x) (upper x)"
  using assms by (fastforce simp: option_ranges_def)

text \<open>
  C3: for a variant with selector whose options and new range set hold well-formed
  ranges (lower \<open>\<le>\<close> upper in the signedness of the selector), and a non-empty new range
  set, \<^verbatim>\<open>append_option\<close> fails on the overlap check exactly when two ranges among those
  of the existing options followed by those of the new set share a value, bounds
  included; the heap is then unchanged. Any later failure of the call (fuel, frozen
  variant, duplicate name) is a different error.
\<close>

theorem append_option_overlap:
  assumes c: "fc_at h c = Some f"
    and ty: "fc_type f = expected_type"
    and sel: "expected_type = VARIANT_WITH_UNSIGNED_SELECTOR \<or>
              expected_type = VARIANT_WITH_SIGNED_SELECTOR"
    and opt: "fc_at h opt \<noteq> None"
    and rs: "rs_at h rs = Some r"
    and ne: "ranges r \<noteq> []"
    and vr: "\<forall>x\<in>set (ranges r).
               range_le (expected_type = VARIANT_WITH_SIGNED_SELECTOR) (lower x) (upper x)"
    and vo: "\<forall>opt\<in>set (named_fcs f). \<exists>a s. opt_range_set opt = Some a \<and> rs_at h a = Some s \<and>
               (\<forall>x\<in>set (ranges s).
                  range_le (expected_type = VARIANT_WITH_SIGNED_SELECTOR) (lower x) (upper x))"
  shows "((\<exists>h'. append_option_to_variant_with_selector_field_class n h c nm opt rs expected_type =
             Inl (OverlappingRanges, h')) \<longleftrightarrow>
          (\<exists>i j. i < j \<and> j < length (option_ranges h (named_fcs f) @ ranges r) \<and>
             (\<exists>v. range_holds (expected_type = VARIANT_WITH_SIGNED_SELECTOR)
                     ((option_ranges h (named_fcs f) @ ranges r) ! i) v \<and>
                   range_holds (expected_type = VARIANT_WITH_SIGNED_SELECTOR)
                     ((option_ranges h (named_fcs f) @ ranges r) ! j) v))) \<and>
         ((\<exists>h'. append_option_to_variant_with_selector_field_class n h c nm opt rs expected_type =
             Inl (OverlappingRanges, h')) \<longrightarrow>
          append_option_to_variant_with_selector_field_class n h c nm opt rs expected_type =
             Inl (OverlappingRanges, h))"
proof -
  let ?sg = "expected_type = VARIANT_WITH_SIGNED_SELECTOR"
  let ?U = "option_ranges h (named_fcs f) @ ranges r"
  let ?res = "append_option_to_variant_with_selector_field_class n h c nm opt rs expected_type"
  have ro: "ranges_overlap h (named_fcs f) r ?sg = Inr (has_overlaps_in ?sg ?U)"
    by (rule ranges_overlap_valid[OF vo vr])
  have valid: "\<forall>x\<in>set ?U. range_le ?sg (lower x) (upper x)"
    using option_ranges_valid[OF vo] vr by auto
  have ov: "has_overlaps_in ?sg ?U \<longleftrightarrow>
      (\<exists>i j. i < j \<and> j < length ?U \<and>
         (\<exists>v. range_holds ?sg (?U ! i) v \<and> range_holds ?sg (?U ! j) v))"
  proof -
    have "ranges_intersect ?sg (?U ! i) (?U ! j) \<longleftrightarrow>
        (\<exists>v. range_holds ?sg (?U ! i) v \<and> range_holds ?sg (?U ! j) v)"
      if "i < j" "j < length ?U" for i j
      using that valid by (intro ranges_intersect_common_value) (simp_all del: set_append)
    then show ?thesis unfolding has_overlaps_in_iff by blast
  qed
  have yes: "?res = Inl (OverlappingRanges, h)" if "has_overlaps_in ?sg ?U"
    using that c ty opt rs ne ro
    by (auto simp: append_option_to_variant_with_selector_field_class_def)
  have no: "?res \<noteq> Inl (OverlappingRanges, h')" if "\<not> has_overlaps_in ?sg ?U" for h'
    using that c ty opt rs ne ro
    by (auto simp: append_option_to_variant_with_selector_field_class_def
        split: sum.splits prod.splits
        dest: create_variant_with_selector_option_errors append_errors)
  from yes no ov show ?thesis by metis
qed

section \<open>Names of a container\<close>

lemma names_indexed_nth:
  "container_names_indexed f \<Longrightarrow> i < length (named_fcs f) \<Longrightarrow>
   map_of (name_to_index f) (name (named_fcs f ! i)) = Some i"
  by (simp add: container_names_indexed_def list_all_iff)

lemma names_indexed_lookup:
  "container_names_indexed f \<Longrightarrow> map_of (name_to_index f) nm = Some i \<Longrightarrow>
   i < length (named_fcs f) \<and> name (named_fcs f ! i) = nm"
  by (auto simp: container_names_indexed_def list_all_iff dest!: map_of_SomeD)

lemma names_indexed_present:
  assumes "container_names_indexed f"
  shows "map_of (name_to_index f) nm \<noteq> None \<longleftrightarrow> nm \<in> name ` set (named_fcs f)"
proof
  assume "map_of (name_to_index f) nm \<noteq> None"
  then obtain i where "map_of (name_to_index f) nm = Some i" by auto
  from names_indexed_lookup[OF assms this] show "nm \<in> name ` set (named_fcs f)"
    by (metis imageI nth_mem)
next
  assume "nm \<in> name ` set (named_fcs f)"
  then obtain i where "i < length (named_fcs f)" "nm = name (named_fcs f ! i)"
    by (auto simp: in_set_conv_nth)
  with names_indexed_nth[OF assms] show "map_of (name_to_index f) nm \<noteq> None" by simp
qed

lemma names_indexed_borrow:
  assumes "fc_at h c = Some f" and "container_names_indexed f" and "e \<in> set (named_fcs f)"
  shows "borrow_named_field_class_from_container_field_class_by_name h c (name e) = Inr (Some e)"
proof -
  from assms(3) obtain i where i: "i < length (named_fcs f)" "e = named_fcs f ! i"
    by (auto simp: in_set_conv_nth)
  with names_indexed_nth[OF assms(2) i(1)] assms(1) show ?thesis
    by (simp add: borrow_named_field_class_from_container_field_class_by_name_def)
qed

lemma names_indexed_append:
  assumes wf: "container_names_indexed f" and new: "name nf \<notin> name ` set (named_fcs f)"
  shows "container_names_indexed
     (f\<lparr>named_fcs := named_fcs f @ [nf],
        name_to_index := (name nf, length (named_fcs f @ [nf]) - 1) # name_to_index f\<rparr>)"
proof -
  have a: "map_of (name_to_index f) (name ((named_fcs f @ [nf]) ! i)) = Some i"
    if "i < length (named_fcs f)" for i
    using that names_indexed_nth[OF wf that] by (simp add: nth_append)
  have b: "name ((named_fcs f @ [nf]) ! i) \<noteq> name nf" if "i < length (named_fcs f)" for i
  proof -
    from that have "named_fcs f ! i \<in> set (named_fcs f)" by simp
    with new have "name (named_fcs f ! i) \<noteq> name nf" by (metis imageI)
    with that show ?thesis by (simp add: nth_append)
  qed
  have c: "i < Suc (length (named_fcs f)) \<and> name ((named_fcs f @ [nf]) ! i) = nm"
    if "(nm, i) \<in> set (name_to_index f)" for nm i
    using that wf by (auto simp: container_names_indexed_def list_all_iff nth_append)
  show ?thesis
    unfolding container_names_indexed_def list_all_iff
    using a b c by (auto simp: less_Suc_eq)
qed

lemmas container_defs = bt_field_class_structure_create_def
  bt_field_class_structure_append_member_def create_named_field_class_def
  init_named_field_class_def bt_named_field_class_freeze_def
  append_named_field_class_to_container_field_class_def
  create_variant_with_selector_option_def bt_integer_range_set_freeze_def
  append_option_to_variant_with_selector_field_class_def
  bt_field_class_variant_with_unsigned_selector_append_option_def
  bt_field_class_variant_with_signed_selector_append_option_def
  ranges_overlap_def bt_integer_range_set_has_overlaps_def add_range_to_def
  ranges_intersect_def bt_field_class_variant_create_def
  borrow_named_field_class_from_container_field_class_by_name_def

lemma struct_example_built:
  "(case bt_field_class_structure_create empty_heap of
      (h1, s) \<Rightarrow>
        (case bt_field_class_unsigned_integer_create h1 of
           (h2, i) \<Rightarrow> bt_field_class_structure_append_member 1 h2 s ''a'' i))
   = Inr struct_example"
  by (simp add: struct_example_def bt_field_class_unsigned_integer_create_def
      create_integer_field_class_def container_defs heap_defs)

lemma frozen_struct_example_built:
  "(case bt_field_class_structure_create struct_example of
      (h1, t) \<Rightarrow> bt_field_class_structure_append_member 3 h1 t ''s'' 0)
   = Inr frozen_struct_example"
  by (simp add: struct_example_def frozen_struct_example_def container_defs heap_defs
      eval_nat_numeral)

lemma variant_example_built:
  "(case bt_field_class_unsigned_integer_create empty_heap of
      (h1, sel) \<Rightarrow>
        (case bt_field_class_variant_create 1 h1 (Some sel) of
           Inl x \<Rightarrow> Inl x
         | Inr (h2, v) \<Rightarrow>
             (case bt_field_class_unsigned_integer_create h2 of
                (h3, i) \<Rightarrow>
                  (case bt_integer_range_set_create h3 of
                     (h4, r0) \<Rightarrow>
                       (case bt_integer_range_set_add_range False h4 r0 0 10 of
                          Inl x \<Rightarrow> Inl x
                        | Inr h5 \<Rightarrow>
                            (case bt_integer_range_set_create h5 of
                               (h6, r1) \<Rightarrow>
                                 (case bt_integer_range_set_add_range False h6 r1 10 20 of
                                    Inl x \<Rightarrow> Inl x
                                  | Inr h7 \<Rightarrow>
                                      (case bt_integer_range_set_create h7 of
                                         (h8, r2) \<Rightarrow>
                                           (case bt_integer_range_set_add_range False h8 r2 11 20 of
                                              Inl x \<Rightarrow> Inl x
                                            | Inr h9 \<Rightarrow>
                                                bt_field_class_variant_with_unsigned_selector_append_option
                                                  1 h9 v ''A'' i r0)))))))))
   = Inr variant_example"
  by (simp add: variant_example_def bt_field_class_unsigned_integer_create_def
      create_integer_field_class_def bt_integer_range_set_create_def
      bt_integer_range_set_add_range_def container_defs heap_defs)

theorem append_option_overlap_witness:
  "append_option_to_variant_with_selector_field_class 1 variant_example 1 ''B'' 2 1
     VARIANT_WITH_UNSIGNED_SELECTOR = Inl (OverlappingRanges, variant_example) \<and>
   append_option_to_variant_with_selector_field_class 1 variant_example 1 ''B'' 2 2
     VARIANT_WITH_UNSIGNED_SELECTOR =
     Inr (set_fc (set_rs variant_example 2 ((range_sets variant_example ! 2)\<lparr>rs_frozen := True\<rparr>)) 1
       ((fcs variant_example ! 1)
          \<lparr>named_fcs := [\<lparr>name = ''A'', fc = 2, nfc_frozen = True, opt_range_set = Some 0\<rparr>,
                         \<lparr>name = ''B'', fc = 2, nfc_frozen = True, opt_range_set = Some 2\<rparr>],
           name_to_index := [(''B'', 1), (''A'', 0)]\<rparr>))"
proof -
  let ?f = "fcs variant_example ! 1"
  have c: "fc_at variant_example 1 = Some ?f" by (simp add: variant_example_def heap_defs)
  have ty: "fc_type ?f = VARIANT_WITH_UNSIGNED_SELECTOR"
    by (simp add: variant_example_def heap_defs)
  have sel: "VARIANT_WITH_UNSIGNED_SELECTOR = VARIANT_WITH_UNSIGNED_SELECTOR \<or>
      VARIANT_WITH_UNSIGNED_SELECTOR = VARIANT_WITH_SIGNED_SELECTOR" by simp
  have opt: "fc_at variant_example 2 \<noteq> None" by (simp add: variant_example_def heap_defs)
  have rs1: "rs_at variant_example 1 = Some (range_sets variant_example ! 1)"
    by (simp add: variant_example_def heap_defs)
  have ne1: "ranges (range_sets variant_example ! 1) \<noteq> []"
    by (simp add: variant_example_def)
  have vr1: "\<forall>x\<in>set (ranges (range_sets variant_example ! 1)).
      range_le (VARIANT_WITH_UNSIGNED_SELECTOR = VARIANT_WITH_SIGNED_SELECTOR) (lower x) (upper x)"
    by (simp add: variant_example_def heap_defs)
  have vo: "\<forall>opt\<in>set (named_fcs ?f). \<exists>a s. opt_range_set opt = Some a \<and>
      rs_at variant_example a = Some s \<and>
      (\<forall>x\<in>set (ranges s).
         range_le (VARIANT_WITH_UNSIGNED_SELECTOR = VARIANT_WITH_SIGNED_SELECTOR) (lower x) (upper x))"
    by (simp add: variant_example_def heap_defs)
  have U: "option_ranges variant_example (named_fcs ?f) @ ranges (range_sets variant_example ! 1) =
      [\<lparr>lower = 0, upper = 10\<rparr>, \<lparr>lower = 10, upper = 20\<rparr>]"
    by (simp add: variant_example_def option_ranges_def heap_defs)
  note th = append_option_overlap [OF c ty sel opt rs1 ne1 vr1 vo, of 1 "''B''", unfolded U]
  have ex: "\<exists>i j. i < j \<and> j < length [\<lparr>lower = 0, upper = 10\<rparr>, \<lparr>lower = 10, upper = 20 :: 64 word\<rparr>] \<and>
      (\<exists>v. range_holds (VARIANT_WITH_UNSIGNED_SELECTOR = VARIANT_WITH_SIGNED_SELECTOR)
              ([\<lparr>lower = 0, upper = 10\<rparr>, \<lparr>lower = 10, upper = 20\<rparr>] ! i) v \<and>
            range_holds (VARIANT_WITH_UNSIGNED_SELECTOR = VARIANT_WITH_SIGNED_SELECTOR)
              ([\<lparr>lower = 0, upper = 10\<rparr>, \<lparr>lower = 10, upper = 20\<rparr>] ! j) v)"
    by (rule exI[of _ 0], rule exI[of _ 1], simp, rule exI[of _ 10])
       (simp add: range_holds_def)
  from th ex
  have "append_option_to_variant_with_selector_field_class 1 variant_example 1 ''B'' 2 1
     VARIANT_WITH_UNSIGNED_SELECTOR = Inl (OverlappingRanges, variant_example)"
    by blast
  then show ?thesis
    by (simp add: variant_example_def container_defs heap_defs)
qed

section \<open>Attaching to a trace class: what changes\<close>

lemma marks_only_refl: "marks_only h h"
  by (simp add: marks_only_def)

lemma marks_only_trans: "marks_only h1 h2 \<Longrightarrow> marks_only h2 h3 \<Longrightarrow> marks_only h1 h3"
  unfolding marks_only_def
  by (metis (no_types, lifting) bt_field_class.update_convs(3) bt_field_class.surjective)

lemma marks_only_set:
  "fc_at h a = Some f \<Longrightarrow> marks_only h (set_fc h a (f\<lparr>part_of_trace_class := True\<rparr>))"
  by (auto simp: marks_only_def fc_at_def set_fc_def nth_list_update split: if_splits)

lemma make_part_marks_only:
  "bt_field_class_make_part_of_trace_class n h a = Inr h' \<Longrightarrow> marks_only h h'"
  "make_part_named_fcs n h a i = Inr h' \<Longrightarrow> marks_only h h'"
proof (induction n h a and n h a i arbitrary: h' and h'
    rule: bt_field_class_make_part_of_trace_class_make_part_named_fcs.induct)
  case (1 h a)
  then show ?case by simp
next
  case (2 n h a)
  from "2.prems" obtain f where f: "fc_at h a = Some f" "\<not> part_of_trace_class f"
    by (auto split: option.splits if_splits)
  let ?h1 = "set_fc h a (f\<lparr>part_of_trace_class := True\<rparr>)"
  have m1: "marks_only h ?h1" by (rule marks_only_set[OF f(1)])
  show ?case
  proof (cases "fc_is_container (fc_type f)")
    case True
    with "2.prems" f have "make_part_named_fcs n ?h1 a 0 = Inr h'" by simp
    from "2.IH"(1)[OF f(1) f(2) True this] m1 show ?thesis by (rule marks_only_trans[rotated])
  next
    case nc: False
    show ?thesis
    proof (cases "fc_is_array (fc_type f)")
      case True
      with "2.prems" f nc obtain e where e: "element_fc f = Some e"
        "bt_field_class_make_part_of_trace_class n ?h1 e = Inr h'"
        by (auto split: option.splits)
      from "2.IH"(2)[OF f(1) f(2) nc True e] m1 show ?thesis by (rule marks_only_trans[rotated])
    next
      case False
      with "2.prems" f nc have "h' = ?h1" by simp
      with m1 show ?thesis by simp
    qed
  qed
next
  case (3 h a i)
  then show ?case by simp
next
  case (4 n h a i)
  from "4.prems" obtain f where f: "fc_at h a = Some f" by (auto split: option.splits)
  show ?case
  proof (cases "i < length (named_fcs f)")
    case True
    with "4.prems" f obtain h1 where
      h1: "bt_field_class_make_part_of_trace_class n h (fc (named_fcs f ! i)) = Inr h1"
      and r: "make_part_named_fcs n h1 a (i + 1) = Inr h'"
      by (auto split: sum.splits)
    from "4.IH"(1)[OF f True h1] "4.IH"(2)[OF f True h1 r] show ?thesis
      by (rule marks_only_trans)
  next
    case False
    with "4.prems" f show ?thesis by (simp add: marks_only_refl)
  qed
qed

lemma marks_only_fields:
  assumes "marks_only h h'" and "b < length (fcs h)"
  shows "named_fcs (fcs h' ! b) = named_fcs (fcs h ! b)"
    and "fc_type (fcs h' ! b) = fc_type (fcs h ! b)"
    and "element_fc (fcs h' ! b) = element_fc (fcs h ! b)"
    and "frozen (fcs h' ! b) = frozen (fcs h ! b)"
    and "child_fcs (fcs h' ! b) = child_fcs (fcs h ! b)"
proof -
  from assms have e: "fcs h' ! b =
      (fcs h ! b)\<lparr>part_of_trace_class := part_of_trace_class (fcs h' ! b)\<rparr>"
    by (simp add: marks_only_def)
  show 1: "named_fcs (fcs h' ! b) = named_fcs (fcs h ! b)" by (subst e) simp
  show 2: "fc_type (fcs h' ! b) = fc_type (fcs h ! b)" by (subst e) simp
  show 3: "element_fc (fcs h' ! b) = element_fc (fcs h ! b)" by (subst e) simp
  show "frozen (fcs h' ! b) = frozen (fcs h ! b)" by (subst e) simp
  show "child_fcs (fcs h' ! b) = child_fcs (fcs h ! b)"
    by (simp add: child_fcs_def 1 2 3)
qed

lemma marks_only_length: "marks_only h h' \<Longrightarrow> length (fcs h') = length (fcs h)"
  by (simp add: marks_only_def)


lemma marks_only_edges: "marks_only h h' \<Longrightarrow> child_edges h' = child_edges h"
  by (auto simp: child_edges_def marks_only_length marks_only_fields(5))




lemma make_part_changes_reachable:
  "bt_field_class_make_part_of_trace_class n h a = Inr h' \<Longrightarrow> b < length (fcs h) \<Longrightarrow>
   fcs h' ! b \<noteq> fcs h ! b \<Longrightarrow> (a, b) \<in> (child_edges h)\<^sup>*"
  "make_part_named_fcs n h a i = Inr h' \<Longrightarrow> b < length (fcs h) \<Longrightarrow>
   fcs h' ! b \<noteq> fcs h ! b \<Longrightarrow>
   \<exists>k. i \<le> k \<and> k < length (named_fcs (fcs h ! a)) \<and>
       (fc (named_fcs (fcs h ! a) ! k), b) \<in> (child_edges h)\<^sup>*"
proof (induction n h a and n h a i arbitrary: h' and h'
    rule: bt_field_class_make_part_of_trace_class_make_part_named_fcs.induct)
  case (1 h a)
  then show ?case by simp
next
  case (2 n h a)
  from "2.prems" obtain f where f: "fc_at h a = Some f" "\<not> part_of_trace_class f"
    by (auto split: option.splits if_splits)
  let ?h1 = "set_fc h a (f\<lparr>part_of_trace_class := True\<rparr>)"
  from f have al: "a < length (fcs h)" and fa: "fcs h ! a = f"
    by (auto simp: fc_at_def split: if_splits)
  have m1: "marks_only h ?h1" by (rule marks_only_set[OF f(1)])
  have l1: "length (fcs ?h1) = length (fcs h)" by (simp add: set_fc_def)
  have e1: "child_edges ?h1 = child_edges h" by (rule marks_only_edges[OF m1])
  show ?case
  proof (cases "b = a")
    case True
    then show ?thesis by simp
  next
    case ba: False
    then have same: "fcs ?h1 ! b = fcs h ! b" by (simp add: set_fc_def)
    with "2.prems" have ch: "fcs h' ! b \<noteq> fcs ?h1 ! b" by simp
    have bl: "b < length (fcs ?h1)" using "2.prems"(2) l1 by simp
    show ?thesis
    proof (cases "fc_is_container (fc_type f)")
      case True
      with "2.prems" f have r: "make_part_named_fcs n ?h1 a 0 = Inr h'" by simp
      have nf: "named_fcs (fcs ?h1 ! a) = named_fcs f"
        using marks_only_fields(1)[OF m1 al] fa by simp
      from "2.IH"(1)[OF f(1) f(2) True r bl ch] nf e1
      obtain k where k: "k < length (named_fcs f)"
        "(fc (named_fcs f ! k), b) \<in> (child_edges h)\<^sup>*" by auto
      from True k(1) al fa have "(a, fc (named_fcs f ! k)) \<in> child_edges h"
        by (auto simp: child_edges_def child_fcs_def)
      with k(2) show ?thesis by (meson converse_rtrancl_into_rtrancl)
    next
      case nc: False
      show ?thesis
      proof (cases "fc_is_array (fc_type f)")
        case True
        with "2.prems" f nc obtain e where e: "element_fc f = Some e"
          "bt_field_class_make_part_of_trace_class n ?h1 e = Inr h'"
          by (auto split: option.splits)
        from "2.IH"(2)[OF f(1) f(2) nc True e bl ch] e1
        have eb: "(e, b) \<in> (child_edges h)\<^sup>*" by simp
        from True nc e(1) al fa have "(a, e) \<in> child_edges h"
          by (auto simp: child_edges_def child_fcs_def)
        with eb show ?thesis by (meson converse_rtrancl_into_rtrancl)
      next
        case False
        with "2.prems" f nc have "h' = ?h1" by simp
        with ch show ?thesis by simp
      qed
    qed
  qed
next
  case (3 h a i)
  then show ?case by simp
next
  case (4 n h a i)
  from "4.prems" obtain f where f: "fc_at h a = Some f" by (auto split: option.splits)
  from f have al: "a < length (fcs h)" and fa: "fcs h ! a = f"
    by (auto simp: fc_at_def split: if_splits)
  show ?case
  proof (cases "i < length (named_fcs f)")
    case True
    with "4.prems" f obtain h1 where
      h1: "bt_field_class_make_part_of_trace_class n h (fc (named_fcs f ! i)) = Inr h1"
      and r: "make_part_named_fcs n h1 a (i + 1) = Inr h'"
      by (auto split: sum.splits)
    have m1: "marks_only h h1" by (rule make_part_marks_only(1)[OF h1])
    have l1: "length (fcs h1) = length (fcs h)" by (rule marks_only_length[OF m1])
    have e1: "child_edges h1 = child_edges h" by (rule marks_only_edges[OF m1])
    have nf: "named_fcs (fcs h1 ! a) = named_fcs f"
      using marks_only_fields(1)[OF m1 al] fa by simp
    show ?thesis
    proof (cases "fcs h1 ! b = fcs h ! b")
      case True
      with "4.prems" have ch: "fcs h' ! b \<noteq> fcs h1 ! b" by simp
      have bl: "b < length (fcs h1)" using "4.prems"(2) l1 by simp
      from "4.IH"(2)[OF f \<open>i < length (named_fcs f)\<close> h1 r bl ch] nf e1 fa
      show ?thesis by (metis Suc_eq_plus1 Suc_leD)
    next
      case False
      from "4.IH"(1)[OF f True h1 "4.prems"(2) False] True fa
      show ?thesis by blast
    qed
  next
    case False
    with "4.prems" f show ?thesis by simp
  qed
qed


lemma selector_option_example_built:
  "(case bt_field_class_unsigned_integer_create empty_heap of
      (h1, sel) \<Rightarrow>
        (case bt_field_class_variant_create 1 h1 (Some sel) of
           Inl x \<Rightarrow> Inl x
         | Inr (h2, v) \<Rightarrow>
             (case bt_integer_range_set_create h2 of
                (h3, r0) \<Rightarrow>
                  (case bt_integer_range_set_add_range False h3 r0 0 0 of
                     Inl x \<Rightarrow> Inl x
                   | Inr h4 \<Rightarrow>
                       bt_field_class_variant_with_unsigned_selector_append_option
                         1 h4 v ''x'' sel r0))))
   = Inr selector_option_example"
  by (simp add: selector_option_example_def bt_field_class_unsigned_integer_create_def
      create_integer_field_class_def bt_integer_range_set_create_def
      bt_integer_range_set_add_range_def container_defs heap_defs)

lemma tagged_struct_example_built:
  "(case bt_field_class_unsigned_integer_create empty_heap of
      (h1, tag) \<Rightarrow>
        (case bt_field_class_variant_create 1 h1 (Some tag) of
           Inl x \<Rightarrow> Inl x
         | Inr (h2, v) \<Rightarrow>
             (case bt_field_class_structure_create h2 of
                (h3, s) \<Rightarrow>
                  (case bt_field_class_structure_append_member 1 h3 s ''tag'' tag of
                     Inl x \<Rightarrow> Inl x
                   | Inr h4 \<Rightarrow> bt_field_class_structure_append_member 2 h4 s ''v'' v))))
   = Inr tagged_struct_example"
  by (simp add: tagged_struct_example_def bt_field_class_unsigned_integer_create_def
      create_integer_field_class_def container_defs heap_defs eval_nat_numeral)

lemma dynamic_array_example_built:
  "(case bt_field_class_unsigned_integer_create empty_heap of
      (h1, len) \<Rightarrow>
        (case bt_field_class_signed_integer_create h1 of
           (h2, el) \<Rightarrow> bt_field_class_dynamic_array_create 1 h2 el (Some len)))
   = Inr (dynamic_array_example, 2)"
  by (simp add: dynamic_array_example_def bt_field_class_unsigned_integer_create_def
      bt_field_class_signed_integer_create_def
      create_integer_field_class_def bt_field_class_dynamic_array_create_def
      init_array_field_class_def heap_defs)


lemma rtrancl_target: "(a, b) \<in> r\<^sup>* \<Longrightarrow> a = b \<or> (\<exists>p. (p, b) \<in> r)"
  by (metis rtranclE)

text \<open>
  C2 as stated fails: \<^verbatim>\<open>bt_field_class_make_part_of_trace_class\<close> writes only the
  \<^verbatim>\<open>part_of_trace_class\<close> flag. On a fresh integer field class it succeeds and leaves
  the field class part of a trace class and not frozen.
\<close>

theorem make_part_of_trace_class_unfrozen:
  "bt_field_class_make_part_of_trace_class 1 int_example 0 =
     Inr (set_fc int_example 0 ((fcs int_example ! 0)\<lparr>part_of_trace_class := True\<rparr>)) \<and>
   part_of_trace_class
     (fcs (set_fc int_example 0 ((fcs int_example ! 0)\<lparr>part_of_trace_class := True\<rparr>)) ! 0) \<and>
   \<not> frozen
     (fcs (set_fc int_example 0 ((fcs int_example ! 0)\<lparr>part_of_trace_class := True\<rparr>)) ! 0)"
  by (simp add: int_example_def heap_defs)

lemma children_frozen_iff:
  "children_frozen h \<longleftrightarrow>
     (\<forall>p c. (p, c) \<in> child_edges h \<longrightarrow> c < length (fcs h) \<and> frozen (fcs h ! c))"
proof
  assume cf: "children_frozen h"
  show "\<forall>p c. (p, c) \<in> child_edges h \<longrightarrow> c < length (fcs h) \<and> frozen (fcs h ! c)"
  proof (intro allI impI)
    fix p c assume "(p, c) \<in> child_edges h"
    then have p: "fcs h ! p \<in> set (fcs h)" and c: "c \<in> set (child_fcs (fcs h ! p))"
      by (simp_all add: child_edges_def)
    from cf p c show "c < length (fcs h) \<and> frozen (fcs h ! c)"
      unfolding children_frozen_def list_all_iff by blast
  qed
next
  assume e: "\<forall>p c. (p, c) \<in> child_edges h \<longrightarrow> c < length (fcs h) \<and> frozen (fcs h ! c)"
  show "children_frozen h"
    unfolding children_frozen_def list_all_iff
  proof (intro ballI)
    fix f c assume "f \<in> set (fcs h)" "c \<in> set (child_fcs f)"
    then obtain p where "p < length (fcs h)" "f = fcs h ! p" by (auto simp: in_set_conv_nth)
    with \<open>c \<in> set (child_fcs f)\<close> have "(p, c) \<in> child_edges h" by (simp add: child_edges_def)
    with e show "c < length (fcs h) \<and> frozen (fcs h ! c)" by blast
  qed
qed

text \<open>
  C2, amended: the call changes no \<^verbatim>\<open>frozen\<close> flag. In a heap where every child (member,
  option or element) is frozen, each field class that a successful call newly marks,
  other than the one it was called on, is frozen; the one it was called on is frozen
  exactly when it was before. So when that one is frozen, and every field class marked
  before was frozen, every marked field class is frozen afterwards.
\<close>

theorem make_part_of_trace_class_frozen:
  assumes cf: "children_frozen h"
    and ok: "bt_field_class_make_part_of_trace_class n h a = Inr h'"
  shows "length (fcs h') = length (fcs h) \<and>
         (\<forall>b<length (fcs h). frozen (fcs h' ! b) = frozen (fcs h ! b)) \<and>
         (\<forall>b<length (fcs h).
            part_of_trace_class (fcs h' ! b) \<and> \<not> part_of_trace_class (fcs h ! b) \<and> b \<noteq> a \<longrightarrow>
            frozen (fcs h' ! b)) \<and>
         (frozen (fcs h ! a) \<and>
          (\<forall>b<length (fcs h). part_of_trace_class (fcs h ! b) \<longrightarrow> frozen (fcs h ! b)) \<longrightarrow>
          (\<forall>b<length (fcs h'). part_of_trace_class (fcs h' ! b) \<longrightarrow> frozen (fcs h' ! b))) \<and>
         children_frozen h'"
proof -
  have m: "marks_only h h'" by (rule make_part_marks_only(1)[OF ok])
  have l: "length (fcs h') = length (fcs h)" by (rule marks_only_length[OF m])
  have fr: "\<forall>b<length (fcs h). frozen (fcs h' ! b) = frozen (fcs h ! b)"
    using marks_only_fields(4)[OF m] by blast
  have new: "frozen (fcs h' ! b)"
    if "b < length (fcs h)" "part_of_trace_class (fcs h' ! b)"
      "\<not> part_of_trace_class (fcs h ! b)" "b \<noteq> a" for b
  proof -
    from that have "fcs h' ! b \<noteq> fcs h ! b" by auto
    from make_part_changes_reachable(1)[OF ok that(1) this]
    have "(a, b) \<in> (child_edges h)\<^sup>*" .
    from rtrancl_target[OF this] that(4) obtain p where "(p, b) \<in> child_edges h" by auto
    with cf have "frozen (fcs h ! b)" by (simp add: children_frozen_iff)
    with fr that(1) show ?thesis by simp
  qed
  have inv: "frozen (fcs h ! a) \<and>
          (\<forall>b<length (fcs h). part_of_trace_class (fcs h ! b) \<longrightarrow> frozen (fcs h ! b)) \<longrightarrow>
          (\<forall>b<length (fcs h'). part_of_trace_class (fcs h' ! b) \<longrightarrow> frozen (fcs h' ! b))"
  proof (intro impI allI, elim conjE)
    fix b
    assume fa: "frozen (fcs h ! a)"
      and old: "\<forall>b<length (fcs h). part_of_trace_class (fcs h ! b) \<longrightarrow> frozen (fcs h ! b)"
      and bl: "b < length (fcs h')" and p: "part_of_trace_class (fcs h' ! b)"
    from bl l have bl': "b < length (fcs h)" by simp
    show "frozen (fcs h' ! b)"
    proof (cases "part_of_trace_class (fcs h ! b)")
      case True
      with old bl' have "frozen (fcs h ! b)" by simp
      with fr bl' show ?thesis by simp
    next
      case False
      show ?thesis
      proof (cases "b = a")
        case True
        with fa fr bl' show ?thesis by simp
      next
        case ne: False
        from new[OF bl' p False ne] show ?thesis .
      qed
    qed
  qed
  have cf': "children_frozen h'"
    using cf fr l marks_only_edges[OF m] by (simp add: children_frozen_iff)
  have new': "\<forall>b<length (fcs h).
      part_of_trace_class (fcs h' ! b) \<and> \<not> part_of_trace_class (fcs h ! b) \<and> b \<noteq> a \<longrightarrow>
      frozen (fcs h' ! b)"
    using new by blast
  show ?thesis
    by (intro conjI) (rule l, rule fr, rule new', rule inv, rule cf')
qed

theorem make_part_of_trace_class_frozen_witness:
  "bt_field_class_make_part_of_trace_class 3 frozen_struct_example 0 =
     Inr (set_fc (set_fc frozen_struct_example 0
            ((fcs frozen_struct_example ! 0)\<lparr>part_of_trace_class := True\<rparr>))
            1 ((fcs frozen_struct_example ! 1)\<lparr>part_of_trace_class := True\<rparr>)) \<and>
   list_all (\<lambda>f. \<not> part_of_trace_class f \<or> frozen f)
     (fcs (set_fc (set_fc frozen_struct_example 0
            ((fcs frozen_struct_example ! 0)\<lparr>part_of_trace_class := True\<rparr>))
            1 ((fcs frozen_struct_example ! 1)\<lparr>part_of_trace_class := True\<rparr>)))"
proof -
  let ?h' = "set_fc (set_fc frozen_struct_example 0
            ((fcs frozen_struct_example ! 0)\<lparr>part_of_trace_class := True\<rparr>))
            1 ((fcs frozen_struct_example ! 1)\<lparr>part_of_trace_class := True\<rparr>)"
  have cf: "children_frozen frozen_struct_example"
    by (simp add: frozen_struct_example_def children_frozen_def child_fcs_def heap_defs)
  have ok: "bt_field_class_make_part_of_trace_class 3 frozen_struct_example 0 = Inr ?h'"
    by (simp add: frozen_struct_example_def heap_defs eval_nat_numeral)
  have pre: "frozen (fcs frozen_struct_example ! 0) \<and>
      (\<forall>b<length (fcs frozen_struct_example).
         part_of_trace_class (fcs frozen_struct_example ! b) \<longrightarrow>
         frozen (fcs frozen_struct_example ! b))"
    by (simp add: frozen_struct_example_def heap_defs less_Suc_eq eval_nat_numeral)
  note t = make_part_of_trace_class_frozen[OF cf ok]
  from t[THEN conjunct2, THEN conjunct2, THEN conjunct2, THEN conjunct1] pre
  have "\<forall>b<length (fcs ?h'). part_of_trace_class (fcs ?h' ! b) \<longrightarrow> frozen (fcs ?h' ! b)"
    by (rule mp)
  then have "list_all (\<lambda>f. \<not> part_of_trace_class f \<or> frozen f) (fcs ?h')"
    unfolding list_all_length by blast
  with ok show ?thesis by (rule conjI)
qed

text \<open>
  C10, amended: a successful call changes nothing but \<^verbatim>\<open>part_of_trace_class\<close> flags, and
  only of field classes reached from its argument through member, option and element
  links. The selector and length links are not followed: the selector or length field
  class of the argument is left as it is unless it is reached through those links.
\<close>

theorem make_part_of_trace_class_frame:
  assumes ok: "bt_field_class_make_part_of_trace_class n h a = Inr h'"
  shows "range_sets h' = range_sets h \<and> length (fcs h') = length (fcs h) \<and>
         (\<forall>b<length (fcs h).
            fcs h' ! b = (fcs h ! b)\<lparr>part_of_trace_class := part_of_trace_class (fcs h' ! b)\<rparr>) \<and>
         (\<forall>b. (a, b) \<notin> (child_edges h)\<^sup>* \<longrightarrow> fc_at h' b = fc_at h b) \<and>
         (\<forall>f s. fc_at h a = Some f \<and> (selector_fc f = Some s \<or> length_fc f = Some s) \<and>
                (a, s) \<notin> (child_edges h)\<^sup>* \<longrightarrow> fc_at h' s = fc_at h s)"
proof -
  have m: "marks_only h h'" by (rule make_part_marks_only(1)[OF ok])
  have l: "length (fcs h') = length (fcs h)" by (rule marks_only_length[OF m])
  have out: "fc_at h' b = fc_at h b" if "(a, b) \<notin> (child_edges h)\<^sup>*" for b
  proof (cases "b < length (fcs h)")
    case True
    with make_part_changes_reachable(1)[OF ok True] that have "fcs h' ! b = fcs h ! b" by blast
    with True l show ?thesis by (simp add: fc_at_def)
  next
    case False
    with l show ?thesis by (simp add: fc_at_def)
  qed
  from m l out show ?thesis unfolding marks_only_def by blast
qed

theorem make_part_of_trace_class_frame_witness:
  "bt_field_class_make_part_of_trace_class 3 variant_example 1 =
     Inr (set_fc (set_fc variant_example 1 ((fcs variant_example ! 1)\<lparr>part_of_trace_class := True\<rparr>))
            2 ((fcs variant_example ! 2)\<lparr>part_of_trace_class := True\<rparr>)) \<and>
   fc_at (set_fc (set_fc variant_example 1 ((fcs variant_example ! 1)\<lparr>part_of_trace_class := True\<rparr>))
            2 ((fcs variant_example ! 2)\<lparr>part_of_trace_class := True\<rparr>)) 0 =
     fc_at variant_example 0 \<and>
   bt_field_class_make_part_of_trace_class 2 dynamic_array_example 2 =
     Inr (set_fc (set_fc dynamic_array_example 2
            ((fcs dynamic_array_example ! 2)\<lparr>part_of_trace_class := True\<rparr>))
            1 ((fcs dynamic_array_example ! 1)\<lparr>part_of_trace_class := True\<rparr>)) \<and>
   fc_at (set_fc (set_fc dynamic_array_example 2
            ((fcs dynamic_array_example ! 2)\<lparr>part_of_trace_class := True\<rparr>))
            1 ((fcs dynamic_array_example ! 1)\<lparr>part_of_trace_class := True\<rparr>)) 0 =
     fc_at dynamic_array_example 0"
proof -
  let ?v = "set_fc (set_fc variant_example 1 ((fcs variant_example ! 1)\<lparr>part_of_trace_class := True\<rparr>))
            2 ((fcs variant_example ! 2)\<lparr>part_of_trace_class := True\<rparr>)"
  let ?d = "set_fc (set_fc dynamic_array_example 2
            ((fcs dynamic_array_example ! 2)\<lparr>part_of_trace_class := True\<rparr>))
            1 ((fcs dynamic_array_example ! 1)\<lparr>part_of_trace_class := True\<rparr>)"
  have v: "bt_field_class_make_part_of_trace_class 3 variant_example 1 = Inr ?v"
    by (simp add: variant_example_def heap_defs eval_nat_numeral)
  have d: "bt_field_class_make_part_of_trace_class 2 dynamic_array_example 2 = Inr ?d"
    by (simp add: dynamic_array_example_def heap_defs eval_nat_numeral)
  have ev: "child_edges variant_example = {(1, 2)}"
    by (auto simp: child_edges_def child_fcs_def variant_example_def heap_defs
        less_Suc_eq eval_nat_numeral)
  have ed: "child_edges dynamic_array_example = {(2, 1)}"
    by (auto simp: child_edges_def child_fcs_def dynamic_array_example_def heap_defs
        less_Suc_eq eval_nat_numeral)
  have nv: "(1, 0) \<notin> (child_edges variant_example)\<^sup>*"
    using rtrancl_target[of 1 0 "child_edges variant_example"] by (auto simp: ev)
  have nd: "(2, 0) \<notin> (child_edges dynamic_array_example)\<^sup>*"
    using rtrancl_target[of 2 0 "child_edges dynamic_array_example"] by (auto simp: ed)
  have sv: "fc_at variant_example 1 = Some (fcs variant_example ! 1) \<and>
      (selector_fc (fcs variant_example ! 1) = Some 0 \<or>
       length_fc (fcs variant_example ! 1) = Some 0) \<and>
      (1, 0) \<notin> (child_edges variant_example)\<^sup>*"
    using nv by (simp add: variant_example_def heap_defs)
  have sd: "fc_at dynamic_array_example 2 = Some (fcs dynamic_array_example ! 2) \<and>
      (selector_fc (fcs dynamic_array_example ! 2) = Some 0 \<or>
       length_fc (fcs dynamic_array_example ! 2) = Some 0) \<and>
      (2, 0) \<notin> (child_edges dynamic_array_example)\<^sup>*"
    using nd by (simp add: dynamic_array_example_def heap_defs)
  note tv = make_part_of_trace_class_frame[OF v, THEN conjunct2, THEN conjunct2,
      THEN conjunct2, THEN conjunct2, THEN spec, THEN spec, THEN mp, OF sv]
  note td = make_part_of_trace_class_frame[OF d, THEN conjunct2, THEN conjunct2,
      THEN conjunct2, THEN conjunct2, THEN spec, THEN spec, THEN mp, OF sd]
  from v tv d td show ?thesis by (intro conjI)
qed

text \<open>
  C10 as stated fails where the selector is also reached as a member or option: the
  selector of the variant in \<open>selector_option_example\<close> is its option \<open>x\<close>, and the
  selector of the variant in \<open>tagged_struct_example\<close> is the member \<open>tag\<close> of the
  structure holding the variant. In both the call marks the selector.
\<close>

theorem make_part_of_trace_class_marks_selector:
  "bt_field_class_make_part_of_trace_class 3 selector_option_example 1 =
     Inr (set_fc (set_fc selector_option_example 1
            ((fcs selector_option_example ! 1)\<lparr>part_of_trace_class := True\<rparr>))
            0 ((fcs selector_option_example ! 0)\<lparr>part_of_trace_class := True\<rparr>)) \<and>
   selector_fc (fcs selector_option_example ! 1) = Some 0 \<and>
   \<not> part_of_trace_class (fcs selector_option_example ! 0) \<and>
   part_of_trace_class
     (fcs (set_fc (set_fc selector_option_example 1
            ((fcs selector_option_example ! 1)\<lparr>part_of_trace_class := True\<rparr>))
            0 ((fcs selector_option_example ! 0)\<lparr>part_of_trace_class := True\<rparr>)) ! 0) \<and>
   bt_field_class_make_part_of_trace_class 5 tagged_struct_example 2 =
     Inr (set_fc (set_fc (set_fc tagged_struct_example 2
            ((fcs tagged_struct_example ! 2)\<lparr>part_of_trace_class := True\<rparr>))
            0 ((fcs tagged_struct_example ! 0)\<lparr>part_of_trace_class := True\<rparr>))
            1 ((fcs tagged_struct_example ! 1)\<lparr>part_of_trace_class := True\<rparr>)) \<and>
   selector_fc (fcs tagged_struct_example ! 1) = Some 0 \<and>
   \<not> part_of_trace_class (fcs tagged_struct_example ! 0)"
  by (simp add: selector_option_example_def tagged_struct_example_def heap_defs eval_nat_numeral)

section \<open>Freezing: what changes\<close>

lemma fc_freezes_only_refl: "fc_freezes_only f f"
  by (simp add: fc_freezes_only_def)

lemma fc_freezes_only_trans:
  assumes "fc_freezes_only f1 f2" and "fc_freezes_only f2 f3"
  shows "fc_freezes_only f1 f3"
proof -
  from assms have e12: "f2 = f1\<lparr>frozen := frozen f2, named_fcs := named_fcs f2\<rparr>"
    and e23: "f3 = f2\<lparr>frozen := frozen f3, named_fcs := named_fcs f3\<rparr>"
    by (simp_all add: fc_freezes_only_def)
  have e13: "f3 = f1\<lparr>frozen := frozen f3, named_fcs := named_fcs f3\<rparr>"
    by (subst e23, subst e12) simp
  from assms have l: "length (named_fcs f2) = length (named_fcs f1)"
    "length (named_fcs f3) = length (named_fcs f2)"
    by (simp_all add: fc_freezes_only_def)
  have n: "named_fcs f3 ! i = (named_fcs f1 ! i)\<lparr>nfc_frozen := nfc_frozen (named_fcs f3 ! i)\<rparr> \<and>
         (nfc_frozen (named_fcs f1 ! i) \<longrightarrow> nfc_frozen (named_fcs f3 ! i))"
    if "i < length (named_fcs f1)" for i
  proof -
    from assms(1) that
    have a: "named_fcs f2 ! i = (named_fcs f1 ! i)\<lparr>nfc_frozen := nfc_frozen (named_fcs f2 ! i)\<rparr>"
      and a': "nfc_frozen (named_fcs f1 ! i) \<longrightarrow> nfc_frozen (named_fcs f2 ! i)"
      by (simp_all add: fc_freezes_only_def)
    from assms(2) that l
    have b: "named_fcs f3 ! i = (named_fcs f2 ! i)\<lparr>nfc_frozen := nfc_frozen (named_fcs f3 ! i)\<rparr>"
      and b': "nfc_frozen (named_fcs f2 ! i) \<longrightarrow> nfc_frozen (named_fcs f3 ! i)"
      by (simp_all add: fc_freezes_only_def)
    have "named_fcs f3 ! i = (named_fcs f1 ! i)\<lparr>nfc_frozen := nfc_frozen (named_fcs f3 ! i)\<rparr>"
      by (subst b, subst a) simp
    with a' b' show ?thesis by simp
  qed
  from assms have fr: "frozen f1 \<longrightarrow> frozen f3" by (simp add: fc_freezes_only_def)
  from e13 fr l n show ?thesis unfolding fc_freezes_only_def by simp
qed

lemma freezes_only_refl: "freezes_only h h"
  by (simp add: freezes_only_def fc_freezes_only_refl)

lemma freezes_only_trans: "freezes_only h1 h2 \<Longrightarrow> freezes_only h2 h3 \<Longrightarrow> freezes_only h1 h3"
  unfolding freezes_only_def by (metis fc_freezes_only_trans)

lemma freezes_only_set_frozen:
  "fc_at h a = Some f \<Longrightarrow> freezes_only h (set_fc h a (f\<lparr>frozen := True\<rparr>))"
  by (auto simp: freezes_only_def fc_freezes_only_def fc_at_def set_fc_def nth_list_update
      split: if_splits)

lemma nth_set_nfc_frozen:
  "k < length xs \<Longrightarrow>
   xs[i := (xs ! i)\<lparr>nfc_frozen := True\<rparr>] ! k =
     (xs ! k)\<lparr>nfc_frozen := nfc_frozen (xs[i := (xs ! i)\<lparr>nfc_frozen := True\<rparr>] ! k)\<rparr> \<and>
   (nfc_frozen (xs ! k) \<longrightarrow> nfc_frozen (xs[i := (xs ! i)\<lparr>nfc_frozen := True\<rparr>] ! k))"
  by (cases "k = i") simp_all

lemma fc_freezes_only_set_named:
  "fc_freezes_only f
     (f\<lparr>named_fcs := (named_fcs f)[i := (named_fcs f ! i)\<lparr>nfc_frozen := True\<rparr>]\<rparr>)"
  unfolding fc_freezes_only_def using nth_set_nfc_frozen[of _ "named_fcs f" i] by simp

lemma freezes_only_set_named:
  assumes "fc_at h a = Some f"
  shows "freezes_only h (set_fc h a
     (f\<lparr>named_fcs := (named_fcs f)[i := (named_fcs f ! i)\<lparr>nfc_frozen := True\<rparr>]\<rparr>))"
proof -
  from assms have al: "a < length (fcs h)" and fa: "fcs h ! a = f"
    by (auto simp: fc_at_def split: if_splits)
  have "fc_freezes_only (fcs h ! b) (fcs (set_fc h a
     (f\<lparr>named_fcs := (named_fcs f)[i := (named_fcs f ! i)\<lparr>nfc_frozen := True\<rparr>]\<rparr>)) ! b)"
    if "b < length (fcs h)" for b
  proof (cases "b = a")
    case True
    with al fa fc_freezes_only_set_named[of f i] show ?thesis by (simp add: set_fc_def)
  next
    case False
    then show ?thesis by (simp add: set_fc_def fc_freezes_only_refl)
  qed
  then show ?thesis by (simp add: freezes_only_def set_fc_def)
qed

lemma freeze_freezes_only:
  "bt_field_class_freeze n h a = Inr h' \<Longrightarrow> freezes_only h h'"
  "freeze_named_fcs n h a i = Inr h' \<Longrightarrow> freezes_only h h'"
proof (induction n h a and n h a i arbitrary: h' and h'
    rule: bt_field_class_freeze_freeze_named_fcs.induct)
  case (1 h a)
  then show ?case by simp
next
  case (2 n h a)
  from "2.prems" obtain f where f: "fc_at h a = Some f" by (auto split: option.splits)
  let ?h1 = "set_fc h a (f\<lparr>frozen := True\<rparr>)"
  have m1: "freezes_only h ?h1" by (rule freezes_only_set_frozen[OF f])
  show ?case
  proof (cases "fc_is_container (fc_type f)")
    case True
    with "2.prems" f have "freeze_named_fcs n ?h1 a 0 = Inr h'" by simp
    from m1 "2.IH"[OF f True this] show ?thesis by (rule freezes_only_trans)
  next
    case False
    with "2.prems" f have "h' = ?h1" by simp
    with m1 show ?thesis by simp
  qed
next
  case (3 h a i)
  then show ?case by simp
next
  case (4 n h a i)
  from "4.prems" obtain f where f: "fc_at h a = Some f" by (auto split: option.splits)
  show ?case
  proof (cases "i < length (named_fcs f)")
    case True
    let ?h1 = "set_fc h a
      (f\<lparr>named_fcs := (named_fcs f)[i := (named_fcs f ! i)\<lparr>nfc_frozen := True\<rparr>]\<rparr>)"
    have m1: "freezes_only h ?h1" by (rule freezes_only_set_named[OF f])
    from True "4.prems" f obtain h2 where
      h2: "bt_field_class_freeze n ?h1 (fc (named_fcs f ! i)) = Inr h2"
      and r: "freeze_named_fcs n h2 a (i + 1) = Inr h'"
      by (auto split: sum.splits)
    from m1 "4.IH"(1)[OF f True h2] have "freezes_only h h2" by (rule freezes_only_trans)
    from this "4.IH"(2)[OF f True h2 r] show ?thesis by (rule freezes_only_trans)
  next
    case False
    with "4.prems" f show ?thesis by (simp add: freezes_only_refl)
  qed
qed

lemma freezes_only_fields:
  assumes "freezes_only h h'" and "b < length (fcs h)"
  shows "fc_type (fcs h' ! b) = fc_type (fcs h ! b)"
    and "element_fc (fcs h' ! b) = element_fc (fcs h ! b)"
    and "part_of_trace_class (fcs h' ! b) = part_of_trace_class (fcs h ! b)"
    and "map fc (named_fcs (fcs h' ! b)) = map fc (named_fcs (fcs h ! b))"
    and "frozen (fcs h ! b) \<Longrightarrow> frozen (fcs h' ! b)"
    and "length_fc (fcs h' ! b) = length_fc (fcs h ! b)"
    and "selector_fc (fcs h' ! b) = selector_fc (fcs h ! b)"
proof -
  from assms have r: "fc_freezes_only (fcs h ! b) (fcs h' ! b)" by (simp add: freezes_only_def)
  then have e: "fcs h' ! b =
      (fcs h ! b)\<lparr>frozen := frozen (fcs h' ! b), named_fcs := named_fcs (fcs h' ! b)\<rparr>"
    by (simp add: fc_freezes_only_def)
  show "fc_type (fcs h' ! b) = fc_type (fcs h ! b)" by (subst e) simp
  show "element_fc (fcs h' ! b) = element_fc (fcs h ! b)" by (subst e) simp
  show "part_of_trace_class (fcs h' ! b) = part_of_trace_class (fcs h ! b)" by (subst e) simp
  show "length_fc (fcs h' ! b) = length_fc (fcs h ! b)" by (subst e) simp
  show "selector_fc (fcs h' ! b) = selector_fc (fcs h ! b)" by (subst e) simp
  show "frozen (fcs h ! b) \<Longrightarrow> frozen (fcs h' ! b)" using r by (simp add: fc_freezes_only_def)
  show "map fc (named_fcs (fcs h' ! b)) = map fc (named_fcs (fcs h ! b))"
  proof (rule nth_equalityI)
    show "length (map fc (named_fcs (fcs h' ! b))) = length (map fc (named_fcs (fcs h ! b)))"
      using r by (simp add: fc_freezes_only_def)
  next
    fix i assume "i < length (map fc (named_fcs (fcs h' ! b)))"
    with r have i: "i < length (named_fcs (fcs h ! b))"
      "i < length (named_fcs (fcs h' ! b))" by (simp_all add: fc_freezes_only_def)
    with r have "named_fcs (fcs h' ! b) ! i =
        (named_fcs (fcs h ! b) ! i)\<lparr>nfc_frozen := nfc_frozen (named_fcs (fcs h' ! b) ! i)\<rparr>"
      by (simp add: fc_freezes_only_def)
    then have "fc (named_fcs (fcs h' ! b) ! i) = fc (named_fcs (fcs h ! b) ! i)"
      by (metis bt_named_field_class.select_convs(2) bt_named_field_class.surjective
          bt_named_field_class.update_convs(3))
    with i show "map fc (named_fcs (fcs h' ! b)) ! i = map fc (named_fcs (fcs h ! b)) ! i"
      by simp
  qed
qed

lemma freezes_only_length: "freezes_only h h' \<Longrightarrow> length (fcs h') = length (fcs h)"
  by (simp add: freezes_only_def)

lemma freeze_sets_frozen:
  assumes "bt_field_class_freeze n h a = Inr h'"
  shows "a < length (fcs h) \<and> frozen (fcs h' ! a)"
proof (cases n)
  case 0
  with assms show ?thesis by simp
next
  case (Suc m)
  with assms obtain f where f: "fc_at h a = Some f" by (auto split: option.splits)
  let ?h1 = "set_fc h a (f\<lparr>frozen := True\<rparr>)"
  from f have al: "a < length (fcs h)" by (auto simp: fc_at_def split: if_splits)
  then have p1: "frozen (fcs ?h1 ! a)" and l1: "a < length (fcs ?h1)"
    by (simp_all add: set_fc_def)
  have "freezes_only ?h1 h'"
    using assms Suc f
    by (auto split: if_splits intro: freeze_freezes_only freezes_only_refl)
  from freezes_only_fields(5)[OF this l1 p1] al show ?thesis by simp
qed

lemma int_not_container: "fc_is_int t \<Longrightarrow> \<not> fc_is_container t"
  by (auto simp: fc_is_int_def fc_is_container_def)

lemma unsigned_int_not_container: "fc_is_unsigned_int t \<Longrightarrow> \<not> fc_is_container t"
  by (auto simp: fc_is_unsigned_int_def fc_is_container_def)

lemma freeze_leaf:
  "fc_at h a = Some f \<Longrightarrow> \<not> fc_is_container (fc_type f) \<Longrightarrow>
   bt_field_class_freeze (Suc n) h a = Inr (set_fc h a (f\<lparr>frozen := True\<rparr>))"
  by simp

lemma variant_create_freezes_selector:
  assumes s: "fc_at h s = Some sf" and int: "fc_is_int (fc_type sf)"
  shows "\<exists>h' vf. bt_field_class_variant_create (Suc n) h (Some s) = Inr (h', length (fcs h)) \<and>
           fc_at h' s = Some (sf\<lparr>frozen := True\<rparr>) \<and>
           fc_at h' (length (fcs h)) = Some vf \<and> selector_fc vf = Some s \<and>
           named_fcs vf = [] \<and> \<not> part_of_trace_class vf \<and> \<not> frozen vf"
proof -
  let ?vf = "(init_named_field_classes_container zeroed_field_class
      (if fc_type sf = UNSIGNED_INTEGER \<or> fc_type sf = UNSIGNED_ENUMERATION
       then VARIANT_WITH_UNSIGNED_SELECTOR
       else VARIANT_WITH_SIGNED_SELECTOR))\<lparr>selector_fc := Some s\<rparr>"
  let ?h1 = "h\<lparr>fcs := fcs h @ [?vf]\<rparr>"
  from s have sl: "s < length (fcs h)" and sa: "fcs h ! s = sf"
    by (auto simp: fc_at_def split: if_splits)
  then have s1: "fc_at ?h1 s = Some sf" by (simp add: fc_at_def nth_append)
  have fr: "bt_field_class_freeze (Suc n) ?h1 s = Inr (set_fc ?h1 s (sf\<lparr>frozen := True\<rparr>))"
    by (rule freeze_leaf[OF s1 int_not_container[OF int]])
  have cr: "bt_field_class_variant_create (Suc n) h (Some s) =
      Inr (set_fc ?h1 s (sf\<lparr>frozen := True\<rparr>), length (fcs h))"
    using s int fr by (simp add: bt_field_class_variant_create_def alloc_fc_def)
  have a: "fc_at (set_fc ?h1 s (sf\<lparr>frozen := True\<rparr>)) s = Some (sf\<lparr>frozen := True\<rparr>)"
    using sl by (simp add: fc_at_def set_fc_def)
  have b: "fc_at (set_fc ?h1 s (sf\<lparr>frozen := True\<rparr>)) (length (fcs h)) = Some ?vf"
    using sl by (simp add: fc_at_def set_fc_def nth_append)
  have c: "selector_fc ?vf = Some s \<and> named_fcs ?vf = [] \<and> \<not> part_of_trace_class ?vf \<and>
      \<not> frozen ?vf"
    by (simp add: init_named_field_classes_container_def init_field_class_def
        zeroed_field_class_def)
  from cr a b c show ?thesis by blast
qed

lemma dynamic_array_create_freezes_length:
  assumes arr: "init_array_field_class n h zeroed_field_class DYNAMIC_ARRAY e = Inr (h1, arr)"
    and l: "fc_at h l = Some lf" and u: "fc_is_unsigned_int (fc_type lf)"
  shows "\<exists>h' lf' af. bt_field_class_dynamic_array_create n h e (Some l) = Inr (h', arr) \<and>
           fc_at h' l = Some lf' \<and> frozen lf' \<and>
           fc_at h' arr = Some af \<and> length_fc af = Some l \<and> element_fc af = Some e \<and>
           \<not> part_of_trace_class af"
proof -
  let ?af0 = "(init_field_class zeroed_field_class DYNAMIC_ARRAY)\<lparr>element_fc := Some e\<rparr>"
  let ?h0 = "h\<lparr>fcs := fcs h @ [?af0]\<rparr>"
  from arr obtain ef where ef: "fc_at h e = Some ef"
    and a: "arr = length (fcs h)"
    and fz: "bt_field_class_freeze n ?h0 e = Inr h1"
    by (auto simp: init_array_field_class_def alloc_fc_def split: option.splits sum.splits)
  from fz obtain m where n: "n = Suc m" by (cases n) auto
  have fo: "freezes_only ?h0 h1" by (rule freeze_freezes_only(1)[OF fz])
  have len1: "length (fcs h1) = Suc (length (fcs h))"
    using freezes_only_length[OF fo] by simp
  from l have ll: "l < length (fcs h)" and la: "fcs h ! l = lf"
    by (auto simp: fc_at_def split: if_splits)
  then have l0: "l < length (fcs ?h0)" "fcs ?h0 ! l = lf" by (simp_all add: nth_append)
  have al0: "arr < length (fcs ?h0)" "fcs ?h0 ! arr = ?af0" by (simp_all add: a)
  have lt: "fc_type (fcs h1 ! l) = fc_type lf"
    using freezes_only_fields(1)[OF fo l0(1)] l0(2) by simp
  have l1: "fc_at h1 l = Some (fcs h1 ! l)" using ll len1 by (simp add: fc_at_def)
  have a1: "fc_at h1 arr = Some (fcs h1 ! arr)" using a len1 by (simp add: fc_at_def)
  let ?af = "(fcs h1 ! arr)\<lparr>length_fc := Some l\<rparr>"
  let ?h2 = "set_fc h1 arr ?af"
  have ne: "l \<noteq> arr" using ll a by simp
  have l2: "fc_at ?h2 l = Some (fcs h1 ! l)"
    using ll len1 ne by (simp add: fc_at_def set_fc_def)
  have nc: "\<not> fc_is_container (fc_type (fcs h1 ! l))"
    using lt u by (simp add: unsigned_int_not_container)
  let ?h3 = "set_fc ?h2 l ((fcs h1 ! l)\<lparr>frozen := True\<rparr>)"
  have fr: "bt_field_class_freeze n ?h2 l = Inr ?h3"
    unfolding n by (rule freeze_leaf[OF l2 nc])
  have cr: "bt_field_class_dynamic_array_create n h e (Some l) = Inr (?h3, arr)"
    using arr l1 lt u a1 fr by (simp add: bt_field_class_dynamic_array_create_def)
  have r1: "fc_at ?h3 l = Some ((fcs h1 ! l)\<lparr>frozen := True\<rparr>)"
    using ll len1 by (simp add: fc_at_def set_fc_def)
  have r2: "fc_at ?h3 arr = Some ?af"
    using a len1 ne by (simp add: fc_at_def set_fc_def)
  have r3: "element_fc ?af = Some e \<and> \<not> part_of_trace_class ?af"
    using freezes_only_fields(2,3)[OF fo al0(1)] al0(2)
    by (simp add: init_field_class_def zeroed_field_class_def)
  from cr r1 r2 r3 show ?thesis by auto
qed

section \<open>Well-formed heaps\<close>

text \<open>
  Adding a field class that nothing points to keeps the child relation acyclic; updates
  that keep the children of every field class keep the relation.
\<close>

lemma acyclic_new_source:
  assumes ac: "acyclic E"
    and new: "\<And>p c. (p, c) \<in> E' \<Longrightarrow> (p, c) \<in> E \<or> p = a"
    and tgt: "\<And>p. (p, a) \<notin> E'"
  shows "acyclic E'"
proof -
  have path: "(x, y) \<in> E\<^sup>+ \<or> x = a" if "(x, y) \<in> E'\<^sup>+" for x y
    using that
  proof (induction rule: trancl_induct)
    case (base y)
    from new[OF this] show ?case by blast
  next
    case (step y z)
    show ?case
    proof (cases "x = a")
      case True
      then show ?thesis by simp
    next
      case False
      with step.IH have xy: "(x, y) \<in> E\<^sup>+" by simp
      from step.hyps(1) have "\<exists>p. (p, y) \<in> E'" by (metis tranclE)
      with tgt have "y \<noteq> a" by blast
      with new[OF step.hyps(2)] have "(y, z) \<in> E" by simp
      with xy show ?thesis by (meson trancl.trancl_into_trancl)
    qed
  qed
  have "(x, x) \<notin> E'\<^sup>+" for x
  proof
    assume c: "(x, x) \<in> E'\<^sup>+"
    from path[OF c] ac have "x = a" by (auto simp: acyclic_def)
    moreover from c have "\<exists>p. (p, x) \<in> E'" by (metis tranclE)
    ultimately show False using tgt by blast
  qed
  then show ?thesis by (simp add: acyclic_def)
qed

lemma child_edges_related:
  assumes "length (fcs h') = length (fcs h)"
    and "\<And>b. b < length (fcs h) \<Longrightarrow> child_fcs (fcs h' ! b) = child_fcs (fcs h ! b)"
  shows "child_edges h' = child_edges h"
  using assms by (auto simp: child_edges_def)

lemma child_edges_set_fc:
  assumes "(p, c) \<in> child_edges (set_fc h a f')"
  shows "(p, c) \<in> child_edges h \<or> (p = a \<and> c \<in> set (child_fcs f'))"
  using assms by (cases "p = a") (auto simp: child_edges_def set_fc_def)

lemma child_edges_alloc:
  assumes "(p, c) \<in> child_edges (fst (alloc_fc h f))"
  shows "(p, c) \<in> child_edges h \<or> (p = length (fcs h) \<and> c \<in> set (child_fcs f))"
  using assms by (cases "p < length (fcs h)") (auto simp: child_edges_def alloc_fc_def nth_append)

lemma finite_child_edges: "finite (child_edges h)"
proof -
  have "child_edges h \<subseteq> (\<Union>p\<in>{..<length (fcs h)}. (\<lambda>c. (p, c)) ` set (child_fcs (fcs h ! p)))"
    by (auto simp: child_edges_def)
  moreover have "finite (\<Union>p\<in>{..<length (fcs h)}. (\<lambda>c. (p, c)) ` set (child_fcs (fcs h ! p)))"
    by simp
  ultimately show ?thesis by (rule finite_subset)
qed

lemma children_frozen_nth:
  "children_frozen h \<longleftrightarrow>
     (\<forall>b<length (fcs h). \<forall>c\<in>set (child_fcs (fcs h ! b)).
        c < length (fcs h) \<and> frozen (fcs h ! c))"
  unfolding children_frozen_def list_all_iff by (rule all_set_conv_all_nth)

lemma heap_wf_nth:
  "heap_wf h \<longleftrightarrow>
     (children_frozen h \<and> acyclic (child_edges h) \<and>
      (\<forall>b<length (fcs h). fc_wf (length (range_sets h)) (fcs h ! b)))"
  by (simp add: heap_wf_def list_all_length)

lemma fc_wf_mono: "fc_wf R f \<Longrightarrow> R \<le> R' \<Longrightarrow> fc_wf R' f"
  by (auto simp: fc_wf_def list_all_iff)

lemma heap_wf_empty: "heap_wf empty_heap"
  by (simp add: heap_wf_def children_frozen_def child_edges_def empty_heap_def acyclic_def)

lemma no_edge_to_unfrozen:
  "children_frozen h \<Longrightarrow> (p, c) \<in> child_edges h \<Longrightarrow> c < length (fcs h) \<and> frozen (fcs h ! c)"
  by (auto simp: children_frozen_nth child_edges_def)

lemma children_frozen_related:
  assumes cf: "children_frozen h"
    and l: "length (fcs h') = length (fcs h)"
    and ch: "\<And>b. b < length (fcs h) \<Longrightarrow> child_fcs (fcs h' ! b) = child_fcs (fcs h ! b)"
    and fr: "\<And>b. b < length (fcs h) \<Longrightarrow> frozen (fcs h ! b) \<Longrightarrow> frozen (fcs h' ! b)"
  shows "children_frozen h'"
  unfolding children_frozen_nth
proof (intro allI impI ballI)
  fix b c assume b: "b < length (fcs h')" and c: "c \<in> set (child_fcs (fcs h' ! b))"
  from b l have b': "b < length (fcs h)" by simp
  with c ch have "c \<in> set (child_fcs (fcs h ! b))" by simp
  with cf b' have "c < length (fcs h)" "frozen (fcs h ! c)"
    by (simp_all add: children_frozen_nth)
  with fr l show "c < length (fcs h') \<and> frozen (fcs h' ! c)" by simp
qed

lemma heap_wf_set_fc:
  assumes wf: "heap_wf h" and a: "a < length (fcs h)"
    and f': "fc_wf (length (range_sets h)) f'"
    and fr: "frozen (fcs h ! a) \<Longrightarrow> frozen f'"
    and ch: "\<And>c. c \<in> set (child_fcs f') \<Longrightarrow>
        c \<in> set (child_fcs (fcs h ! a)) \<or> (c < length (fcs h) \<and> frozen (fcs h ! c))"
    and nw: "frozen (fcs h ! a) \<Longrightarrow> set (child_fcs f') \<subseteq> set (child_fcs (fcs h ! a))"
  shows "heap_wf (set_fc h a f')"
proof -
  from wf have cf0: "children_frozen h" and ac0: "acyclic (child_edges h)"
    by (simp_all add: heap_wf_def)
  have 2: "acyclic (child_edges (set_fc h a f'))"
  proof (cases "frozen (fcs h ! a)")
    case True
    have "child_edges (set_fc h a f') \<subseteq> child_edges h"
    proof
      fix e assume e: "e \<in> child_edges (set_fc h a f')"
      obtain p c where pc: "e = (p, c)" by (cases e)
      from child_edges_set_fc[of p c h a f'] e pc nw[OF True] a
      show "e \<in> child_edges h" by (auto simp: child_edges_def)
    qed
    with ac0 show ?thesis by (rule acyclic_subset)
  next
    case False
    have na: "(p, a) \<notin> child_edges h" for p
      using no_edge_to_unfrozen[OF cf0, of p a] False by blast
    show ?thesis
    proof (rule acyclic_new_source[OF ac0, of _ a])
      fix p c assume "(p, c) \<in> child_edges (set_fc h a f')"
      from child_edges_set_fc[OF this] show "(p, c) \<in> child_edges h \<or> p = a" by blast
    next
      fix p show "(p, a) \<notin> child_edges (set_fc h a f')"
      proof
        assume "(p, a) \<in> child_edges (set_fc h a f')"
        from child_edges_set_fc[OF this] na have "a \<in> set (child_fcs f')" by blast
        from ch[OF this] False a na[of a] show False by (auto simp: child_edges_def)
      qed
    qed
  qed
  have "c < length (fcs (set_fc h a f')) \<and> frozen (fcs (set_fc h a f') ! c)"
    if b: "b < length (fcs (set_fc h a f'))"
      and c: "c \<in> set (child_fcs (fcs (set_fc h a f') ! b))" for b c
  proof -
  from b have b': "b < length (fcs h)" by (simp add: set_fc_def)
  from wf have cf: "\<And>p c. p < length (fcs h) \<Longrightarrow> c \<in> set (child_fcs (fcs h ! p)) \<Longrightarrow>
      c < length (fcs h) \<and> frozen (fcs h ! c)"
    by (simp add: heap_wf_def children_frozen_nth)
  have old: "c < length (fcs h) \<and> frozen (fcs h ! c)"
  proof (cases "b = a")
    case True
    with c a have "c \<in> set (child_fcs f')" by (simp add: set_fc_def)
    from ch[OF this] cf[OF a] show ?thesis by blast
  next
    case False
    with c have "c \<in> set (child_fcs (fcs h ! b))" by (simp add: set_fc_def)
    from cf[OF b' this] show ?thesis .
  qed
  then show "c < length (fcs (set_fc h a f')) \<and> frozen (fcs (set_fc h a f') ! c)"
    using fr by (cases "c = a") (simp_all add: set_fc_def)
  qed
  then have 1: "children_frozen (set_fc h a f')" unfolding children_frozen_nth by blast
  have "fc_wf (length (range_sets (set_fc h a f'))) (fcs (set_fc h a f') ! b)"
    if b: "b < length (fcs (set_fc h a f'))" for b
  proof -
    from b have b': "b < length (fcs h)" by (simp add: set_fc_def)
    with wf have "fc_wf (length (range_sets h)) (fcs h ! b)" by (simp add: heap_wf_nth)
    with f' b' show ?thesis by (cases "b = a") (simp_all add: set_fc_def)
  qed
  with 1 2 show ?thesis unfolding heap_wf_nth by blast
qed

lemma heap_wf_alloc:
  assumes wf: "heap_wf h" and f: "fc_wf (length (range_sets h)) f" and ch: "child_fcs f = []"
  shows "heap_wf (fst (alloc_fc h f))"
proof -
  have "c < length (fcs (fst (alloc_fc h f))) \<and> frozen (fcs (fst (alloc_fc h f)) ! c)"
    if b: "b < length (fcs (fst (alloc_fc h f)))"
      and c: "c \<in> set (child_fcs (fcs (fst (alloc_fc h f)) ! b))" for b c
  proof -
  from c ch have "b \<noteq> length (fcs h)" by (auto simp: alloc_fc_def)
  with b have b': "b < length (fcs h)" by (simp add: alloc_fc_def)
  with c have "c \<in> set (child_fcs (fcs h ! b))" by (simp add: alloc_fc_def nth_append)
  with wf b' have "c < length (fcs h) \<and> frozen (fcs h ! c)"
    by (simp add: heap_wf_def children_frozen_nth)
  then show "c < length (fcs (fst (alloc_fc h f))) \<and> frozen (fcs (fst (alloc_fc h f)) ! c)"
    by (simp add: alloc_fc_def nth_append)
  qed
  then have 1: "children_frozen (fst (alloc_fc h f))" unfolding children_frozen_nth by blast
  have "child_edges (fst (alloc_fc h f)) \<subseteq> child_edges h"
  proof
    fix e assume e: "e \<in> child_edges (fst (alloc_fc h f))"
    obtain p c where pc: "e = (p, c)" by (cases e)
    from child_edges_alloc[of p c h f] e pc ch show "e \<in> child_edges h" by simp
  qed
  with wf have 2: "acyclic (child_edges (fst (alloc_fc h f)))"
    by (auto simp: heap_wf_def intro: acyclic_subset)
  have "fc_wf (length (range_sets (fst (alloc_fc h f)))) (fcs (fst (alloc_fc h f)) ! b)"
    if b: "b < length (fcs (fst (alloc_fc h f)))" for b
  proof (cases "b < length (fcs h)")
    case True
    with wf show ?thesis by (simp add: heap_wf_nth alloc_fc_def nth_append)
  next
    case False
    with b have "b = length (fcs h)" by (simp add: alloc_fc_def)
    with f show ?thesis by (simp add: alloc_fc_def)
  qed
  with 1 2 show ?thesis unfolding heap_wf_nth by blast
qed

lemma freezes_only_child_fcs:
  assumes "freezes_only h h'" and "b < length (fcs h)"
  shows "child_fcs (fcs h' ! b) = child_fcs (fcs h ! b)"
  using freezes_only_fields(1,2,4)[OF assms] by (simp add: child_fcs_def)

lemma fc_freezes_only_names:
  assumes "fc_freezes_only f f'"
  shows "map name (named_fcs f') = map name (named_fcs f)"
proof (rule nth_equalityI)
  show "length (map name (named_fcs f')) = length (map name (named_fcs f))"
    using assms by (simp add: fc_freezes_only_def)
next
  fix i assume "i < length (map name (named_fcs f'))"
  with assms have i: "i < length (named_fcs f)" "i < length (named_fcs f')"
    by (simp_all add: fc_freezes_only_def)
  with assms have "named_fcs f' ! i =
      (named_fcs f ! i)\<lparr>nfc_frozen := nfc_frozen (named_fcs f' ! i)\<rparr>"
    by (simp add: fc_freezes_only_def)
  then have "name (named_fcs f' ! i) = name (named_fcs f ! i)"
    by (metis bt_named_field_class.select_convs(1) bt_named_field_class.surjective
        bt_named_field_class.update_convs(3))
  with i show "map name (named_fcs f') ! i = map name (named_fcs f) ! i" by simp
qed

lemma names_indexed_by_names:
  assumes "map name (named_fcs f') = map name (named_fcs f)"
    and "name_to_index f' = name_to_index f"
  shows "container_names_indexed f' = container_names_indexed f"
proof -
  from assms(1) have l: "length (named_fcs f') = length (named_fcs f)"
    by (metis length_map)
  have n: "name (named_fcs f' ! i) = name (named_fcs f ! i)" if "i < length (named_fcs f)" for i
    using that assms(1) l by (metis nth_map)
  show ?thesis
    unfolding container_names_indexed_def list_all_iff
    using l n assms(2) by auto
qed

lemma fc_freezes_only_wf:
  assumes r: "fc_freezes_only f f'" and wf: "fc_wf R f"
  shows "fc_wf R f'"
proof -
  from r have e: "f' = f\<lparr>frozen := frozen f', named_fcs := named_fcs f'\<rparr>"
    by (simp add: fc_freezes_only_def)
  have 1: "int_range f' = int_range f" by (subst e) simp
  have 2: "mappings f' = mappings f" by (subst e) simp
  have 3: "name_to_index f' = name_to_index f" by (subst e) simp
  from names_indexed_by_names[OF fc_freezes_only_names[OF r] 3] wf 1 2
  show ?thesis by (simp add: fc_wf_def)
qed

lemma heap_wf_freezes_only:
  assumes wf: "heap_wf h" and r: "freezes_only h h'"
  shows "heap_wf h'"
proof -
  have l: "length (fcs h') = length (fcs h)" by (rule freezes_only_length[OF r])
  have rs: "range_sets h' = range_sets h" using r by (simp add: freezes_only_def)
  have cf: "children_frozen h'"
    using wf l freezes_only_child_fcs[OF r] freezes_only_fields(5)[OF r]
    by (intro children_frozen_related[of h h']) (simp_all add: heap_wf_def)
  have "fc_wf (length (range_sets h')) (fcs h' ! b)" if "b < length (fcs h')" for b
  proof -
    from that l have b: "b < length (fcs h)" by simp
    with r have "fc_freezes_only (fcs h ! b) (fcs h' ! b)" by (simp add: freezes_only_def)
    from fc_freezes_only_wf[OF this] wf b rs show ?thesis by (simp add: heap_wf_nth)
  qed
  moreover have "acyclic (child_edges h')"
    using wf child_edges_related[OF l freezes_only_child_fcs[OF r]] by (simp add: heap_wf_def)
  ultimately show ?thesis using cf by (simp add: heap_wf_nth)
qed

lemma heap_wf_marks_only:
  assumes wf: "heap_wf h" and r: "marks_only h h'"
  shows "heap_wf h'"
proof -
  have l: "length (fcs h') = length (fcs h)" by (rule marks_only_length[OF r])
  have rs: "range_sets h' = range_sets h" using r by (simp add: marks_only_def)
  have cf: "children_frozen h'"
    using wf l marks_only_fields(4,5)[OF r]
    by (intro children_frozen_related[of h h']) (simp_all add: heap_wf_def)
  have "fc_wf (length (range_sets h')) (fcs h' ! b)" if "b < length (fcs h')" for b
  proof -
    from that l have b: "b < length (fcs h)" by simp
    with r have e: "fcs h' ! b =
        (fcs h ! b)\<lparr>part_of_trace_class := part_of_trace_class (fcs h' ! b)\<rparr>"
      by (simp add: marks_only_def)
    have "fc_wf (length (range_sets h)) (fcs h' ! b) = fc_wf (length (range_sets h)) (fcs h ! b)"
      by (subst e) (simp add: fc_wf_def container_names_indexed_def)
    with wf b rs show ?thesis by (simp add: heap_wf_nth)
  qed
  moreover have "acyclic (child_edges h')"
    using wf marks_only_edges[OF r] by (simp add: heap_wf_def)
  ultimately show ?thesis using cf by (simp add: heap_wf_nth)
qed

lemma heap_wf_range_sets:
  assumes wf: "heap_wf h" and "fcs h' = fcs h" and "length (range_sets h) \<le> length (range_sets h')"
  shows "heap_wf h'"
  using assms fc_wf_mono
  by (auto simp: heap_wf_def children_frozen_def child_edges_def list_all_iff)

section \<open>Every step of the interface keeps the heap well formed\<close>

lemma fc_wf_fresh:
  "fc_wf R (init_integer_field_class zeroed_field_class t)"
  "fc_wf R ((init_integer_field_class zeroed_field_class t)\<lparr>mappings := [], label_buf := []\<rparr>)"
  "fc_wf R (init_field_class zeroed_field_class t)"
  "fc_wf R (init_named_field_classes_container zeroed_field_class t)"
  "fc_wf R ((init_named_field_classes_container zeroed_field_class t)\<lparr>selector_fc := x\<rparr>)"
  "fc_wf R ((init_field_class zeroed_field_class t)\<lparr>element_fc := y\<rparr>)"
  by (simp_all add: fc_wf_def container_names_indexed_def init_integer_field_class_def
      init_field_class_def init_named_field_classes_container_def zeroed_field_class_def)

lemma child_fcs_fresh:
  "child_fcs (init_integer_field_class zeroed_field_class t) = []"
  "child_fcs ((init_integer_field_class zeroed_field_class t)\<lparr>mappings := [], label_buf := []\<rparr>) = []"
  "child_fcs (init_field_class zeroed_field_class t) = []"
  "child_fcs (init_named_field_classes_container zeroed_field_class t) = []"
  "child_fcs ((init_named_field_classes_container zeroed_field_class t)\<lparr>selector_fc := x\<rparr>) = []"
  "set (child_fcs ((init_field_class zeroed_field_class t)\<lparr>element_fc := Some e\<rparr>)) \<subseteq> {e}"
  by (auto simp: child_fcs_def init_integer_field_class_def
      init_field_class_def init_named_field_classes_container_def zeroed_field_class_def)

lemma heap_wf_creates:
  "heap_wf h \<Longrightarrow> create_integer_field_class h t = (h', a) \<Longrightarrow> heap_wf h'"
  "heap_wf h \<Longrightarrow> create_enumeration_field_class h t = (h', a) \<Longrightarrow> heap_wf h'"
  "heap_wf h \<Longrightarrow> bt_field_class_real_create h = (h', a) \<Longrightarrow> heap_wf h'"
  "heap_wf h \<Longrightarrow> bt_field_class_string_create h = (h', a) \<Longrightarrow> heap_wf h'"
  "heap_wf h \<Longrightarrow> bt_field_class_structure_create h = (h', a) \<Longrightarrow> heap_wf h'"
  using heap_wf_alloc[OF _ fc_wf_fresh(1) child_fcs_fresh(1), of h t]
    heap_wf_alloc[OF _ fc_wf_fresh(2) child_fcs_fresh(2), of h t]
    heap_wf_alloc[OF _ fc_wf_fresh(3) child_fcs_fresh(3), of h REAL]
    heap_wf_alloc[OF _ fc_wf_fresh(3) child_fcs_fresh(3), of h STRING]
    heap_wf_alloc[OF _ fc_wf_fresh(4) child_fcs_fresh(4), of h STRUCTURE]
  by (auto simp: create_integer_field_class_def create_enumeration_field_class_def
      bt_field_class_real_create_def bt_field_class_string_create_def
      bt_field_class_structure_create_def)

lemma heap_wf_at:
  "heap_wf h \<Longrightarrow> fc_at h a = Some f \<Longrightarrow>
   a < length (fcs h) \<and> fcs h ! a = f \<and> fc_wf (length (range_sets h)) f"
  by (auto simp: heap_wf_nth fc_at_def split: if_splits)

lemma heap_wf_field_update:
  assumes wf: "heap_wf h" and at: "fc_at h a = Some f"
    and f': "fc_wf (length (range_sets h)) f'"
    and fr: "frozen f' = frozen f" and ch: "child_fcs f' = child_fcs f"
  shows "heap_wf (set_fc h a f')"
proof -
  from heap_wf_at[OF wf at] have a: "a < length (fcs h)" "fcs h ! a = f" by simp_all
  show ?thesis
    by (rule heap_wf_set_fc[OF wf a(1) f']) (simp_all add: a(2) fr ch)
qed

lemma heap_wf_setters:
  "heap_wf h \<Longrightarrow> bt_field_class_integer_set_field_value_range h a sz = Inr h' \<Longrightarrow> heap_wf h'"
  "heap_wf h \<Longrightarrow> bt_field_class_integer_set_preferred_display_base h a b = Inr h' \<Longrightarrow> heap_wf h'"
  "heap_wf h \<Longrightarrow> bt_field_class_real_set_is_single_precision h a p = Inr h' \<Longrightarrow> heap_wf h'"
  "heap_wf h \<Longrightarrow> add_mapping_to_enumeration_field_class h a l rs = Inr h' \<Longrightarrow> heap_wf h'"
  "heap_wf h \<Longrightarrow> get_mapping_labels_for_value sg h a v = Inr (h', ls, k) \<Longrightarrow> heap_wf h'"
proof -
  assume wf: "heap_wf h"
  {
    assume "bt_field_class_integer_set_field_value_range h a sz = Inr h'"
    then obtain f where f: "fc_at h a = Some f" "sz \<le> 64"
      "h' = set_fc h a (f\<lparr>int_range := sz\<rparr>)"
      by (auto simp: bt_field_class_integer_set_field_value_range_def
          split: option.splits if_splits)
    from heap_wf_at[OF wf f(1)] f(2) have "fc_wf (length (range_sets h)) (f\<lparr>int_range := sz\<rparr>)"
      by (simp add: fc_wf_def container_names_indexed_def)
    from heap_wf_field_update[OF wf f(1) this] f(3) show "heap_wf h'"
      by (simp add: child_fcs_def)
  next
    assume "bt_field_class_integer_set_preferred_display_base h a b = Inr h'"
    then obtain f where f: "fc_at h a = Some f" "h' = set_fc h a (f\<lparr>base := b\<rparr>)"
      by (auto simp: bt_field_class_integer_set_preferred_display_base_def
          split: option.splits if_splits)
    from heap_wf_at[OF wf f(1)] have "fc_wf (length (range_sets h)) (f\<lparr>base := b\<rparr>)"
      by (simp add: fc_wf_def container_names_indexed_def)
    from heap_wf_field_update[OF wf f(1) this] f(2) show "heap_wf h'"
      by (simp add: child_fcs_def)
  next
    assume "bt_field_class_real_set_is_single_precision h a p = Inr h'"
    then obtain f where f: "fc_at h a = Some f"
      "h' = set_fc h a (f\<lparr>is_single_precision := p\<rparr>)"
      by (auto simp: bt_field_class_real_set_is_single_precision_def
          split: option.splits if_splits)
    from heap_wf_at[OF wf f(1)]
    have "fc_wf (length (range_sets h)) (f\<lparr>is_single_precision := p\<rparr>)"
      by (simp add: fc_wf_def container_names_indexed_def)
    from heap_wf_field_update[OF wf f(1) this] f(2) show "heap_wf h'"
      by (simp add: child_fcs_def)
  next
    assume "add_mapping_to_enumeration_field_class h a l rs = Inr h'"
    then obtain f where f: "fc_at h a = Some f" "rs < length (range_sets h)"
      "h' = set_fc h a (f\<lparr>mappings := mappings f @ [\<lparr>label = l, range_set = rs\<rparr>]\<rparr>)"
      by (auto simp: add_mapping_to_enumeration_field_class_def rs_at_def
          split: option.splits if_splits)
    from heap_wf_at[OF wf f(1)] f(2)
    have "fc_wf (length (range_sets h))
        (f\<lparr>mappings := mappings f @ [\<lparr>label = l, range_set = rs\<rparr>]\<rparr>)"
      by (simp add: fc_wf_def container_names_indexed_def)
    from heap_wf_field_update[OF wf f(1) this] f(3) show "heap_wf h'"
      by (simp add: child_fcs_def)
  next
    assume "get_mapping_labels_for_value sg h a v = Inr (h', ls, k)"
    then obtain f where f: "fc_at h a = Some f" "h' = set_fc h a (f\<lparr>label_buf := ls\<rparr>)"
      by (auto simp: get_mapping_labels_for_value_def split: option.splits if_splits)
    from heap_wf_at[OF wf f(1)] have "fc_wf (length (range_sets h)) (f\<lparr>label_buf := ls\<rparr>)"
      by (simp add: fc_wf_def container_names_indexed_def)
    from heap_wf_field_update[OF wf f(1) this] f(2) show "heap_wf h'"
      by (simp add: child_fcs_def)
  }
qed

lemma heap_wf_freeze:
  "heap_wf h \<Longrightarrow> bt_field_class_freeze n h a = Inr h' \<Longrightarrow> heap_wf h'"
  by (rule heap_wf_freezes_only[OF _ freeze_freezes_only(1)])

lemma heap_wf_make_part:
  "heap_wf h \<Longrightarrow> bt_field_class_make_part_of_trace_class n h a = Inr h' \<Longrightarrow> heap_wf h'"
  by (rule heap_wf_marks_only[OF _ make_part_marks_only(1)])

lemma heap_wf_range_set_ops:
  "heap_wf h \<Longrightarrow> bt_integer_range_set_create h = (h', a) \<Longrightarrow> heap_wf h'"
  "heap_wf h \<Longrightarrow> bt_integer_range_set_add_range sg h a lo hi = Inr h' \<Longrightarrow> heap_wf h'"
  "heap_wf h \<Longrightarrow> bt_integer_range_set_freeze h a = Inr h' \<Longrightarrow> heap_wf h'"
  by (auto simp: bt_integer_range_set_create_def bt_integer_range_set_add_range_def
      bt_integer_range_set_freeze_def set_rs_def
      split: option.splits sum.splits intro!: heap_wf_range_sets[of h])

lemma create_named_heap_wf:
  assumes wf: "heap_wf h" and ok: "create_named_field_class n h nm m = Inr (h1, nf)"
  shows "heap_wf h1 \<and> fc nf = m \<and> m < length (fcs h1) \<and> frozen (fcs h1 ! m) \<and>
         length (range_sets h1) = length (range_sets h)"
proof -
  from ok have fz: "bt_field_class_freeze n h m = Inr h1" and nf: "fc nf = m"
    by (auto simp: create_named_field_class_def init_named_field_class_def
        bt_named_field_class_freeze_def split: option.splits sum.splits)
  have r: "freezes_only h h1" by (rule freeze_freezes_only(1)[OF fz])
  from freeze_sets_frozen[OF fz] freezes_only_length[OF r] r
  have "m < length (fcs h1)" "frozen (fcs h1 ! m)" "range_sets h1 = range_sets h"
    by (simp_all add: freezes_only_def)
  with heap_wf_freeze[OF wf fz] nf show ?thesis by simp
qed

lemma create_option_heap_wf:
  assumes wf: "heap_wf h"
    and ok: "create_variant_with_selector_option n h nm m rs = Inr (h2, nf)"
  shows "heap_wf h2 \<and> fc nf = m \<and> m < length (fcs h2) \<and> frozen (fcs h2 ! m)"
proof -
  from ok obtain h1 nf1 where c: "create_named_field_class n h nm m = Inr (h1, nf1)"
    and fr: "bt_integer_range_set_freeze h1 rs = Inr h2" and nf: "nf = nf1\<lparr>opt_range_set := Some rs\<rparr>"
    by (auto simp: create_variant_with_selector_option_def create_named_field_class_def
        split: if_splits sum.splits prod.splits)
  from create_named_heap_wf[OF wf c] have 1: "heap_wf h1" "fc nf1 = m" "m < length (fcs h1)"
    "frozen (fcs h1 ! m)" by simp_all
  from fr have "fcs h2 = fcs h1"
    by (auto simp: bt_integer_range_set_freeze_def set_rs_def split: option.splits)
  with heap_wf_range_set_ops(3)[OF 1(1) fr] 1 nf show ?thesis by simp
qed

lemma append_heap_wf:
  assumes wf: "heap_wf h" and m: "fc nf < length (fcs h)" "frozen (fcs h ! fc nf)"
    and ok: "append_named_field_class_to_container_field_class h c nf = Inr h'"
  shows "heap_wf h'"
proof -
  from ok obtain f where f: "fc_at h c = Some f" and new: "map_of (name_to_index f) (name nf) = None"
    and hot: "\<not> frozen f"
    and h': "h' = set_fc h c (f\<lparr>named_fcs := named_fcs f @ [nf],
        name_to_index := (name nf, length (named_fcs f @ [nf]) - 1) # name_to_index f\<rparr>)"
    by (auto simp: append_named_field_class_to_container_field_class_def
        split: option.splits if_splits)
  let ?f' = "f\<lparr>named_fcs := named_fcs f @ [nf],
        name_to_index := (name nf, length (named_fcs f @ [nf]) - 1) # name_to_index f\<rparr>"
  from heap_wf_at[OF wf f] have c: "c < length (fcs h)" "fcs h ! c = f"
    and fw: "fc_wf (length (range_sets h)) f" by simp_all
  from fw have ni: "container_names_indexed f" by (simp add: fc_wf_def)
  from new names_indexed_present[OF ni, of "name nf"]
  have "name nf \<notin> name ` set (named_fcs f)" by simp
  from names_indexed_append[OF ni this] fw have fw': "fc_wf (length (range_sets h)) ?f'"
    by (simp add: fc_wf_def)
  have ch: "x \<in> set (child_fcs f) \<or> (x < length (fcs h) \<and> frozen (fcs h ! x))"
    if "x \<in> set (child_fcs ?f')" for x
  proof (cases "fc_is_container (fc_type f)")
    case True
    with that have "x \<in> set (map fc (named_fcs f)) \<or> x = fc nf" by (auto simp: child_fcs_def)
    with True m show ?thesis by (auto simp: child_fcs_def)
  next
    case False
    with that show ?thesis by (simp add: child_fcs_def)
  qed
  have "heap_wf (set_fc h c ?f')"
  proof (rule heap_wf_set_fc[OF wf c(1) fw'])
    show "frozen (fcs h ! c) \<Longrightarrow> frozen ?f'" by (simp add: c(2))
  next
    fix x assume "x \<in> set (child_fcs ?f')"
    from ch[OF this] show "x \<in> set (child_fcs (fcs h ! c)) \<or>
        (x < length (fcs h) \<and> frozen (fcs h ! x))" by (simp add: c(2))
  next
    assume "frozen (fcs h ! c)"
    with hot c(2) show "set (child_fcs ?f') \<subseteq> set (child_fcs (fcs h ! c))" by simp
  qed
  with h' show ?thesis by simp
qed

lemma heap_wf_appends:
  "heap_wf h \<Longrightarrow> bt_field_class_structure_append_member n h c nm m = Inr h' \<Longrightarrow> heap_wf h'"
  "heap_wf h \<Longrightarrow> bt_field_class_variant_without_selector_append_option n h c nm m = Inr h'
   \<Longrightarrow> heap_wf h'"
  "heap_wf h \<Longrightarrow> append_option_to_variant_with_selector_field_class n h c nm m rs t = Inr h'
   \<Longrightarrow> heap_wf h'"
proof -
  assume wf: "heap_wf h"
  {
    assume "bt_field_class_structure_append_member n h c nm m = Inr h'"
    then obtain h1 nf where c: "create_named_field_class n h nm m = Inr (h1, nf)"
      and a: "append_named_field_class_to_container_field_class h1 c nf = Inr h'"
      by (auto simp: bt_field_class_structure_append_member_def
          split: option.splits if_splits sum.splits prod.splits)
    from create_named_heap_wf[OF wf c] append_heap_wf[OF _ _ _ a] show "heap_wf h'" by simp
  next
    assume "bt_field_class_variant_without_selector_append_option n h c nm m = Inr h'"
    then obtain h1 nf where c: "create_named_field_class n h nm m = Inr (h1, nf)"
      and a: "append_named_field_class_to_container_field_class h1 c nf = Inr h'"
      by (auto simp: bt_field_class_variant_without_selector_append_option_def
          split: option.splits if_splits sum.splits prod.splits)
    from create_named_heap_wf[OF wf c] append_heap_wf[OF _ _ _ a] show "heap_wf h'" by simp
  next
    assume "append_option_to_variant_with_selector_field_class n h c nm m rs t = Inr h'"
    then obtain h1 nf where c: "create_variant_with_selector_option n h nm m rs = Inr (h1, nf)"
      and a: "append_named_field_class_to_container_field_class h1 c nf = Inr h'"
      by (auto simp: append_option_to_variant_with_selector_field_class_def
          split: option.splits if_splits sum.splits prod.splits)
    from create_option_heap_wf[OF wf c] append_heap_wf[OF _ _ _ a] show "heap_wf h'" by simp
  }
qed

lemma heap_wf_alloc_freeze:
  assumes wf: "heap_wf h" and f: "fc_wf (length (range_sets h)) f"
    and ch: "set (child_fcs f) \<subseteq> {e}" and el: "e < length (fcs h)"
    and fz: "bt_field_class_freeze n (fst (alloc_fc h f)) e = Inr h1"
  shows "heap_wf h1"
proof -
  from wf have cf0: "children_frozen h" and ac0: "acyclic (child_edges h)"
    by (simp_all add: heap_wf_def)
  have ac: "acyclic (child_edges (fst (alloc_fc h f)))"
  proof (rule acyclic_new_source[OF ac0, of _ "length (fcs h)"])
    fix p c assume "(p, c) \<in> child_edges (fst (alloc_fc h f))"
    from child_edges_alloc[OF this] show "(p, c) \<in> child_edges h \<or> p = length (fcs h)"
      by blast
  next
    fix p show "(p, length (fcs h)) \<notin> child_edges (fst (alloc_fc h f))"
    proof
      assume "(p, length (fcs h)) \<in> child_edges (fst (alloc_fc h f))"
      from child_edges_alloc[OF this] no_edge_to_unfrozen[OF cf0, of p "length (fcs h)"] ch el
      show False by auto
    qed
  qed
  let ?h0 = "fst (alloc_fc h f)"
  have r: "freezes_only ?h0 h1" by (rule freeze_freezes_only(1)[OF fz])
  have l0: "length (fcs ?h0) = Suc (length (fcs h))" by (simp add: alloc_fc_def)
  have l1: "length (fcs h1) = Suc (length (fcs h))" using freezes_only_length[OF r] l0 by simp
  have rs: "range_sets h1 = range_sets h" using r by (simp add: freezes_only_def alloc_fc_def)
  from freeze_sets_frozen[OF fz] have e: "e < length (fcs ?h0)" "frozen (fcs h1 ! e)" by simp_all
  have "c < length (fcs h1) \<and> frozen (fcs h1 ! c)"
    if b: "b < length (fcs h1)" and c: "c \<in> set (child_fcs (fcs h1 ! b))" for b c
  proof -
    from b l1 l0 have b0: "b < length (fcs ?h0)" by simp
    from c freezes_only_child_fcs[OF r b0] have c0: "c \<in> set (child_fcs (fcs ?h0 ! b))" by simp
    show ?thesis
    proof (cases "b < length (fcs h)")
      case True
      with c0 have "c \<in> set (child_fcs (fcs h ! b))" by (simp add: alloc_fc_def nth_append)
      with wf True have o: "c < length (fcs h)" "frozen (fcs h ! c)"
        by (simp_all add: heap_wf_def children_frozen_nth)
      then have "c < length (fcs ?h0)" "frozen (fcs ?h0 ! c)"
        by (simp_all add: alloc_fc_def nth_append)
      from freezes_only_fields(5)[OF r this] o(1) l1 show ?thesis by simp
    next
      case False
      with b l1 have "b = length (fcs h)" by simp
      with c0 ch have "c = e" by (auto simp: alloc_fc_def)
      with e l0 l1 show ?thesis by simp
    qed
  qed
  then have cf: "children_frozen h1" unfolding children_frozen_nth by blast
  have "fc_wf (length (range_sets h1)) (fcs h1 ! b)" if b: "b < length (fcs h1)" for b
  proof -
    from b l1 l0 have b0: "b < length (fcs ?h0)" by simp
    have "fc_wf (length (range_sets h)) (fcs ?h0 ! b)"
    proof (cases "b < length (fcs h)")
      case True
      with wf show ?thesis by (simp add: heap_wf_nth alloc_fc_def nth_append)
    next
      case False
      with b l1 have "b = length (fcs h)" by simp
      with f show ?thesis by (simp add: alloc_fc_def)
    qed
    moreover from r b0 have "fc_freezes_only (fcs ?h0 ! b) (fcs h1 ! b)"
      by (simp add: freezes_only_def)
    ultimately show ?thesis using rs by (simp add: fc_freezes_only_wf)
  qed
  moreover have "acyclic (child_edges h1)"
    using ac child_edges_related[OF freezes_only_length[OF r] freezes_only_child_fcs[OF r]]
    by simp
  ultimately show ?thesis using cf unfolding heap_wf_nth by blast
qed

lemma heap_wf_variant_create:
  assumes wf: "heap_wf h" and ok: "bt_field_class_variant_create n h sel = Inr (h', a)"
  shows "heap_wf h'"
proof (cases sel)
  case None
  with ok heap_wf_alloc[OF wf fc_wf_fresh(4) child_fcs_fresh(4), of VARIANT_WITHOUT_SELECTOR]
  show ?thesis by (auto simp: bt_field_class_variant_create_def)
next
  case (Some s)
  with ok obtain t where sl: "s < length (fcs h)" and fz:
    "bt_field_class_freeze n (fst (alloc_fc h
        ((init_named_field_classes_container zeroed_field_class t)\<lparr>selector_fc := Some s\<rparr>))) s
      = Inr h'"
    by (auto simp: bt_field_class_variant_create_def alloc_fc_def fc_at_def
        split: option.splits if_splits sum.splits)
  from heap_wf_alloc_freeze[OF wf fc_wf_fresh(5) _ sl fz] show ?thesis
    by (simp add: child_fcs_fresh(5))
qed

lemma init_array_heap_wf:
  assumes wf: "heap_wf h"
    and ok: "init_array_field_class n h zeroed_field_class t e = Inr (h1, arr)"
  shows "heap_wf h1"
proof -
  from ok have el: "e < length (fcs h)" and fz: "bt_field_class_freeze n (fst (alloc_fc h
      ((init_field_class zeroed_field_class t)\<lparr>element_fc := Some e\<rparr>))) e = Inr h1"
    by (auto simp: init_array_field_class_def alloc_fc_def fc_at_def
        split: option.splits sum.splits if_splits)
  from heap_wf_alloc_freeze[OF wf fc_wf_fresh(6) child_fcs_fresh(6) el fz] show ?thesis .
qed

lemma heap_wf_array_creates:
  "heap_wf h \<Longrightarrow> bt_field_class_static_array_create n h e len = Inr (h', a) \<Longrightarrow> heap_wf h'"
  "heap_wf h \<Longrightarrow> bt_field_class_dynamic_array_create n h e len_fc = Inr (h', a) \<Longrightarrow> heap_wf h'"
proof -
  assume wf: "heap_wf h"
  {
    assume "bt_field_class_static_array_create n h e len = Inr (h', a)"
    then obtain h1 af where i: "init_array_field_class n h zeroed_field_class STATIC_ARRAY e = Inr (h1, a)"
      and af: "fc_at h1 a = Some af" and h': "h' = set_fc h1 a (af\<lparr>array_length := len\<rparr>)"
      by (auto simp: bt_field_class_static_array_create_def
          split: option.splits sum.splits prod.splits)
    have w1: "heap_wf h1" by (rule init_array_heap_wf[OF wf i])
    from heap_wf_at[OF w1 af] have "fc_wf (length (range_sets h1)) (af\<lparr>array_length := len\<rparr>)"
      by (simp add: fc_wf_def container_names_indexed_def)
    from heap_wf_field_update[OF w1 af this] h' show "heap_wf h'" by (simp add: child_fcs_def)
  next
    assume ok: "bt_field_class_dynamic_array_create n h e len_fc = Inr (h', a)"
    then obtain h1 arr where
      i: "init_array_field_class n h zeroed_field_class DYNAMIC_ARRAY e = Inr (h1, arr)"
      by (auto simp: bt_field_class_dynamic_array_create_def split: sum.splits prod.splits)
    have w1: "heap_wf h1" by (rule init_array_heap_wf[OF wf i])
    show "heap_wf h'"
    proof (cases len_fc)
      case None
      with ok i w1 show ?thesis by (simp add: bt_field_class_dynamic_array_create_def)
    next
      case (Some l)
      with ok i obtain af where af: "fc_at h1 arr = Some af"
        and fz: "bt_field_class_freeze n (set_fc h1 arr (af\<lparr>length_fc := Some l\<rparr>)) l = Inr h'"
        by (auto simp: bt_field_class_dynamic_array_create_def
            split: option.splits if_splits sum.splits)
      from heap_wf_at[OF w1 af] have "fc_wf (length (range_sets h1)) (af\<lparr>length_fc := Some l\<rparr>)"
        by (simp add: fc_wf_def container_names_indexed_def)
      from heap_wf_field_update[OF w1 af this]
      have "heap_wf (set_fc h1 arr (af\<lparr>length_fc := Some l\<rparr>))" by (simp add: child_fcs_def)
      from heap_wf_freeze[OF this fz] show ?thesis .
    qed
  }
qed

lemma api_step_heap_wf:
  assumes "api_step h h'" and "heap_wf h"
  shows "heap_wf h'"
  using assms
proof (cases rule: api_step.cases)
  case (unsigned_integer_create a)
  with assms(2) show ?thesis
    by (auto simp: bt_field_class_unsigned_integer_create_def intro: heap_wf_creates)
next
  case (signed_integer_create a)
  with assms(2) show ?thesis
    by (auto simp: bt_field_class_signed_integer_create_def intro: heap_wf_creates)
next
  case (unsigned_enumeration_create a)
  with assms(2) show ?thesis
    by (auto simp: bt_field_class_unsigned_enumeration_create_def intro: heap_wf_creates)
next
  case (signed_enumeration_create a)
  with assms(2) show ?thesis
    by (auto simp: bt_field_class_signed_enumeration_create_def intro: heap_wf_creates)
next
  case (unsigned_enumeration_add_mapping a l rs)
  with assms(2) show ?thesis
    by (auto simp: bt_field_class_unsigned_enumeration_add_mapping_def
        split: option.splits if_splits intro: heap_wf_setters)
next
  case (signed_enumeration_add_mapping a l rs)
  with assms(2) show ?thesis
    by (auto simp: bt_field_class_signed_enumeration_add_mapping_def
        split: option.splits if_splits intro: heap_wf_setters)
next
  case (unsigned_enumeration_get_mapping_labels_for_value a v ls k)
  with assms(2) show ?thesis
    by (auto simp: bt_field_class_unsigned_enumeration_get_mapping_labels_for_value_def
        intro: heap_wf_setters)
next
  case (signed_enumeration_get_mapping_labels_for_value a v ls k)
  with assms(2) show ?thesis
    by (auto simp: bt_field_class_signed_enumeration_get_mapping_labels_for_value_def
        intro: heap_wf_setters)
next
  case (variant_with_unsigned_selector_append_option n c nm m rs)
  with assms(2) show ?thesis
    by (auto simp: bt_field_class_variant_with_unsigned_selector_append_option_def
        intro: heap_wf_appends)
next
  case (variant_with_signed_selector_append_option n c nm m rs)
  with assms(2) show ?thesis
    by (auto simp: bt_field_class_variant_with_signed_selector_append_option_def
        intro: heap_wf_appends)
qed (use assms(2) in \<open>blast intro: heap_wf_creates heap_wf_setters heap_wf_appends
      heap_wf_variant_create heap_wf_array_creates heap_wf_freeze heap_wf_make_part
      heap_wf_range_set_ops\<close>)+

lemma reachable_heap_wf:
  assumes "api_step\<^sup>*\<^sup>* empty_heap h"
  shows "heap_wf h"
  using assms by (induction rule: rtranclp_induct) (auto intro: heap_wf_empty api_step_heap_wf)

section \<open>Fuel that suffices\<close>

text \<open>
  The child relation of a well-formed heap is finite and acyclic, so its converse is well
  founded: freezing and attaching return once the fuel exceeds a bound that depends on
  the heap and the field class only.
\<close>

lemma freezes_only_at:
  assumes r: "freezes_only h g" and a: "a < length (fcs h)"
  shows "fc_at g a = Some (fcs g ! a)"
    and "fc_is_container (fc_type (fcs g ! a)) = fc_is_container (fc_type (fcs h ! a))"
    and "length (named_fcs (fcs g ! a)) = length (named_fcs (fcs h ! a))"
    and "i < length (named_fcs (fcs h ! a)) \<Longrightarrow>
         fc (named_fcs (fcs g ! a) ! i) = fc (named_fcs (fcs h ! a) ! i)"
proof -
  from freezes_only_length[OF r] a show "fc_at g a = Some (fcs g ! a)" by (simp add: fc_at_def)
  from freezes_only_fields(1)[OF r a]
  show "fc_is_container (fc_type (fcs g ! a)) = fc_is_container (fc_type (fcs h ! a))" by simp
  have m: "map fc (named_fcs (fcs g ! a)) = map fc (named_fcs (fcs h ! a))"
    by (rule freezes_only_fields(4)[OF r a])
  then show l: "length (named_fcs (fcs g ! a)) = length (named_fcs (fcs h ! a))"
    by (metis length_map)
  show "fc (named_fcs (fcs g ! a) ! i) = fc (named_fcs (fcs h ! a) ! i)"
    if "i < length (named_fcs (fcs h ! a))"
    using that m l by (metis nth_map)
qed

lemma freeze_named_fuel_end:
  assumes a: "a < length (fcs h)" and i: "length (named_fcs (fcs h ! a)) \<le> i"
  shows "freeze_named_fuel_for h a i 1"
  unfolding freeze_named_fuel_for_def
proof (intro allI impI)
  fix g m assume r: "freezes_only h g" and m: "1 \<le> (m::nat)"
  then obtain m' where m': "m = Suc m'" by (cases m) auto
  from freezes_only_at(1,3)[OF r a] i
  show "\<exists>g'. freeze_named_fcs m g a i = Inr g'" by (simp add: m')
qed

lemma freeze_named_fuel_step:
  assumes a: "a < length (fcs h)" and i: "i < length (named_fcs (fcs h ! a))"
    and c: "freeze_fuel_for h (fc (named_fcs (fcs h ! a) ! i)) nc"
    and l: "freeze_named_fuel_for h a (i + 1) nl"
  shows "freeze_named_fuel_for h a i (Suc (max nc nl))"
  unfolding freeze_named_fuel_for_def
proof (intro allI impI)
  fix g m assume r: "freezes_only h g" and m: "Suc (max nc nl) \<le> m"
  then obtain m' where m': "m = Suc m'" "nc \<le> m'" "nl \<le> m'" by (cases m) auto
  let ?f = "fcs g ! a"
  let ?g1 = "set_fc g a
      (?f\<lparr>named_fcs := (named_fcs ?f)[i := (named_fcs ?f ! i)\<lparr>nfc_frozen := True\<rparr>]\<rparr>)"
  note at = freezes_only_at[OF r a]
  have r1: "freezes_only h ?g1"
    by (rule freezes_only_trans[OF r freezes_only_set_named[OF at(1)]])
  from c r1 m'(2) obtain g2 where
    g2: "bt_field_class_freeze m' ?g1 (fc (named_fcs (fcs h ! a) ! i)) = Inr g2"
    unfolding freeze_fuel_for_def by blast
  have r2: "freezes_only h g2"
    by (rule freezes_only_trans[OF r1 freeze_freezes_only(1)[OF g2]])
  from l r2 m'(3) obtain g' where "freeze_named_fcs m' g2 a (i + 1) = Inr g'"
    unfolding freeze_named_fuel_for_def by blast
  with g2 at i show "\<exists>g'. freeze_named_fcs m g a i = Inr g'" by (simp add: m'(1))
qed

lemma freeze_named_fuel_exists:
  assumes a: "a < length (fcs h)"
    and c: "\<And>i. i < length (named_fcs (fcs h ! a)) \<Longrightarrow>
        \<exists>n. freeze_fuel_for h (fc (named_fcs (fcs h ! a) ! i)) n"
  shows "\<exists>n. freeze_named_fuel_for h a (length (named_fcs (fcs h ! a)) - j) n"
proof (induction j)
  case 0
  from freeze_named_fuel_end[OF a, of "length (named_fcs (fcs h ! a))"] show ?case by auto
next
  case (Suc j)
  show ?case
  proof (cases "j < length (named_fcs (fcs h ! a))")
    case True
    let ?i = "length (named_fcs (fcs h ! a)) - Suc j"
    from True have i: "?i < length (named_fcs (fcs h ! a))"
      and s: "?i + 1 = length (named_fcs (fcs h ! a)) - j" by simp_all
    from c[OF i] obtain nc where nc: "freeze_fuel_for h (fc (named_fcs (fcs h ! a) ! ?i)) nc"
      by blast
    from Suc.IH s obtain nl where nl: "freeze_named_fuel_for h a (?i + 1) nl" by auto
    from freeze_named_fuel_step[OF a i nc nl] show ?thesis by blast
  next
    case False
    then have "length (named_fcs (fcs h ! a)) - Suc j = length (named_fcs (fcs h ! a)) - j"
      by simp
    with Suc.IH show ?thesis by simp
  qed
qed

lemma freeze_fuel_exists:
  assumes ac: "acyclic (child_edges h)"
    and valid: "\<And>p c. (p, c) \<in> child_edges h \<Longrightarrow> c < length (fcs h)"
  shows "a < length (fcs h) \<Longrightarrow> \<exists>n. freeze_fuel_for h a n"
proof -
  have w: "wf ((child_edges h)\<inverse>)"
    by (rule finite_acyclic_wf_converse[OF finite_child_edges ac])
  show "a < length (fcs h) \<Longrightarrow> \<exists>n. freeze_fuel_for h a n"
    using w
  proof (induction a rule: wf_induct_rule)
    case (less a)
    note a = less.prems
    show ?case
    proof (cases "fc_is_container (fc_type (fcs h ! a))")
      case False
      have "freeze_fuel_for h a 1"
        unfolding freeze_fuel_for_def
      proof (intro allI impI)
        fix g m assume r: "freezes_only h g" and m: "1 \<le> (m::nat)"
        then obtain m' where m': "m = Suc m'" by (cases m) auto
        from freezes_only_at(1,2)[OF r a] False
        show "\<exists>g'. bt_field_class_freeze m g a = Inr g'" by (simp add: m')
      qed
      then show ?thesis by blast
    next
      case True
      have ch: "\<exists>n. freeze_fuel_for h (fc (named_fcs (fcs h ! a) ! i)) n"
        if i: "i < length (named_fcs (fcs h ! a))" for i
      proof -
        from True i a have e: "(a, fc (named_fcs (fcs h ! a) ! i)) \<in> child_edges h"
          by (auto simp: child_edges_def child_fcs_def)
        from valid[OF e] have "fc (named_fcs (fcs h ! a) ! i) < length (fcs h)" .
        with less.IH[of "fc (named_fcs (fcs h ! a) ! i)"] e show ?thesis by simp
      qed
      from freeze_named_fuel_exists[OF a ch, of "length (named_fcs (fcs h ! a))"]
      obtain nl where nl: "freeze_named_fuel_for h a 0 nl" by auto
      have "freeze_fuel_for h a (Suc nl)"
        unfolding freeze_fuel_for_def
      proof (intro allI impI)
        fix g m assume r: "freezes_only h g" and m: "Suc nl \<le> m"
        then obtain m' where m': "m = Suc m'" "nl \<le> m'" by (cases m) auto
        note at = freezes_only_at(1,2)[OF r a]
        have r1: "freezes_only h (set_fc g a ((fcs g ! a)\<lparr>frozen := True\<rparr>))"
          by (rule freezes_only_trans[OF r freezes_only_set_frozen[OF at(1)]])
        from nl r1 m'(2) obtain g' where
          "freeze_named_fcs m' (set_fc g a ((fcs g ! a)\<lparr>frozen := True\<rparr>)) a 0 = Inr g'"
          unfolding freeze_named_fuel_for_def by blast
        with at True show "\<exists>g'. bt_field_class_freeze m g a = Inr g'" by (simp add: m'(1))
      qed
      then show ?thesis by blast
    qed
  qed
qed

lemma freeze_enough_fuel:
  assumes "heap_wf h" and "a < length (fcs h)"
  shows "\<exists>n. \<forall>m\<ge>n. \<exists>h'. bt_field_class_freeze m h a = Inr h'"
proof -
  from assms(1) have cf: "children_frozen h" and ac: "acyclic (child_edges h)"
    by (simp_all add: heap_wf_def)
  from freeze_fuel_exists[OF ac _ assms(2)] no_edge_to_unfrozen[OF cf]
  obtain n where "freeze_fuel_for h a n" by blast
  with freezes_only_refl[of h] show ?thesis unfolding freeze_fuel_for_def by blast
qed

lemma alloc_parent_acyclic:
  assumes wf: "heap_wf h" and ch: "set (child_fcs f) \<subseteq> {e}" and el: "e < length (fcs h)"
  shows "acyclic (child_edges (fst (alloc_fc h f)))"
    and "(p, c) \<in> child_edges (fst (alloc_fc h f)) \<Longrightarrow> c < length (fcs (fst (alloc_fc h f)))"
proof -
  from wf have cf0: "children_frozen h" and ac0: "acyclic (child_edges h)"
    by (simp_all add: heap_wf_def)
  show "acyclic (child_edges (fst (alloc_fc h f)))"
  proof (rule acyclic_new_source[OF ac0, of _ "length (fcs h)"])
    fix p c assume "(p, c) \<in> child_edges (fst (alloc_fc h f))"
    from child_edges_alloc[OF this] show "(p, c) \<in> child_edges h \<or> p = length (fcs h)"
      by blast
  next
    fix p show "(p, length (fcs h)) \<notin> child_edges (fst (alloc_fc h f))"
    proof
      assume "(p, length (fcs h)) \<in> child_edges (fst (alloc_fc h f))"
      from child_edges_alloc[OF this] no_edge_to_unfrozen[OF cf0, of p "length (fcs h)"] ch el
      show False by auto
    qed
  qed
  show "c < length (fcs (fst (alloc_fc h f)))" if "(p, c) \<in> child_edges (fst (alloc_fc h f))"
    using child_edges_alloc[OF that] no_edge_to_unfrozen[OF cf0, of p c] ch el
    by (auto simp: alloc_fc_def)
qed

lemma init_array_enough_fuel:
  assumes wf: "heap_wf h" and e: "fc_at h e = Some ef"
  shows "\<exists>n. \<forall>m\<ge>n. \<exists>h1.
           init_array_field_class m h zeroed_field_class t e = Inr (h1, length (fcs h))"
proof -
  let ?f = "(init_field_class zeroed_field_class t)\<lparr>element_fc := Some e\<rparr>"
  from e have el: "e < length (fcs h)" by (auto simp: fc_at_def split: if_splits)
  then have el0: "e < length (fcs (fst (alloc_fc h ?f)))" by (simp add: alloc_fc_def)
  have ch: "set (child_fcs ?f) \<subseteq> {e}" by (rule child_fcs_fresh(6))
  note ap = alloc_parent_acyclic[OF wf ch el]
  have v: "c < length (fcs (fst (alloc_fc h ?f)))"
    if "(p, c) \<in> child_edges (fst (alloc_fc h ?f))" for p c
    using that by (rule ap(2))
  from freeze_fuel_exists[OF ap(1) _ el0] v
  obtain n where "freeze_fuel_for (fst (alloc_fc h ?f)) e n" by blast
  with freezes_only_refl[of "fst (alloc_fc h ?f)"]
  have "\<forall>m\<ge>n. \<exists>h1. bt_field_class_freeze m (fst (alloc_fc h ?f)) e = Inr h1"
    unfolding freeze_fuel_for_def by blast
  then have "\<forall>m\<ge>n. \<exists>h1.
      init_array_field_class m h zeroed_field_class t e = Inr (h1, length (fcs h))"
    using e by (auto simp: init_array_field_class_def alloc_fc_def)
  then show ?thesis by blast
qed







section \<open>Field classes frozen at creation\<close>

lemma dynamic_array_create_enough_fuel:
  assumes wf: "heap_wf h" and e: "fc_at h e = Some ef"
    and l: "fc_at h l = Some lf" and u: "fc_is_unsigned_int (fc_type lf)"
  shows "\<exists>n. \<forall>m\<ge>n. \<exists>h' lf' af.
           bt_field_class_dynamic_array_create m h e (Some l) = Inr (h', length (fcs h)) \<and>
           fc_at h' l = Some lf' \<and> frozen lf' \<and>
           fc_at h' (length (fcs h)) = Some af \<and> length_fc af = Some l \<and>
           element_fc af = Some e \<and> \<not> part_of_trace_class af"
proof -
  from init_array_enough_fuel[OF wf e, of DYNAMIC_ARRAY] obtain n where
    n: "\<And>m. n \<le> m \<Longrightarrow> \<exists>h1.
      init_array_field_class m h zeroed_field_class DYNAMIC_ARRAY e = Inr (h1, length (fcs h))"
    by blast
  have "\<exists>h' lf' af.
           bt_field_class_dynamic_array_create m h e (Some l) = Inr (h', length (fcs h)) \<and>
           fc_at h' l = Some lf' \<and> frozen lf' \<and>
           fc_at h' (length (fcs h)) = Some af \<and> length_fc af = Some l \<and>
           element_fc af = Some e \<and> \<not> part_of_trace_class af" if "n \<le> m" for m
  proof -
    from n[OF that] obtain h1 where
      "init_array_field_class m h zeroed_field_class DYNAMIC_ARRAY e = Inr (h1, length (fcs h))"
      by blast
    from dynamic_array_create_freezes_length[OF this l u] show ?thesis .
  qed
  then show ?thesis by blast
qed

lemma two_int_example_built:
  "(case bt_field_class_unsigned_integer_create empty_heap of
      (h1, len) \<Rightarrow> bt_field_class_signed_integer_create h1) = (two_int_example, 1)"
  by (simp add: two_int_example_def bt_field_class_unsigned_integer_create_def
      bt_field_class_signed_integer_create_def create_integer_field_class_def heap_defs)

lemma two_int_example_wf: "heap_wf two_int_example"
proof -
  obtain h1 len where c1: "create_integer_field_class empty_heap UNSIGNED_INTEGER = (h1, len)"
    by (cases "create_integer_field_class empty_heap UNSIGNED_INTEGER")
  obtain h2 el where c2: "create_integer_field_class h1 SIGNED_INTEGER = (h2, el)"
    by (cases "create_integer_field_class h1 SIGNED_INTEGER")
  from c1 c2 have "h2 = two_int_example"
    by (auto simp: two_int_example_def create_integer_field_class_def heap_defs)
  with heap_wf_creates(1)[OF heap_wf_creates(1)[OF heap_wf_empty c1] c2] show ?thesis by simp
qed

text \<open>
  C9: \<^verbatim>\<open>bt_field_class_variant_create\<close> with a selector of the integer family returns
  (with any fuel of at least one) a heap in which the selector is frozen, while the new
  variant has no option, is not frozen and is not part of a trace class.
  \<^verbatim>\<open>bt_field_class_dynamic_array_create\<close> with a length field class of the unsigned
  integer family returns, whenever \<^verbatim>\<open>init_array_field_class\<close> (which freezes the element)
  returns, a heap in which the length field class is frozen and the new array is not part
  of a trace class; and in a well-formed heap it does return, with that result, for every
  fuel above some bound.
\<close>

theorem create_freezes_selector_and_length:
  "(fc_at h s = Some sf \<and> fc_is_int (fc_type sf) \<longrightarrow>
      (\<exists>h' vf. bt_field_class_variant_create (Suc n) h (Some s) = Inr (h', length (fcs h)) \<and>
           fc_at h' s = Some (sf\<lparr>frozen := True\<rparr>) \<and>
           fc_at h' (length (fcs h)) = Some vf \<and> selector_fc vf = Some s \<and>
           named_fcs vf = [] \<and> \<not> part_of_trace_class vf \<and> \<not> frozen vf)) \<and>
   (init_array_field_class k h zeroed_field_class DYNAMIC_ARRAY e = Inr (h1, arr) \<and>
    fc_at h l = Some lf \<and> fc_is_unsigned_int (fc_type lf) \<longrightarrow>
      (\<exists>h' lf' af. bt_field_class_dynamic_array_create k h e (Some l) = Inr (h', arr) \<and>
           fc_at h' l = Some lf' \<and> frozen lf' \<and>
           fc_at h' arr = Some af \<and> length_fc af = Some l \<and> element_fc af = Some e \<and>
           \<not> part_of_trace_class af)) \<and>
   (heap_wf h \<and> fc_at h e = Some ef \<and> fc_at h l = Some lf \<and>
    fc_is_unsigned_int (fc_type lf) \<longrightarrow>
      (\<exists>n0. \<forall>m\<ge>n0. \<exists>h' lf' af.
           bt_field_class_dynamic_array_create m h e (Some l) = Inr (h', length (fcs h)) \<and>
           fc_at h' l = Some lf' \<and> frozen lf' \<and>
           fc_at h' (length (fcs h)) = Some af \<and> length_fc af = Some l \<and>
           element_fc af = Some e \<and> \<not> part_of_trace_class af))"
proof (intro conjI impI)
  assume "fc_at h s = Some sf \<and> fc_is_int (fc_type sf)"
  then show "\<exists>h' vf. bt_field_class_variant_create (Suc n) h (Some s) = Inr (h', length (fcs h)) \<and>
           fc_at h' s = Some (sf\<lparr>frozen := True\<rparr>) \<and>
           fc_at h' (length (fcs h)) = Some vf \<and> selector_fc vf = Some s \<and>
           named_fcs vf = [] \<and> \<not> part_of_trace_class vf \<and> \<not> frozen vf"
    using variant_create_freezes_selector by blast
next
  assume "init_array_field_class k h zeroed_field_class DYNAMIC_ARRAY e = Inr (h1, arr) \<and>
    fc_at h l = Some lf \<and> fc_is_unsigned_int (fc_type lf)"
  then show "\<exists>h' lf' af. bt_field_class_dynamic_array_create k h e (Some l) = Inr (h', arr) \<and>
           fc_at h' l = Some lf' \<and> frozen lf' \<and>
           fc_at h' arr = Some af \<and> length_fc af = Some l \<and> element_fc af = Some e \<and>
           \<not> part_of_trace_class af"
    using dynamic_array_create_freezes_length by blast
next
  assume a: "heap_wf h \<and> fc_at h e = Some ef \<and> fc_at h l = Some lf \<and>
    fc_is_unsigned_int (fc_type lf)"
  then have "heap_wf h" "fc_at h e = Some ef" "fc_at h l = Some lf"
    "fc_is_unsigned_int (fc_type lf)" by simp_all
  then show "\<exists>n0. \<forall>m\<ge>n0. \<exists>h' lf' af.
           bt_field_class_dynamic_array_create m h e (Some l) = Inr (h', length (fcs h)) \<and>
           fc_at h' l = Some lf' \<and> frozen lf' \<and>
           fc_at h' (length (fcs h)) = Some af \<and> length_fc af = Some l \<and>
           element_fc af = Some e \<and> \<not> part_of_trace_class af"
    by (rule dynamic_array_create_enough_fuel)
qed

theorem create_freezes_selector_and_length_witness:
  "bt_field_class_variant_create 1 int_example (Some 0) =
     Inr (\<lparr>fcs = [(fcs int_example ! 0)\<lparr>frozen := True\<rparr>,
                  (init_named_field_classes_container zeroed_field_class
                     VARIANT_WITH_UNSIGNED_SELECTOR)\<lparr>selector_fc := Some 0\<rparr>],
           range_sets = []\<rparr>, 1) \<and>
   bt_field_class_dynamic_array_create 1 two_int_example 1 (Some 0) =
     Inr (dynamic_array_example, 2) \<and>
   frozen (fcs dynamic_array_example ! 0) \<and>
   \<not> frozen (fcs two_int_example ! 0) \<and>
   heap_wf two_int_example \<and>
   (\<exists>n0 h'. bt_field_class_dynamic_array_create n0 two_int_example 1 (Some 0) =
      Inr (h', 2))"
proof -
  have a: "fc_at int_example 0 = Some (fcs int_example ! 0) \<and>
      fc_is_int (fc_type (fcs int_example ! 0))"
    by (simp add: int_example_def heap_defs)
  have b: "init_array_field_class 1 two_int_example zeroed_field_class DYNAMIC_ARRAY 1 =
        Inr (\<lparr>fcs = [init_integer_field_class zeroed_field_class UNSIGNED_INTEGER,
                      (init_integer_field_class zeroed_field_class SIGNED_INTEGER)\<lparr>frozen := True\<rparr>,
                      (init_field_class zeroed_field_class DYNAMIC_ARRAY)\<lparr>element_fc := Some 1\<rparr>],
               range_sets = []\<rparr>, 2) \<and>
      fc_at two_int_example 0 = Some (fcs two_int_example ! 0) \<and>
      fc_is_unsigned_int (fc_type (fcs two_int_example ! 0))"
    by (simp add: two_int_example_def init_array_field_class_def heap_defs)
  have c: "heap_wf two_int_example \<and> fc_at two_int_example 1 = Some (fcs two_int_example ! 1) \<and>
      fc_at two_int_example 0 = Some (fcs two_int_example ! 0) \<and>
      fc_is_unsigned_int (fc_type (fcs two_int_example ! 0))"
    using two_int_example_wf by (simp add: two_int_example_def heap_defs)
  note t1 = create_freezes_selector_and_length[where h = int_example and s = 0
      and sf = "fcs int_example ! 0" and n = 0, THEN conjunct1, THEN mp, OF a]
  note t2 = create_freezes_selector_and_length[where h = two_int_example and k = 1 and e = 1
      and l = 0 and lf = "fcs two_int_example ! 0" and arr = 2,
      THEN conjunct2, THEN conjunct1, THEN mp, OF b]
  note t3 = create_freezes_selector_and_length[where h = two_int_example and e = 1
      and l = 0 and lf = "fcs two_int_example ! 0" and ef = "fcs two_int_example ! 1",
      THEN conjunct2, THEN conjunct2, THEN mp, OF c]
  have w1: "bt_field_class_variant_create 1 int_example (Some 0) =
     Inr (\<lparr>fcs = [(fcs int_example ! 0)\<lparr>frozen := True\<rparr>,
                  (init_named_field_classes_container zeroed_field_class
                     VARIANT_WITH_UNSIGNED_SELECTOR)\<lparr>selector_fc := Some 0\<rparr>],
           range_sets = []\<rparr>, 1) \<and>
   bt_field_class_dynamic_array_create 1 two_int_example 1 (Some 0) =
     Inr (dynamic_array_example, 2) \<and>
   frozen (fcs dynamic_array_example ! 0) \<and>
   \<not> frozen (fcs two_int_example ! 0)"
    using t1 t2
    by (simp add: int_example_def two_int_example_def dynamic_array_example_def
        bt_field_class_variant_create_def bt_field_class_dynamic_array_create_def
        init_array_field_class_def heap_defs)
  have len: "length (fcs two_int_example) = 2" by (simp add: two_int_example_def)
  from t3 obtain n0 where "\<forall>m\<ge>n0. \<exists>h' lf' af.
      bt_field_class_dynamic_array_create m two_int_example 1 (Some 0) =
        Inr (h', length (fcs two_int_example)) \<and>
      fc_at h' 0 = Some lf' \<and> frozen lf' \<and>
      fc_at h' (length (fcs two_int_example)) = Some af \<and> length_fc af = Some 0 \<and>
      element_fc af = Some 1 \<and> \<not> part_of_trace_class af" by blast
  then have "\<exists>h'. bt_field_class_dynamic_array_create n0 two_int_example 1 (Some 0) =
        Inr (h', length (fcs two_int_example))" by blast
  then have w2: "\<exists>n0 h'. bt_field_class_dynamic_array_create n0 two_int_example 1 (Some 0) =
        Inr (h', 2)" unfolding len by blast
  from w1 w2 two_int_example_wf show ?thesis by blast
qed

section \<open>Attaching to a trace class once\<close>



section \<open>Appending to a container\<close>

lemma children_frozen_freezes_only:
  assumes cf: "children_frozen h" and r: "freezes_only h h'"
  shows "children_frozen h'"
  using cf freezes_only_length[OF r] freezes_only_child_fcs[OF r] freezes_only_fields(5)[OF r]
  by (intro children_frozen_related[of h h']) simp_all

lemma freeze_keeps_unfrozen:
  "bt_field_class_freeze n h a = Inr h' \<Longrightarrow> children_frozen h \<Longrightarrow> b \<noteq> a \<Longrightarrow>
   b < length (fcs h) \<Longrightarrow> \<not> frozen (fcs h ! b) \<Longrightarrow> fcs h' ! b = fcs h ! b"
  "freeze_named_fcs n h a i = Inr h' \<Longrightarrow> children_frozen h \<Longrightarrow> b \<noteq> a \<Longrightarrow>
   b < length (fcs h) \<Longrightarrow> \<not> frozen (fcs h ! b) \<Longrightarrow>
   fc_is_container (fc_type (fcs h ! a)) \<Longrightarrow> fcs h' ! b = fcs h ! b"
proof (induction n h a and n h a i arbitrary: h' and h'
    rule: bt_field_class_freeze_freeze_named_fcs.induct)
  case (1 h a)
  then show ?case by simp
next
  case (2 n h a)
  from "2.prems" obtain f where f: "fc_at h a = Some f" by (auto split: option.splits)
  let ?h1 = "set_fc h a (f\<lparr>frozen := True\<rparr>)"
  from f have al: "a < length (fcs h)" and fa: "fcs h ! a = f"
    by (auto simp: fc_at_def split: if_splits)
  have m1: "freezes_only h ?h1" by (rule freezes_only_set_frozen[OF f])
  have cf1: "children_frozen ?h1" by (rule children_frozen_freezes_only[OF "2.prems"(2) m1])
  from "2.prems"(3) have same: "fcs ?h1 ! b = fcs h ! b" by (simp add: set_fc_def)
  have bl: "b < length (fcs ?h1)" using "2.prems"(4) by (simp add: set_fc_def)
  show ?case
  proof (cases "fc_is_container (fc_type f)")
    case True
    with "2.prems" f have r: "freeze_named_fcs n ?h1 a 0 = Inr h'" by simp
    have ty: "fc_is_container (fc_type (fcs ?h1 ! a))" using True al by (simp add: set_fc_def)
    from "2.IH"[OF f True r cf1 "2.prems"(3) bl _ ty] same "2.prems"(5) show ?thesis by simp
  next
    case False
    with "2.prems" f have "h' = ?h1" by simp
    with same show ?thesis by simp
  qed
next
  case (3 h a i)
  then show ?case by simp
next
  case (4 n h a i)
  from "4.prems" obtain f where f: "fc_at h a = Some f" by (auto split: option.splits)
  from f have al: "a < length (fcs h)" and fa: "fcs h ! a = f"
    by (auto simp: fc_at_def split: if_splits)
  show ?case
  proof (cases "i < length (named_fcs f)")
    case True
    let ?h1 = "set_fc h a
      (f\<lparr>named_fcs := (named_fcs f)[i := (named_fcs f ! i)\<lparr>nfc_frozen := True\<rparr>]\<rparr>)"
    let ?c = "fc (named_fcs f ! i)"
    have m1: "freezes_only h ?h1" by (rule freezes_only_set_named[OF f])
    from True "4.prems" f obtain h2 where
      h2: "bt_field_class_freeze n ?h1 ?c = Inr h2"
      and r: "freeze_named_fcs n h2 a (i + 1) = Inr h'"
      by (auto split: sum.splits)
    have m2: "freezes_only ?h1 h2" by (rule freeze_freezes_only(1)[OF h2])
    have cf1: "children_frozen ?h1" by (rule children_frozen_freezes_only[OF "4.prems"(2) m1])
    have cf2: "children_frozen h2" by (rule children_frozen_freezes_only[OF cf1 m2])
    from "4.prems"(3) have same: "fcs ?h1 ! b = fcs h ! b" by (simp add: set_fc_def)
    have l1: "length (fcs ?h1) = length (fcs h)" by (simp add: set_fc_def)
    have l2: "length (fcs h2) = length (fcs h)" using freezes_only_length[OF m2] l1 by simp
    from True "4.prems"(6) fa have "?c \<in> set (child_fcs (fcs h ! a))"
      by (simp add: child_fcs_def)
    with "4.prems"(2) al have "frozen (fcs h ! ?c)" by (simp add: children_frozen_nth)
    with "4.prems"(5) have bc: "b \<noteq> ?c" by auto
    from "4.IH"(1)[OF f True h2 cf1 bc] "4.prems"(4,5) l1 same
    have s2: "fcs h2 ! b = fcs h ! b" by simp
    have ty2: "fc_is_container (fc_type (fcs h2 ! a))"
      using freezes_only_fields(1)[OF freezes_only_trans[OF m1 m2] al] "4.prems"(6) by simp
    from "4.IH"(2)[OF f True h2 r cf2 "4.prems"(3) _ _ ty2] "4.prems"(4,5) l2 s2
    show ?thesis by simp
  next
    case False
    with "4.prems" f show ?thesis by simp
  qed
qed

lemma create_options_enough_fuel:
  assumes wf: "heap_wf h" and c: "fc_at h c = Some f" and hot: "\<not> frozen f"
    and m: "fc_at h m = Some mf" and ne: "m \<noteq> c"
  shows "\<exists>n0. \<forall>n\<ge>n0. \<exists>h1. bt_field_class_freeze n h m = Inr h1 \<and> frozen (fcs h1 ! m) \<and>
      freezes_only h h1 \<and> fc_at h1 c = Some f \<and>
      create_named_field_class n h nm m =
        Inr (h1, \<lparr>name = nm, fc = m, nfc_frozen = True, opt_range_set = None\<rparr>) \<and>
      (\<forall>rs r. rs_at h rs = Some r \<longrightarrow>
         create_variant_with_selector_option n h nm m rs =
           Inr (set_rs h1 rs (r\<lparr>rs_frozen := True\<rparr>),
                \<lparr>name = nm, fc = m, nfc_frozen = True, opt_range_set = Some rs\<rparr>))"
proof -
  from wf have cf: "children_frozen h" by (simp add: heap_wf_def)
  from c have cl: "c < length (fcs h)" and fc: "fcs h ! c = f"
    by (auto simp: fc_at_def split: if_splits)
  from m have ml: "m < length (fcs h)" by (auto simp: fc_at_def split: if_splits)
  from freeze_enough_fuel[OF wf ml] obtain n0 where
    n0: "\<And>n. n0 \<le> n \<Longrightarrow> \<exists>h1. bt_field_class_freeze n h m = Inr h1" by blast
  have "\<exists>h1. bt_field_class_freeze n h m = Inr h1 \<and> frozen (fcs h1 ! m) \<and>
      freezes_only h h1 \<and> fc_at h1 c = Some f \<and>
      create_named_field_class n h nm m =
        Inr (h1, \<lparr>name = nm, fc = m, nfc_frozen = True, opt_range_set = None\<rparr>) \<and>
      (\<forall>rs r. rs_at h rs = Some r \<longrightarrow>
         create_variant_with_selector_option n h nm m rs =
           Inr (set_rs h1 rs (r\<lparr>rs_frozen := True\<rparr>),
                \<lparr>name = nm, fc = m, nfc_frozen = True, opt_range_set = Some rs\<rparr>))"
    if "n0 \<le> n" for n
  proof -
    from n0[OF that] obtain h1 where fz: "bt_field_class_freeze n h m = Inr h1" by blast
    have fo: "freezes_only h h1" by (rule freeze_freezes_only(1)[OF fz])
    have l: "length (fcs h1) = length (fcs h)" by (rule freezes_only_length[OF fo])
    have rs: "range_sets h1 = range_sets h" using fo by (simp add: freezes_only_def)
    from freeze_keeps_unfrozen(1)[OF fz cf _ cl] ne hot fc have "fcs h1 ! c = f" by auto
    with cl l have c1: "fc_at h1 c = Some f" by (simp add: fc_at_def)
    have cr: "create_named_field_class n h nm m =
        Inr (h1, \<lparr>name = nm, fc = m, nfc_frozen = True, opt_range_set = None\<rparr>)"
      using m fz by (simp add: create_named_field_class_def init_named_field_class_def
          bt_named_field_class_freeze_def)
    have co: "create_variant_with_selector_option n h nm m rs =
           Inr (set_rs h1 rs (r\<lparr>rs_frozen := True\<rparr>),
                \<lparr>name = nm, fc = m, nfc_frozen = True, opt_range_set = Some rs\<rparr>)"
      if "rs_at h rs = Some r" for rs r
    proof -
      from that rs have "rs_at h1 rs = Some r" by (auto simp: rs_at_def split: if_splits)
      with that m fz show ?thesis
        by (simp add: create_variant_with_selector_option_def init_named_field_class_def
            bt_named_field_class_freeze_def bt_integer_range_set_freeze_def)
    qed
    from fz freeze_sets_frozen[OF fz] fo c1 cr co show ?thesis by blast
  qed
  then show ?thesis by blast
qed

lemma append_named_field_class_cases:
  assumes c: "fc_at h c = Some f" and hot: "\<not> frozen f" and wf: "container_names_indexed f"
  shows "name nf \<in> name ` set (named_fcs f) \<Longrightarrow>
           append_named_field_class_to_container_field_class h c nf = Inl (DuplicateName, h)"
    and "name nf \<notin> name ` set (named_fcs f) \<Longrightarrow>
           append_named_field_class_to_container_field_class h c nf =
             Inr (set_fc h c (f\<lparr>named_fcs := named_fcs f @ [nf],
               name_to_index := (name nf, length (named_fcs f @ [nf]) - 1) # name_to_index f\<rparr>))"
  using names_indexed_present[OF wf, of "name nf"] c hot
  by (simp_all add: append_named_field_class_to_container_field_class_def)

lemma enough_fuel_instance: "\<exists>n0::nat. \<forall>n\<ge>n0. \<exists>h1. P n h1 \<Longrightarrow> \<exists>n0 h1. P n0 h1"
  by blast

lemma struct_example_wf: "heap_wf struct_example"
proof -
  obtain h1 s where c1: "bt_field_class_structure_create empty_heap = (h1, s)"
    by (cases "bt_field_class_structure_create empty_heap")
  obtain h2 i where c2: "create_integer_field_class h1 UNSIGNED_INTEGER = (h2, i)"
    by (cases "create_integer_field_class h1 UNSIGNED_INTEGER")
  from struct_example_built c1 c2
  have a: "bt_field_class_structure_append_member 1 h2 s ''a'' i = Inr struct_example"
    by (simp add: bt_field_class_unsigned_integer_create_def)
  from heap_wf_appends(1)[OF heap_wf_creates(1)[OF heap_wf_creates(5)[OF heap_wf_empty c1] c2] a]
  show ?thesis .
qed

text \<open>
  C5, amended. On a container that is not frozen and whose hash table maps each entry's
  name to its index:

  \<^item> \<^verbatim>\<open>append_named_field_class_to_container_field_class\<close> with a name already present
    fails with the duplicate name error and leaves the heap unchanged; with a new name it
    succeeds, puts the entry at the end, maps its name to the new length minus one, and
    keeps the hash table in step with the entries; the look-up by name returns the entry
    of that name, before and after the append.

  \<^item> In a well-formed heap, with a member or option field class \<open>m\<close> other than the
    container itself, and for every fuel above some bound:
    \<^verbatim>\<open>bt_field_class_structure_append_member\<close> and
    \<^verbatim>\<open>bt_field_class_variant_without_selector_append_option\<close> freeze \<open>m\<close> (heap \<open>h1\<close>,
    the result of \<^verbatim>\<open>bt_field_class_freeze\<close> on \<open>m\<close>, which differs from the heap of the
    call by frozen flags only and leaves the container as it was) and then fail with the
    duplicate name error when the name is present, and append the entry when it is new. \<^verbatim>\<open>append_option_to_variant_with_selector_field_class\<close>
    does the same, and freezes the range set, provided the range set is not empty and
    \<^verbatim>\<open>ranges_overlap\<close> finds no overlap.

  \<^item> With an empty range set it fails with the empty range set error, and with an overlap
    with the overlap error, whether the name is present or not, and leaves the heap
    unchanged.

  \<^item> The two public functions for variants with a selector are
    \<^verbatim>\<open>append_option_to_variant_with_selector_field_class\<close> with the expected type.

  \<^item> In any heap where the container is frozen,
    \<^verbatim>\<open>append_named_field_class_to_container_field_class\<close> fails on the hot check and
    leaves the heap unchanged, whatever the name.
\<close>

theorem append_named_field_class_spec:
  assumes c: "fc_at h c = Some f" and hot: "\<not> frozen f" and wf: "container_names_indexed f"
  shows "(name nf \<in> name ` set (named_fcs f) \<longrightarrow>
            append_named_field_class_to_container_field_class h c nf = Inl (DuplicateName, h)) \<and>
         (name nf \<notin> name ` set (named_fcs f) \<longrightarrow>
            (\<exists>h' f'. append_named_field_class_to_container_field_class h c nf = Inr h' \<and>
               fc_at h' c = Some f' \<and>
               named_fcs f' = named_fcs f @ [nf] \<and>
               map_of (name_to_index f') (name nf) = Some (length (named_fcs f') - 1) \<and>
               container_names_indexed f' \<and>
               (\<forall>e\<in>set (named_fcs f').
                  borrow_named_field_class_from_container_field_class_by_name h' c (name e) =
                    Inr (Some e)))) \<and>
         (\<forall>e\<in>set (named_fcs f).
            borrow_named_field_class_from_container_field_class_by_name h c (name e) =
              Inr (Some e)) \<and>
         (heap_wf h \<and> fc_at h m = Some mf \<and> m \<noteq> c \<longrightarrow>
            (\<exists>n0. \<forall>n\<ge>n0. \<exists>h1. bt_field_class_freeze n h m = Inr h1 \<and> frozen (fcs h1 ! m) \<and>
               freezes_only h h1 \<and> fc_at h1 c = Some f \<and>
               (nm \<in> name ` set (named_fcs f) \<longrightarrow>
                  (fc_type f = STRUCTURE \<longrightarrow>
                     bt_field_class_structure_append_member n h c nm m =
                       Inl (DuplicateName, h1)) \<and>
                  (fc_type f = VARIANT_WITHOUT_SELECTOR \<longrightarrow>
                     bt_field_class_variant_without_selector_append_option n h c nm m =
                       Inl (DuplicateName, h1)) \<and>
                  (\<forall>rs r. rs_at h rs = Some r \<and> ranges r \<noteq> [] \<and>
                       ranges_overlap h (named_fcs f) r
                         (fc_type f = VARIANT_WITH_SIGNED_SELECTOR) = Inr False \<longrightarrow>
                     append_option_to_variant_with_selector_field_class n h c nm m rs (fc_type f) =
                       Inl (DuplicateName, set_rs h1 rs (r\<lparr>rs_frozen := True\<rparr>)))) \<and>
               (nm \<notin> name ` set (named_fcs f) \<longrightarrow>
                  (fc_type f = STRUCTURE \<longrightarrow>
                     bt_field_class_structure_append_member n h c nm m =
                       Inr (set_fc h1 c
                         (f\<lparr>named_fcs := named_fcs f @
                              [\<lparr>name = nm, fc = m, nfc_frozen = True, opt_range_set = None\<rparr>],
                            name_to_index := (nm, length (named_fcs f)) # name_to_index f\<rparr>))) \<and>
                  (fc_type f = VARIANT_WITHOUT_SELECTOR \<longrightarrow>
                     bt_field_class_variant_without_selector_append_option n h c nm m =
                       Inr (set_fc h1 c
                         (f\<lparr>named_fcs := named_fcs f @
                              [\<lparr>name = nm, fc = m, nfc_frozen = True, opt_range_set = None\<rparr>],
                            name_to_index := (nm, length (named_fcs f)) # name_to_index f\<rparr>))) \<and>
                  (\<forall>rs r. rs_at h rs = Some r \<and> ranges r \<noteq> [] \<and>
                       ranges_overlap h (named_fcs f) r
                         (fc_type f = VARIANT_WITH_SIGNED_SELECTOR) = Inr False \<longrightarrow>
                     append_option_to_variant_with_selector_field_class n h c nm m rs (fc_type f) =
                       Inr (set_fc (set_rs h1 rs (r\<lparr>rs_frozen := True\<rparr>)) c
                         (f\<lparr>named_fcs := named_fcs f @
                              [\<lparr>name = nm, fc = m, nfc_frozen = True, opt_range_set = Some rs\<rparr>],
                            name_to_index := (nm, length (named_fcs f)) # name_to_index f\<rparr>))) \<and>
                  (\<forall>g x. fc_at g c =
                       Some (f\<lparr>named_fcs := named_fcs f @
                                  [\<lparr>name = nm, fc = m, nfc_frozen = True, opt_range_set = x\<rparr>],
                               name_to_index := (nm, length (named_fcs f)) # name_to_index f\<rparr>) \<longrightarrow>
                     (\<forall>e\<in>set (named_fcs f @
                                  [\<lparr>name = nm, fc = m, nfc_frozen = True, opt_range_set = x\<rparr>]).
                        borrow_named_field_class_from_container_field_class_by_name g c (name e) =
                          Inr (Some e)))))) \<and>
         (\<forall>n rs r. fc_at h m \<noteq> None \<and> rs_at h rs = Some r \<longrightarrow>
            (ranges r = [] \<longrightarrow>
               append_option_to_variant_with_selector_field_class n h c nm m rs (fc_type f) =
                 Inl (EmptyRangeSet, h)) \<and>
            (ranges r \<noteq> [] \<and>
             ranges_overlap h (named_fcs f) r (fc_type f = VARIANT_WITH_SIGNED_SELECTOR) = Inr True \<longrightarrow>
               append_option_to_variant_with_selector_field_class n h c nm m rs (fc_type f) =
                 Inl (OverlappingRanges, h))) \<and>
         (\<forall>n rs. bt_field_class_variant_with_unsigned_selector_append_option n h c nm m rs =
            append_option_to_variant_with_selector_field_class n h c nm m rs
              VARIANT_WITH_UNSIGNED_SELECTOR \<and>
          bt_field_class_variant_with_signed_selector_append_option n h c nm m rs =
            append_option_to_variant_with_selector_field_class n h c nm m rs
              VARIANT_WITH_SIGNED_SELECTOR) \<and>
         (\<forall>g f'. fc_at g c = Some f' \<and> frozen f' \<longrightarrow>
            append_named_field_class_to_container_field_class g c nf = Inl (InvalidState, g))"
proof -
  let ?names = "name ` set (named_fcs f)"
  let ?NF = "\<lambda>x. \<lparr>name = nm, fc = m, nfc_frozen = True, opt_range_set = x\<rparr>"
  let ?F = "\<lambda>x. f\<lparr>named_fcs := named_fcs f @ [?NF x],
      name_to_index := (nm, length (named_fcs f)) # name_to_index f\<rparr>"
  have A1: "name nf \<in> ?names \<longrightarrow>
      append_named_field_class_to_container_field_class h c nf = Inl (DuplicateName, h)"
    using append_named_field_class_cases(1)[OF c hot wf] by blast
  have A2: "name nf \<notin> ?names \<longrightarrow>
      (\<exists>h' f'. append_named_field_class_to_container_field_class h c nf = Inr h' \<and>
         fc_at h' c = Some f' \<and> named_fcs f' = named_fcs f @ [nf] \<and>
         map_of (name_to_index f') (name nf) = Some (length (named_fcs f') - 1) \<and>
         container_names_indexed f' \<and>
         (\<forall>e\<in>set (named_fcs f').
            borrow_named_field_class_from_container_field_class_by_name h' c (name e) =
              Inr (Some e)))"
  proof
    assume new: "name nf \<notin> ?names"
    let ?f' = "f\<lparr>named_fcs := named_fcs f @ [nf],
        name_to_index := (name nf, length (named_fcs f @ [nf]) - 1) # name_to_index f\<rparr>"
    let ?h' = "set_fc h c ?f'"
    from c have at: "fc_at ?h' c = Some ?f'"
      by (auto simp: fc_at_def set_fc_def split: if_splits)
    have wf': "container_names_indexed ?f'" by (rule names_indexed_append[OF wf new])
    have ok: "append_named_field_class_to_container_field_class h c nf = Inr ?h'"
      by (rule append_named_field_class_cases(2)[OF c hot wf new])
    have bn: "\<forall>e\<in>set (named_fcs ?f').
        borrow_named_field_class_from_container_field_class_by_name ?h' c (name e) = Inr (Some e)"
      using names_indexed_borrow[OF at wf'] by blast
    have "append_named_field_class_to_container_field_class h c nf = Inr ?h' \<and>
        fc_at ?h' c = Some ?f' \<and> named_fcs ?f' = named_fcs f @ [nf] \<and>
        map_of (name_to_index ?f') (name nf) = Some (length (named_fcs ?f') - 1) \<and>
        container_names_indexed ?f' \<and>
        (\<forall>e\<in>set (named_fcs ?f').
           borrow_named_field_class_from_container_field_class_by_name ?h' c (name e) =
             Inr (Some e))"
      using ok at wf' bn by simp
    then show "\<exists>h' f'. append_named_field_class_to_container_field_class h c nf = Inr h' \<and>
        fc_at h' c = Some f' \<and> named_fcs f' = named_fcs f @ [nf] \<and>
        map_of (name_to_index f') (name nf) = Some (length (named_fcs f') - 1) \<and>
        container_names_indexed f' \<and>
        (\<forall>e\<in>set (named_fcs f').
           borrow_named_field_class_from_container_field_class_by_name h' c (name e) =
             Inr (Some e))"
      by blast
  qed
  have A3: "\<forall>e\<in>set (named_fcs f).
      borrow_named_field_class_from_container_field_class_by_name h c (name e) = Inr (Some e)"
    using names_indexed_borrow[OF c wf] by blast
  have B: "\<exists>n0. \<forall>n\<ge>n0. \<exists>h1. bt_field_class_freeze n h m = Inr h1 \<and> frozen (fcs h1 ! m) \<and>
       freezes_only h h1 \<and> fc_at h1 c = Some f \<and>
       (nm \<in> ?names \<longrightarrow>
          (fc_type f = STRUCTURE \<longrightarrow>
             bt_field_class_structure_append_member n h c nm m = Inl (DuplicateName, h1)) \<and>
          (fc_type f = VARIANT_WITHOUT_SELECTOR \<longrightarrow>
             bt_field_class_variant_without_selector_append_option n h c nm m =
               Inl (DuplicateName, h1)) \<and>
          (\<forall>rs r. rs_at h rs = Some r \<and> ranges r \<noteq> [] \<and>
               ranges_overlap h (named_fcs f) r
                 (fc_type f = VARIANT_WITH_SIGNED_SELECTOR) = Inr False \<longrightarrow>
             append_option_to_variant_with_selector_field_class n h c nm m rs (fc_type f) =
               Inl (DuplicateName, set_rs h1 rs (r\<lparr>rs_frozen := True\<rparr>)))) \<and>
       (nm \<notin> ?names \<longrightarrow>
          (fc_type f = STRUCTURE \<longrightarrow>
             bt_field_class_structure_append_member n h c nm m = Inr (set_fc h1 c (?F None))) \<and>
          (fc_type f = VARIANT_WITHOUT_SELECTOR \<longrightarrow>
             bt_field_class_variant_without_selector_append_option n h c nm m =
               Inr (set_fc h1 c (?F None))) \<and>
          (\<forall>rs r. rs_at h rs = Some r \<and> ranges r \<noteq> [] \<and>
               ranges_overlap h (named_fcs f) r
                 (fc_type f = VARIANT_WITH_SIGNED_SELECTOR) = Inr False \<longrightarrow>
             append_option_to_variant_with_selector_field_class n h c nm m rs (fc_type f) =
               Inr (set_fc (set_rs h1 rs (r\<lparr>rs_frozen := True\<rparr>)) c (?F (Some rs)))) \<and>
          (\<forall>g x. fc_at g c = Some (?F x) \<longrightarrow>
             (\<forall>e\<in>set (named_fcs f @ [?NF x]).
                borrow_named_field_class_from_container_field_class_by_name g c (name e) =
                  Inr (Some e))))"
    if hw: "heap_wf h" and m: "fc_at h m = Some mf" and ne: "m \<noteq> c"
  proof -
    from create_options_enough_fuel[OF hw c hot m ne, of nm] obtain n0 where
      n0: "\<And>n. n0 \<le> n \<Longrightarrow> \<exists>h1. bt_field_class_freeze n h m = Inr h1 \<and>
        frozen (fcs h1 ! m) \<and> freezes_only h h1 \<and> fc_at h1 c = Some f \<and>
        create_named_field_class n h nm m = Inr (h1, ?NF None) \<and>
        (\<forall>rs r. rs_at h rs = Some r \<longrightarrow>
           create_variant_with_selector_option n h nm m rs =
             Inr (set_rs h1 rs (r\<lparr>rs_frozen := True\<rparr>), ?NF (Some rs)))"
      by blast
    have "\<exists>h1. bt_field_class_freeze n h m = Inr h1 \<and> frozen (fcs h1 ! m) \<and>
       freezes_only h h1 \<and> fc_at h1 c = Some f \<and>
       (nm \<in> ?names \<longrightarrow>
          (fc_type f = STRUCTURE \<longrightarrow>
             bt_field_class_structure_append_member n h c nm m = Inl (DuplicateName, h1)) \<and>
          (fc_type f = VARIANT_WITHOUT_SELECTOR \<longrightarrow>
             bt_field_class_variant_without_selector_append_option n h c nm m =
               Inl (DuplicateName, h1)) \<and>
          (\<forall>rs r. rs_at h rs = Some r \<and> ranges r \<noteq> [] \<and>
               ranges_overlap h (named_fcs f) r
                 (fc_type f = VARIANT_WITH_SIGNED_SELECTOR) = Inr False \<longrightarrow>
             append_option_to_variant_with_selector_field_class n h c nm m rs (fc_type f) =
               Inl (DuplicateName, set_rs h1 rs (r\<lparr>rs_frozen := True\<rparr>)))) \<and>
       (nm \<notin> ?names \<longrightarrow>
          (fc_type f = STRUCTURE \<longrightarrow>
             bt_field_class_structure_append_member n h c nm m = Inr (set_fc h1 c (?F None))) \<and>
          (fc_type f = VARIANT_WITHOUT_SELECTOR \<longrightarrow>
             bt_field_class_variant_without_selector_append_option n h c nm m =
               Inr (set_fc h1 c (?F None))) \<and>
          (\<forall>rs r. rs_at h rs = Some r \<and> ranges r \<noteq> [] \<and>
               ranges_overlap h (named_fcs f) r
                 (fc_type f = VARIANT_WITH_SIGNED_SELECTOR) = Inr False \<longrightarrow>
             append_option_to_variant_with_selector_field_class n h c nm m rs (fc_type f) =
               Inr (set_fc (set_rs h1 rs (r\<lparr>rs_frozen := True\<rparr>)) c (?F (Some rs)))) \<and>
          (\<forall>g x. fc_at g c = Some (?F x) \<longrightarrow>
             (\<forall>e\<in>set (named_fcs f @ [?NF x]).
                borrow_named_field_class_from_container_field_class_by_name g c (name e) =
                  Inr (Some e))))"
      if "n0 \<le> n" for n
    proof -
      from n0[OF that] obtain h1 where fz: "bt_field_class_freeze n h m = Inr h1"
        and fm: "frozen (fcs h1 ! m)"
        and fo: "freezes_only h h1" and c1: "fc_at h1 c = Some f"
        and cr: "create_named_field_class n h nm m = Inr (h1, ?NF None)"
        and co: "\<And>rs r. rs_at h rs = Some r \<Longrightarrow>
           create_variant_with_selector_option n h nm m rs =
             Inr (set_rs h1 rs (r\<lparr>rs_frozen := True\<rparr>), ?NF (Some rs))"
        by blast
      have c2: "fc_at (set_rs h1 rs r') c = Some f" for rs r'
        using c1 by (auto simp: fc_at_def set_rs_def split: if_splits)
      have d: "nm \<in> ?names \<longrightarrow>
          (fc_type f = STRUCTURE \<longrightarrow>
             bt_field_class_structure_append_member n h c nm m = Inl (DuplicateName, h1)) \<and>
          (fc_type f = VARIANT_WITHOUT_SELECTOR \<longrightarrow>
             bt_field_class_variant_without_selector_append_option n h c nm m =
               Inl (DuplicateName, h1)) \<and>
          (\<forall>rs r. rs_at h rs = Some r \<and> ranges r \<noteq> [] \<and>
               ranges_overlap h (named_fcs f) r
                 (fc_type f = VARIANT_WITH_SIGNED_SELECTOR) = Inr False \<longrightarrow>
             append_option_to_variant_with_selector_field_class n h c nm m rs (fc_type f) =
               Inl (DuplicateName, set_rs h1 rs (r\<lparr>rs_frozen := True\<rparr>)))"
      proof (intro impI conjI allI)
        assume dup: "nm \<in> ?names"
        have ap: "append_named_field_class_to_container_field_class g c (?NF x) =
            Inl (DuplicateName, g)" if "fc_at g c = Some f" for g x
          using append_named_field_class_cases(1)[OF that hot wf, of "?NF x"] dup by simp
        {
          assume "fc_type f = STRUCTURE"
          with c cr ap[OF c1]
          show "bt_field_class_structure_append_member n h c nm m = Inl (DuplicateName, h1)"
            by (simp add: bt_field_class_structure_append_member_def)
        }
        {
          assume "fc_type f = VARIANT_WITHOUT_SELECTOR"
          with c m cr ap[OF c1]
          show "bt_field_class_variant_without_selector_append_option n h c nm m =
              Inl (DuplicateName, h1)"
            by (simp add: bt_field_class_variant_without_selector_append_option_def)
        }
        {
          fix rs r
          assume a: "rs_at h rs = Some r \<and> ranges r \<noteq> [] \<and>
               ranges_overlap h (named_fcs f) r
                 (fc_type f = VARIANT_WITH_SIGNED_SELECTOR) = Inr False"
          with c m co[of rs r] ap[OF c2]
          show "append_option_to_variant_with_selector_field_class n h c nm m rs (fc_type f) =
               Inl (DuplicateName, set_rs h1 rs (r\<lparr>rs_frozen := True\<rparr>))"
            by (simp add: append_option_to_variant_with_selector_field_class_def)
        }
      qed
      have s: "nm \<notin> ?names \<longrightarrow>
          (fc_type f = STRUCTURE \<longrightarrow>
             bt_field_class_structure_append_member n h c nm m = Inr (set_fc h1 c (?F None))) \<and>
          (fc_type f = VARIANT_WITHOUT_SELECTOR \<longrightarrow>
             bt_field_class_variant_without_selector_append_option n h c nm m =
               Inr (set_fc h1 c (?F None))) \<and>
          (\<forall>rs r. rs_at h rs = Some r \<and> ranges r \<noteq> [] \<and>
               ranges_overlap h (named_fcs f) r
                 (fc_type f = VARIANT_WITH_SIGNED_SELECTOR) = Inr False \<longrightarrow>
             append_option_to_variant_with_selector_field_class n h c nm m rs (fc_type f) =
               Inr (set_fc (set_rs h1 rs (r\<lparr>rs_frozen := True\<rparr>)) c (?F (Some rs)))) \<and>
          (\<forall>g x. fc_at g c = Some (?F x) \<longrightarrow>
             (\<forall>e\<in>set (named_fcs f @ [?NF x]).
                borrow_named_field_class_from_container_field_class_by_name g c (name e) =
                  Inr (Some e)))"
      proof (intro impI conjI allI)
        assume new: "nm \<notin> ?names"
        have ap: "append_named_field_class_to_container_field_class g c (?NF x) =
            Inr (set_fc g c (?F x))" if "fc_at g c = Some f" for g x
          using append_named_field_class_cases(2)[OF that hot wf, of "?NF x"] new by simp
        {
          assume "fc_type f = STRUCTURE"
          with c cr ap[OF c1]
          show "bt_field_class_structure_append_member n h c nm m =
              Inr (set_fc h1 c (?F None))"
            by (simp add: bt_field_class_structure_append_member_def)
        }
        {
          assume "fc_type f = VARIANT_WITHOUT_SELECTOR"
          with c m cr ap[OF c1]
          show "bt_field_class_variant_without_selector_append_option n h c nm m =
              Inr (set_fc h1 c (?F None))"
            by (simp add: bt_field_class_variant_without_selector_append_option_def)
        }
        {
          fix rs r
          assume a: "rs_at h rs = Some r \<and> ranges r \<noteq> [] \<and>
               ranges_overlap h (named_fcs f) r
                 (fc_type f = VARIANT_WITH_SIGNED_SELECTOR) = Inr False"
          with c m co[of rs r] ap[OF c2]
          show "append_option_to_variant_with_selector_field_class n h c nm m rs (fc_type f) =
               Inr (set_fc (set_rs h1 rs (r\<lparr>rs_frozen := True\<rparr>)) c (?F (Some rs)))"
            by (simp add: append_option_to_variant_with_selector_field_class_def)
        }
        {
          fix g x
          assume g: "fc_at g c = Some (?F x)"
          from names_indexed_append[OF wf, of "?NF x"] new
          have wf': "container_names_indexed (?F x)" by simp
          from names_indexed_borrow[OF g wf']
          show "\<forall>e\<in>set (named_fcs f @ [?NF x]).
                borrow_named_field_class_from_container_field_class_by_name g c (name e) =
                  Inr (Some e)" by simp
        }
      qed
      from fz fm fo c1 d s show ?thesis by blast
    qed
    then show ?thesis by blast
  qed
  have D: "\<forall>n rs r. fc_at h m \<noteq> None \<and> rs_at h rs = Some r \<longrightarrow>
      (ranges r = [] \<longrightarrow>
         append_option_to_variant_with_selector_field_class n h c nm m rs (fc_type f) =
           Inl (EmptyRangeSet, h)) \<and>
      (ranges r \<noteq> [] \<and>
       ranges_overlap h (named_fcs f) r (fc_type f = VARIANT_WITH_SIGNED_SELECTOR) = Inr True \<longrightarrow>
         append_option_to_variant_with_selector_field_class n h c nm m rs (fc_type f) =
           Inl (OverlappingRanges, h))"
    using c by (auto simp: append_option_to_variant_with_selector_field_class_def)
  have E: "\<forall>n rs. bt_field_class_variant_with_unsigned_selector_append_option n h c nm m rs =
        append_option_to_variant_with_selector_field_class n h c nm m rs
          VARIANT_WITH_UNSIGNED_SELECTOR \<and>
      bt_field_class_variant_with_signed_selector_append_option n h c nm m rs =
        append_option_to_variant_with_selector_field_class n h c nm m rs
          VARIANT_WITH_SIGNED_SELECTOR"
    by (simp add: bt_field_class_variant_with_unsigned_selector_append_option_def
        bt_field_class_variant_with_signed_selector_append_option_def)
  from B have B': "heap_wf h \<and> fc_at h m = Some mf \<and> m \<noteq> c \<longrightarrow>
      (\<exists>n0. \<forall>n\<ge>n0. \<exists>h1. bt_field_class_freeze n h m = Inr h1 \<and> frozen (fcs h1 ! m) \<and>
       freezes_only h h1 \<and> fc_at h1 c = Some f \<and>
       (nm \<in> ?names \<longrightarrow>
          (fc_type f = STRUCTURE \<longrightarrow>
             bt_field_class_structure_append_member n h c nm m = Inl (DuplicateName, h1)) \<and>
          (fc_type f = VARIANT_WITHOUT_SELECTOR \<longrightarrow>
             bt_field_class_variant_without_selector_append_option n h c nm m =
               Inl (DuplicateName, h1)) \<and>
          (\<forall>rs r. rs_at h rs = Some r \<and> ranges r \<noteq> [] \<and>
               ranges_overlap h (named_fcs f) r
                 (fc_type f = VARIANT_WITH_SIGNED_SELECTOR) = Inr False \<longrightarrow>
             append_option_to_variant_with_selector_field_class n h c nm m rs (fc_type f) =
               Inl (DuplicateName, set_rs h1 rs (r\<lparr>rs_frozen := True\<rparr>)))) \<and>
       (nm \<notin> ?names \<longrightarrow>
          (fc_type f = STRUCTURE \<longrightarrow>
             bt_field_class_structure_append_member n h c nm m = Inr (set_fc h1 c (?F None))) \<and>
          (fc_type f = VARIANT_WITHOUT_SELECTOR \<longrightarrow>
             bt_field_class_variant_without_selector_append_option n h c nm m =
               Inr (set_fc h1 c (?F None))) \<and>
          (\<forall>rs r. rs_at h rs = Some r \<and> ranges r \<noteq> [] \<and>
               ranges_overlap h (named_fcs f) r
                 (fc_type f = VARIANT_WITH_SIGNED_SELECTOR) = Inr False \<longrightarrow>
             append_option_to_variant_with_selector_field_class n h c nm m rs (fc_type f) =
               Inr (set_fc (set_rs h1 rs (r\<lparr>rs_frozen := True\<rparr>)) c (?F (Some rs)))) \<and>
          (\<forall>g x. fc_at g c = Some (?F x) \<longrightarrow>
             (\<forall>e\<in>set (named_fcs f @ [?NF x]).
                borrow_named_field_class_from_container_field_class_by_name g c (name e) =
                  Inr (Some e)))))"
    by (intro impI) (elim conjE, rule B)
  have F: "\<forall>g f'. fc_at g c = Some f' \<and> frozen f' \<longrightarrow>
      append_named_field_class_to_container_field_class g c nf = Inl (InvalidState, g)"
    using append_frozen by blast
  show ?thesis
    by (intro conjI) (rule A1, rule A2, rule A3, rule B', rule D, rule E, rule F)
qed

text \<open>
  C5 as stated fails in three ways. On a frozen container the hot check comes before the
  look-up of the name: appending a member named \<open>a\<close> to the frozen structure of
  \<open>frozen_struct_example\<close>, which has a member \<open>a\<close>, fails on the hot check. On the
  variant of \<open>variant_example\<close>, which is not frozen and has an option \<open>A\<close> on
  \<open>[0, 10]\<close>, appending an option \<open>A\<close> with the range set \<open>[10, 20]\<close> fails on the
  overlap, which is checked before the option is created. Appending the structure of
  \<open>struct_example\<close>, which is not frozen, to itself under the name \<open>a\<close> of its member
  freezes the structure first, so the append fails on the hot check.
\<close>

theorem append_duplicate_name_other_error:
  "bt_field_class_structure_append_member 1 frozen_struct_example 0 ''a'' 1 =
     Inl (InvalidState, frozen_struct_example) \<and>
   append_named_field_class_to_container_field_class frozen_struct_example 0
     \<lparr>name = ''a'', fc = 1, nfc_frozen = True, opt_range_set = None\<rparr> =
     Inl (InvalidState, frozen_struct_example) \<and>
   map_of (name_to_index (fcs frozen_struct_example ! 0)) ''a'' = Some 0 \<and>
   \<not> frozen (fcs variant_example ! 1) \<and>
   map_of (name_to_index (fcs variant_example ! 1)) ''A'' = Some 0 \<and>
   bt_field_class_variant_with_unsigned_selector_append_option 1 variant_example 1 ''A'' 2 1 =
     Inl (OverlappingRanges, variant_example) \<and>
   \<not> frozen (fcs struct_example ! 0) \<and>
   map_of (name_to_index (fcs struct_example ! 0)) ''a'' = Some 0 \<and>
   bt_field_class_structure_append_member 4 struct_example 0 ''a'' 0 =
     Inl (InvalidState, set_fc struct_example 0 ((fcs struct_example ! 0)\<lparr>frozen := True\<rparr>))"
proof -
  have a: "bt_field_class_structure_append_member 1 frozen_struct_example 0 ''a'' 1 =
     Inl (InvalidState, frozen_struct_example) \<and>
   append_named_field_class_to_container_field_class frozen_struct_example 0
     \<lparr>name = ''a'', fc = 1, nfc_frozen = True, opt_range_set = None\<rparr> =
     Inl (InvalidState, frozen_struct_example) \<and>
   map_of (name_to_index (fcs frozen_struct_example ! 0)) ''a'' = Some 0"
    by (simp add: frozen_struct_example_def container_defs heap_defs)
  have b: "\<not> frozen (fcs variant_example ! 1) \<and>
   map_of (name_to_index (fcs variant_example ! 1)) ''A'' = Some 0 \<and>
   bt_field_class_variant_with_unsigned_selector_append_option 1 variant_example 1 ''A'' 2 1 =
     Inl (OverlappingRanges, variant_example)"
    by (simp add: variant_example_def container_defs heap_defs)
  have c: "\<not> frozen (fcs struct_example ! 0) \<and>
   map_of (name_to_index (fcs struct_example ! 0)) ''a'' = Some 0 \<and>
   bt_field_class_structure_append_member 4 struct_example 0 ''a'' 0 =
     Inl (InvalidState, set_fc struct_example 0 ((fcs struct_example ! 0)\<lparr>frozen := True\<rparr>))"
    by (simp add: struct_example_def container_defs heap_defs fc_is_container_def
        eval_nat_numeral)
  from a b c show ?thesis by blast
qed

theorem append_named_field_class_spec_witness:
  "append_named_field_class_to_container_field_class struct_example 0
     \<lparr>name = ''a'', fc = 1, nfc_frozen = True, opt_range_set = None\<rparr> =
     Inl (DuplicateName, struct_example) \<and>
   append_named_field_class_to_container_field_class struct_example 0
     \<lparr>name = ''b'', fc = 1, nfc_frozen = True, opt_range_set = None\<rparr> =
     Inr (set_fc struct_example 0
       ((fcs struct_example ! 0)
          \<lparr>named_fcs := [\<lparr>name = ''a'', fc = 1, nfc_frozen = True, opt_range_set = None\<rparr>,
                         \<lparr>name = ''b'', fc = 1, nfc_frozen = True, opt_range_set = None\<rparr>],
           name_to_index := [(''b'', 1), (''a'', 0)]\<rparr>)) \<and>
   borrow_named_field_class_from_container_field_class_by_name struct_example 0 ''a'' =
     Inr (Some \<lparr>name = ''a'', fc = 1, nfc_frozen = True, opt_range_set = None\<rparr>) \<and>
   heap_wf struct_example \<and>
   bt_field_class_structure_append_member 1 struct_example 0 ''a'' 1 =
     Inl (DuplicateName, struct_example) \<and>
   (\<exists>n0 h1. bt_field_class_structure_append_member n0 struct_example 0 ''a'' 1 =
      Inl (DuplicateName, h1)) \<and>
   bt_field_class_structure_append_member 1 struct_example 0 ''b'' 1 =
     Inr (set_fc struct_example 0
       ((fcs struct_example ! 0)
          \<lparr>named_fcs := [\<lparr>name = ''a'', fc = 1, nfc_frozen = True, opt_range_set = None\<rparr>,
                         \<lparr>name = ''b'', fc = 1, nfc_frozen = True, opt_range_set = None\<rparr>],
           name_to_index := [(''b'', 1), (''a'', 0)]\<rparr>)) \<and>
   bt_field_class_variant_with_unsigned_selector_append_option 1 variant_example 1 ''A'' 2 2 =
     Inl (DuplicateName,
          set_rs variant_example 2 ((range_sets variant_example ! 2)\<lparr>rs_frozen := True\<rparr>))"
proof -
  have 1: "fc_at struct_example 0 = Some (fcs struct_example ! 0)"
    by (simp add: struct_example_def heap_defs)
  have 2: "\<not> frozen (fcs struct_example ! 0)"
    by (simp add: struct_example_def heap_defs)
  have 3: "container_names_indexed (fcs struct_example ! 0)"
    by (simp add: struct_example_def heap_defs container_names_indexed_def)
  have 4: "heap_wf struct_example \<and> fc_at struct_example 1 = Some (fcs struct_example ! 1) \<and>
      (1::nat) \<noteq> 0"
    using struct_example_wf by (simp add: struct_example_def heap_defs)
  have 5: "''a'' \<in> name ` set (named_fcs (fcs struct_example ! 0))"
    "fc_type (fcs struct_example ! 0) = STRUCTURE"
    by (simp_all add: struct_example_def heap_defs init_named_field_classes_container_def)
  have w1: "append_named_field_class_to_container_field_class struct_example 0
     \<lparr>name = ''a'', fc = 1, nfc_frozen = True, opt_range_set = None\<rparr> =
     Inl (DuplicateName, struct_example) \<and>
   append_named_field_class_to_container_field_class struct_example 0
     \<lparr>name = ''b'', fc = 1, nfc_frozen = True, opt_range_set = None\<rparr> =
     Inr (set_fc struct_example 0
       ((fcs struct_example ! 0)
          \<lparr>named_fcs := [\<lparr>name = ''a'', fc = 1, nfc_frozen = True, opt_range_set = None\<rparr>,
                         \<lparr>name = ''b'', fc = 1, nfc_frozen = True, opt_range_set = None\<rparr>],
           name_to_index := [(''b'', 1), (''a'', 0)]\<rparr>)) \<and>
   borrow_named_field_class_from_container_field_class_by_name struct_example 0 ''a'' =
     Inr (Some \<lparr>name = ''a'', fc = 1, nfc_frozen = True, opt_range_set = None\<rparr>)"
    using append_named_field_class_spec [OF 1 2 3,
        of "\<lparr>name = ''a'', fc = 1, nfc_frozen = True, opt_range_set = None\<rparr>"]
      append_named_field_class_spec [OF 1 2 3,
        of "\<lparr>name = ''b'', fc = 1, nfc_frozen = True, opt_range_set = None\<rparr>"]
    by (simp add: struct_example_def container_defs heap_defs)
  note t = append_named_field_class_spec [OF 1 2 3, where m = 1
      and mf = "fcs struct_example ! 1" and nm = "''a''",
      THEN conjunct2, THEN conjunct2, THEN conjunct2, THEN conjunct1, THEN mp, OF 4]
  have w2: "\<exists>n0 h1. bt_field_class_structure_append_member n0 struct_example 0 ''a'' 1 =
      Inl (DuplicateName, h1)"
    using enough_fuel_instance[OF t] 5 by blast
  have w3: "bt_field_class_structure_append_member 1 struct_example 0 ''a'' 1 =
     Inl (DuplicateName, struct_example)"
    by (simp add: struct_example_def container_defs heap_defs)
  have w4: "bt_field_class_structure_append_member 1 struct_example 0 ''b'' 1 =
     Inr (set_fc struct_example 0
       ((fcs struct_example ! 0)
          \<lparr>named_fcs := [\<lparr>name = ''a'', fc = 1, nfc_frozen = True, opt_range_set = None\<rparr>,
                         \<lparr>name = ''b'', fc = 1, nfc_frozen = True, opt_range_set = None\<rparr>],
           name_to_index := [(''b'', 1), (''a'', 0)]\<rparr>))"
    by (simp add: struct_example_def container_defs heap_defs)
  have w5: "bt_field_class_variant_with_unsigned_selector_append_option 1 variant_example 1 ''A'' 2 2 =
     Inl (DuplicateName,
          set_rs variant_example 2 ((range_sets variant_example ! 2)\<lparr>rs_frozen := True\<rparr>))"
    by (simp add: variant_example_def container_defs heap_defs)
  from w1 w2 w3 w4 w5 struct_example_wf show ?thesis by blast
qed

end
